(* ===== verification/GoPrelude.thy ===== *)
theory GoPrelude
  imports Complex_Main "HOL-Library.Word" "HOL-Library.AList" "HOL-Library.Multiset"
    "HOL-Library.List_Lexorder" "HOL-Library.Char_ord"
begin

text \<open>
  The vocabulary every component shares: machine integers, time, Go maps, Go's
  \<^verbatim>\<open>sort.Slice\<close>, and the two contracts (\<open>keyed_store\<close>, \<open>invariant_system\<close>) whose
  client lemmas the components use.

  A Go map is an association list whose keys are distinct (\<open>wf_map\<close>). Go leaves the order
  of a \<^verbatim>\<open>range\<close> over a map open: a loop over a map visits the list in its order, and
  a theorem that quantifies over the list quantifies over every order. Loops that change the
  map while they range over it take the visiting order as an argument of their own.
\<close>

named_theorems go_maps \<open>lookups, lengths and key lists of Go maps after an update\<close>
named_theorems go_strings \<open>evaluation of the string helpers on literals\<close>

section \<open>Numbers and time\<close>

type_synonym u8 = "8 word"
type_synonym u16 = "16 word"
type_synonym u32 = "32 word"
type_synonym u64 = "64 word"

text \<open>A \<^verbatim>\<open>float64\<close> is the rational number it denotes; the sources compute no infinity or NaN.\<close>

type_synonym float64 = rat

text \<open>
  \<^verbatim>\<open>time.Time\<close> is its number of nanoseconds since the Unix epoch; Go's zero \<^verbatim>\<open>Time\<close> is
  1 January of year 1. \<^verbatim>\<open>time.Duration\<close> is a number of nanoseconds, and \<^verbatim>\<open>Time.Sub\<close>
  saturates at the bounds of \<^verbatim>\<open>int64\<close>.
\<close>

type_synonym gotime = int
type_synonym duration = int

definition zeroTime :: gotime where
  "zeroTime = - 62135596800000000000"

definition IsZero :: "gotime \<Rightarrow> bool" where
  "IsZero t \<longleftrightarrow> t = zeroTime"

definition clamp64 :: "int \<Rightarrow> int" where
  "clamp64 x = max (- (2 ^ 63)) (min (2 ^ 63 - 1) x)"

definition timeSub :: "gotime \<Rightarrow> gotime \<Rightarrow> duration" where
  "timeSub a b = clamp64 (a - b)"

definition millisecond :: duration where "millisecond = 1000000"
definition second :: duration where "second = 1000 * millisecond"
definition minute :: duration where "minute = 60 * second"

lemma timeSub_eq: "\<bar>a - b\<bar> < 2 ^ 63 \<Longrightarrow> timeSub a b = a - b"
  by (simp add: timeSub_def clamp64_def abs_less_iff max_def min_def)

lemma timeSub_mono: "a \<le> a' \<Longrightarrow> timeSub a b \<le> timeSub a' b"
  by (simp add: timeSub_def clamp64_def max_def min_def)

section \<open>Go maps\<close>

type_synonym ('k, 'v) gomap = "('k \<times> 'v) list"

definition wf_map :: "('k, 'v) gomap \<Rightarrow> bool" where
  "wf_map m \<longleftrightarrow> distinct (map fst m)"

abbreviation go_put :: "'k \<Rightarrow> 'v \<Rightarrow> ('k, 'v) gomap \<Rightarrow> ('k, 'v) gomap" where
  "go_put \<equiv> AList.update"

abbreviation go_del :: "'k \<Rightarrow> ('k, 'v) gomap \<Rightarrow> ('k, 'v) gomap" where
  "go_del \<equiv> AList.delete"

abbreviation go_keys :: "('k, 'v) gomap \<Rightarrow> 'k list" where
  "go_keys m \<equiv> map fst m"

abbreviation go_vals :: "('k, 'v) gomap \<Rightarrow> 'v list" where
  "go_vals m \<equiv> map snd m"

lemma map_of_go_put [go_maps, simp]: "map_of (go_put k v m) = (map_of m)(k \<mapsto> v)"
  by (rule update_conv')

lemma map_of_go_del [go_maps, simp]: "map_of (go_del k m) = (map_of m)(k := None)"
  by (rule delete_conv')

lemma wf_map_Nil [simp]: "wf_map []"
  by (simp add: wf_map_def)

lemma wf_map_go_put [go_maps, simp, intro]: "wf_map m \<Longrightarrow> wf_map (go_put k v m)"
  unfolding wf_map_def by (rule distinct_update)

lemma wf_map_go_del [go_maps, simp, intro]: "wf_map m \<Longrightarrow> wf_map (go_del k m)"
  unfolding wf_map_def by (rule distinct_delete)

lemma wf_map_filter [simp, intro]: "wf_map m \<Longrightarrow> wf_map (filter P m)"
  unfolding wf_map_def by (rule distinct_map_filter)

lemma length_go_put [go_maps]:
  "length (go_put k v m) = (if map_of m k = None then Suc (length m) else length m)"
  by (induction m) auto

lemma length_go_put_le: "length (go_put k v m) \<le> Suc (length m)"
  by (simp add: length_go_put)

lemma length_go_del_le: "length (go_del k m) \<le> length m"
  by (simp add: AList.delete_eq)

lemma length_go_del_less: "map_of m k \<noteq> None \<Longrightarrow> length (go_del k m) < length m"
proof (induction m)
  case (Cons a m)
  then show ?case using length_go_del_le [of k m] by (cases a) (auto simp: less_Suc_eq_le)
qed simp

lemma wf_map_in_set: "wf_map m \<Longrightarrow> (k, v) \<in> set m \<longleftrightarrow> map_of m k = Some v"
  unfolding wf_map_def by (metis map_of_eq_Some_iff)

lemma map_of_filter_eq:
  "wf_map m \<Longrightarrow> map_of (filter (\<lambda>(k, v). P k v) m) k
     = (case map_of m k of None \<Rightarrow> None | Some v \<Rightarrow> if P k v then Some v else None)"
proof (induction m)
  case (Cons a m)
  obtain k' v' where a: "a = (k', v')" by (cases a)
  have nk: "map_of m k' = None"
    using Cons.prems a by (simp add: wf_map_def map_of_eq_None_iff)
  have wf: "wf_map m" using Cons.prems by (simp add: wf_map_def)
  show ?case using Cons.IH [OF wf] nk a by auto
qed simp

text \<open>A map is determined by its lookups: two maps that agree pointwise are permutations.\<close>

definition same_map :: "('k, 'v) gomap \<Rightarrow> ('k, 'v) gomap \<Rightarrow> bool" where
  "same_map m m' \<longleftrightarrow> map_of m = map_of m'"

lemma same_map_refl [simp]: "same_map m m"
  by (simp add: same_map_def)

lemma same_map_mset:
  assumes "wf_map m" and "wf_map m'"
  shows "same_map m m' \<longleftrightarrow> mset m = mset m'"
proof
  assume "same_map m m'"
  then have "set m = set m'"
    using wf_map_in_set [OF assms(1)] wf_map_in_set [OF assms(2)] by (auto simp: same_map_def)
  moreover have "distinct m" "distinct m'"
    using assms by (auto simp: wf_map_def distinct_map)
  ultimately show "mset m = mset m'" by (simp add: set_eq_iff_mset_eq_distinct)
next
  assume "mset m = mset m'"
  then have "set m = set m'" by (rule mset_eq_setD)
  then have "map_of m k = map_of m' k" for k
    using assms wf_map_in_set [of m] wf_map_in_set [of m'] by (metis not_Some_eq)
  then show "same_map m m'" by (auto simp: same_map_def)
qed

text \<open>
  A range over a map that the code has just built: \<open>ord\<close> is the order in which Go delivers its
  keys. A theorem that holds for every \<open>ord\<close> with \<open>is_order\<close> holds for every order.
\<close>

definition go_range :: "('k list \<Rightarrow> 'k list) \<Rightarrow> ('k, 'v) gomap \<Rightarrow> ('k \<times> 'v) list" where
  "go_range ord m = List.map_filter (\<lambda>k. map_option (Pair k) (map_of m k)) (ord (go_keys m))"

definition is_order :: "('k list \<Rightarrow> 'k list) \<Rightarrow> bool" where
  "is_order ord \<longleftrightarrow> (\<forall>ks. mset (ord ks) = mset ks)"

lemma is_order_id [simp]: "is_order id" "is_order (\<lambda>ks. ks)" "is_order rev"
  by (simp_all add: is_order_def)

lemma mset_map_filter: "mset (List.map_filter f xs) = image_mset the (filter_mset (\<lambda>y. y \<noteq> None) (image_mset f (mset xs)))"
  by (induction xs) (auto simp: map_filter_simps)

lemma map_filter_lookup: "wf_map m \<Longrightarrow> List.map_filter (\<lambda>k. map_option (Pair k) (map_of m k)) (go_keys m) = m"
proof -
  assume "wf_map m"
  then have "map_of m k = Some v" if "(k, v) \<in> set m" for k v
    using that by (simp add: wf_map_in_set)
  then have "\<forall>x \<in> set m. map_of m (fst x) = Some (snd x)" by auto
  have "set m' \<subseteq> set m \<Longrightarrow> List.map_filter (\<lambda>k. map_option (Pair k) (map_of m k)) (go_keys m') = m'" for m'
    using \<open>\<forall>x \<in> set m. map_of m (fst x) = Some (snd x)\<close>
    by (induction m') (auto simp: map_filter_simps)
  then show ?thesis by simp
qed

lemma mset_go_range: "is_order ord \<Longrightarrow> wf_map m \<Longrightarrow> mset (go_range ord m) = mset m"
proof -
  assume o: "is_order ord" and wf: "wf_map m"
  have "mset (go_range ord m) = mset (List.map_filter (\<lambda>k. map_option (Pair k) (map_of m k)) (go_keys m))"
    using o by (simp add: go_range_def mset_map_filter is_order_def)
  with map_filter_lookup [OF wf] show ?thesis by simp
qed

subsection \<open>The contract of a keyed store\<close>

text \<open>
  The interface through which the tree, the caches and the snapshot table use their maps:
  what a lookup returns after an insert or a removal, and how the size moves.
\<close>

locale keyed_store =
  fixes lookup :: "'m \<Rightarrow> 'k \<Rightarrow> 'v option"
    and put :: "'k \<Rightarrow> 'v \<Rightarrow> 'm \<Rightarrow> 'm"
    and del :: "'k \<Rightarrow> 'm \<Rightarrow> 'm"
    and card_of :: "'m \<Rightarrow> nat"
    and ok :: "'m \<Rightarrow> bool"
  assumes lookup_put: "ok m \<Longrightarrow> lookup (put k v m) = (lookup m)(k \<mapsto> v)"
    and lookup_del: "ok m \<Longrightarrow> lookup (del k m) = (lookup m)(k := None)"
    and ok_put: "ok m \<Longrightarrow> ok (put k v m)"
    and ok_del: "ok m \<Longrightarrow> ok (del k m)"
    and card_put_old: "ok m \<Longrightarrow> lookup m k \<noteq> None \<Longrightarrow> card_of (put k v m) = card_of m"
    and card_put_new: "ok m \<Longrightarrow> lookup m k = None \<Longrightarrow> card_of (put k v m) = Suc (card_of m)"
    and card_del: "ok m \<Longrightarrow> lookup m k \<noteq> None \<Longrightarrow> card_of (del k m) < card_of m"
begin

lemma rekey_lookup:
  "ok m \<Longrightarrow> lookup (put k' v (del k m)) = (lookup m)(k := None, k' \<mapsto> v)"
  by (simp add: lookup_put lookup_del ok_del)

lemma rekey_card: "ok m \<Longrightarrow> lookup m k \<noteq> None \<Longrightarrow> card_of (put k' v (del k m)) \<le> card_of m"
proof -
  assume ok: "ok m" and k: "lookup m k \<noteq> None"
  have "card_of (put k' v (del k m)) \<le> Suc (card_of (del k m))"
    using card_put_old [OF ok_del [OF ok]] card_put_new [OF ok_del [OF ok]]
    by (cases "lookup (del k m) k' = None") (metis le_refl, metis le_SucI le_refl)
  with card_del [OF ok k] show ?thesis by simp
qed

lemma put_all_ok: "ok m \<Longrightarrow> ok (fold (\<lambda>x. put (f x) (g x)) xs m)"
  by (induction xs arbitrary: m) (auto simp: ok_put)

lemma put_all_lookup:
  "ok m \<Longrightarrow> k \<notin> f ` set xs \<Longrightarrow> lookup (fold (\<lambda>x. put (f x) (g x)) xs m) k = lookup m k"
  by (induction xs arbitrary: m) (auto simp: ok_put lookup_put)

lemma put_bounded:
  "ok m \<Longrightarrow> card_of m \<le> n \<Longrightarrow> lookup m k \<noteq> None \<or> card_of m < n \<Longrightarrow> card_of (put k v m) \<le> n"
  by (cases "lookup m k = None") (auto simp: card_put_old card_put_new)

end

interpretation gm: keyed_store map_of AList.update AList.delete length wf_map
  by unfold_locales (auto simp: length_go_put length_go_del_less)

subsection \<open>The contract of a system with an invariant\<close>

locale invariant_system =
  fixes step :: "'e \<Rightarrow> 's \<Rightarrow> 's"
    and inv :: "'s \<Rightarrow> bool"
  assumes step_inv: "inv s \<Longrightarrow> inv (step e s)"
begin

lemma run_inv: "inv s \<Longrightarrow> inv (fold step es s)"
  by (induction es arbitrary: s) (auto intro: step_inv)

lemma run_prefix_inv: "inv s \<Longrightarrow> inv (fold step (take n es) s)"
  by (rule run_inv)

end

text \<open>The same for a step relation; a system whose steps are functions is one.\<close>

locale transition_invariant =
  fixes moves :: "'s \<Rightarrow> 's \<Rightarrow> bool"
    and inv :: "'s \<Rightarrow> bool"
  assumes moves_keep: "inv s \<Longrightarrow> moves s s' \<Longrightarrow> inv s'"
begin

lemma reach_keeps: "moves\<^sup>*\<^sup>* s s' \<Longrightarrow> inv s \<Longrightarrow> inv s'"
  by (induction rule: rtranclp_induct) (auto intro: moves_keep)

lemma reach_next_keeps: "moves\<^sup>*\<^sup>* s s' \<Longrightarrow> moves s' s'' \<Longrightarrow> inv s \<Longrightarrow> inv s''"
  by (rule moves_keep [OF reach_keeps])

end

sublocale invariant_system \<subseteq> steps: transition_invariant "\<lambda>s s'. \<exists>e. s' = step e s" inv
  by unfold_locales (auto intro: step_inv)

lemma in_map_filter: "e \<in> set (List.map_filter f xs) \<longleftrightarrow> (\<exists>x \<in> set xs. f x = Some e)"
  by (force simp: List.map_filter_def)

lemma find_SomeD: "find P xs = Some x \<Longrightarrow> x \<in> set xs \<and> P x"
  by (auto simp: find_Some_iff)

section \<open>\<^verbatim>\<open>sort.Slice\<close>\<close>

text \<open>
  \<^verbatim>\<open>sort.Slice(xs, less)\<close> permutes \<^verbatim>\<open>xs\<close> so that no element is less than one before
  it. Up to twelve elements Go runs the insertion sort below; longer slices may order equal
  elements differently, so the theorems use the contract \<open>slice_sort\<close> alone.
\<close>

fun insert_less :: "('a \<Rightarrow> 'a \<Rightarrow> bool) \<Rightarrow> 'a \<Rightarrow> 'a list \<Rightarrow> 'a list" where
  "insert_less lt x [] = [x]"
| "insert_less lt x (y # ys) =
     (if lt x y then x # y # ys else y # insert_less lt x ys)"

definition sort_slice :: "('a \<Rightarrow> 'a \<Rightarrow> bool) \<Rightarrow> 'a list \<Rightarrow> 'a list" where
  "sort_slice lt xs = foldl (\<lambda>acc x. insert_less lt x acc) [] xs"

abbreviation more_by :: "('a \<Rightarrow> 'b::linorder) \<Rightarrow> 'a \<Rightarrow> 'a \<Rightarrow> bool" where
  "more_by f x y \<equiv> f y < f x"

abbreviation less_by :: "('a \<Rightarrow> 'b::linorder) \<Rightarrow> 'a \<Rightarrow> 'a \<Rightarrow> bool" where
  "less_by f x y \<equiv> f x < f y"

definition weak_order :: "('a \<Rightarrow> 'a \<Rightarrow> bool) \<Rightarrow> bool" where
  "weak_order lt \<longleftrightarrow> (\<forall>x y. lt x y \<longrightarrow> \<not> lt y x)
     \<and> (\<forall>x y z. \<not> lt x y \<longrightarrow> \<not> lt y z \<longrightarrow> \<not> lt x z)"

lemma weak_order_more_by [simp]: "weak_order (more_by f)"
  by (auto simp: weak_order_def)

lemma weak_order_less_by [simp]: "weak_order (less_by f)"
  by (auto simp: weak_order_def)

lemma mset_insert_less [simp]: "mset (insert_less lt x ys) = add_mset x (mset ys)"
  by (induction ys) auto

lemma set_insert_less [simp]: "set (insert_less lt x ys) = insert x (set ys)"
  by (induction ys) auto

lemma sorted_insert_less:
  assumes "weak_order lt" and "sorted_wrt (\<lambda>a b. \<not> lt b a) ys"
  shows "sorted_wrt (\<lambda>a b. \<not> lt b a) (insert_less lt x ys)"
  using assms(2)
proof (induction ys)
  case (Cons y ys)
  have asym: "lt a b \<Longrightarrow> \<not> lt b a" for a b
    using assms(1) unfolding weak_order_def by blast
  have ntrans: "\<not> lt a b \<Longrightarrow> \<not> lt b c \<Longrightarrow> \<not> lt a c" for a b c
    using assms(1) unfolding weak_order_def by blast
  show ?case
  proof (cases "lt x y")
    case True
    have "\<not> lt z x" if "z \<in> set ys" for z
    proof (rule ntrans)
      show "\<not> lt z y" using Cons.prems that by simp
      show "\<not> lt y x" using True by (rule asym)
    qed
    with True Cons.prems asym [OF True] show ?thesis by simp
  next
    case False
    with Cons show ?thesis by simp
  qed
qed simp

lemma mset_foldl_insert:
  "mset (foldl (\<lambda>acc x. insert_less lt x acc) acc xs) = mset acc + mset xs"
  by (induction xs arbitrary: acc) auto

lemma sorted_foldl_insert:
  "weak_order lt \<Longrightarrow> sorted_wrt (\<lambda>a b. \<not> lt b a) acc \<Longrightarrow>
   sorted_wrt (\<lambda>a b. \<not> lt b a) (foldl (\<lambda>acc x. insert_less lt x acc) acc xs)"
  by (induction xs arbitrary: acc) (auto intro: sorted_insert_less)

locale slice_sort =
  fixes srt :: "('a \<Rightarrow> 'a \<Rightarrow> bool) \<Rightarrow> 'a list \<Rightarrow> 'a list"
  assumes srt_mset: "mset (srt lt xs) = mset xs"
    and srt_sorted: "weak_order lt \<Longrightarrow> sorted_wrt (\<lambda>a b. \<not> lt b a) (srt lt xs)"
begin

lemma srt_set: "set (srt lt xs) = set xs"
  using srt_mset by (metis set_mset_mset)

lemma srt_length: "length (srt lt xs) = length xs"
  using srt_mset by (metis size_mset)

lemma srt_top:
  assumes "weak_order lt" and "x \<in> set (take n (srt lt xs))"
    and "y \<in> set (drop n (srt lt xs))"
  shows "\<not> lt y x"
proof -
  have "sorted_wrt (\<lambda>a b. \<not> lt b a) (take n (srt lt xs) @ drop n (srt lt xs))"
    using srt_sorted [OF assms(1)] by simp
  with assms(2,3) show ?thesis unfolding sorted_wrt_append by blast
qed

lemma srt_by_key: "sorted_wrt (\<lambda>a b. f b \<le> f a) (srt (more_by f) xs)" for f :: "'a \<Rightarrow> 'b::linorder"
  using srt_sorted [OF weak_order_more_by, of f xs] by (simp add: not_less)

lemma srt_by_key_asc: "sorted_wrt (\<lambda>a b. f a \<le> f b) (srt (less_by f) xs)" for f :: "'a \<Rightarrow> 'b::linorder"
  using srt_sorted [OF weak_order_less_by, of f xs] by (simp add: not_less)

end

interpretation ss: slice_sort sort_slice
  by unfold_locales (simp_all add: sort_slice_def mset_foldl_insert sorted_foldl_insert)

end
