(* ===== verification/GoStrings.thy ===== *)
theory GoStrings
  imports GoPrelude
begin

text \<open>
  Go strings and byte slices are byte sequences: lists of 8-bit \<open>char\<close>s. This theory models
  the functions of the packages \<^verbatim>\<open>strings\<close>, \<^verbatim>\<open>strconv\<close>, \<^verbatim>\<open>encoding/hex\<close>, \<^verbatim>\<open>path/filepath\<close>
  and \<^verbatim>\<open>fmt\<close> that the sources call, byte for byte, and proves the laws the parsers rest on:
  splitting and joining are inverse, number printing and parsing are inverse.
\<close>

section \<open>Prefixes, suffixes, substrings\<close>

definition HasPrefix :: "string \<Rightarrow> string \<Rightarrow> bool" where
  "HasPrefix s p \<longleftrightarrow> take (length p) s = p"

definition HasSuffix :: "string \<Rightarrow> string \<Rightarrow> bool" where
  "HasSuffix s p \<longleftrightarrow> length p \<le> length s \<and> drop (length s - length p) s = p"

fun Contains :: "string \<Rightarrow> string \<Rightarrow> bool" where
  "Contains [] sub \<longleftrightarrow> sub = []"
| "Contains (c # cs) sub \<longleftrightarrow> HasPrefix (c # cs) sub \<or> Contains cs sub"

fun Index :: "string \<Rightarrow> string \<Rightarrow> nat option" where
  "Index [] sub = (if sub = [] then Some 0 else None)"
| "Index (c # cs) sub =
     (if HasPrefix (c # cs) sub then Some 0 else map_option Suc (Index cs sub))"

fun IndexByte :: "string \<Rightarrow> char \<Rightarrow> nat option" where
  "IndexByte [] b = None"
| "IndexByte (c # cs) b = (if c = b then Some 0 else map_option Suc (IndexByte cs b))"

fun LastIndexByte :: "string \<Rightarrow> char \<Rightarrow> nat option" where
  "LastIndexByte [] b = None"
| "LastIndexByte (c # cs) b =
     (case LastIndexByte cs b of
        Some i \<Rightarrow> Some (Suc i)
      | None \<Rightarrow> if c = b then Some 0 else None)"

definition TrimPrefix :: "string \<Rightarrow> string \<Rightarrow> string" where
  "TrimPrefix s p = (if HasPrefix s p then drop (length p) s else s)"

definition TrimSuffix :: "string \<Rightarrow> string \<Rightarrow> string" where
  "TrimSuffix s p = (if HasSuffix s p then take (length s - length p) s else s)"

text \<open>\<^verbatim>\<open>strings.TrimRight(s, "\x00")\<close>.\<close>

definition TrimRightNul :: "string \<Rightarrow> string" where
  "TrimRightNul s = rev (dropWhile (\<lambda>c. c = CHR 0x00) (rev s))"

lemma HasPrefix_append [simp, go_strings]: "HasPrefix (p @ s) p"
  by (simp add: HasPrefix_def)

lemma HasPrefix_iff: "HasPrefix s p \<longleftrightarrow> (\<exists>r. s = p @ r)"
  by (metis HasPrefix_def append_eq_conv_conj append_take_drop_id)

lemma HasPrefix_Nil [simp]: "HasPrefix s []"
  by (simp add: HasPrefix_def)

lemma HasPrefix_Cons [simp]: "HasPrefix (c # s) (d # p) \<longleftrightarrow> c = d \<and> HasPrefix s p"
  by (simp add: HasPrefix_def)

lemma HasPrefix_empty [simp]: "HasPrefix [] p \<longleftrightarrow> p = []"
  by (cases p) (auto simp: HasPrefix_def)

lemma HasSuffix_iff: "HasSuffix s p \<longleftrightarrow> (\<exists>r. s = r @ p)"
proof
  assume "HasSuffix s p"
  then have "s = take (length s - length p) s @ p"
    unfolding HasSuffix_def by (metis append_take_drop_id)
  then show "\<exists>r. s = r @ p" ..
qed (auto simp: HasSuffix_def)

lemma Contains_iff: "Contains s sub \<longleftrightarrow> (\<exists>u v. s = u @ sub @ v)"
proof (induction s)
  case (Cons c cs)
  show ?case
  proof
    assume "Contains (c # cs) sub"
    then consider "HasPrefix (c # cs) sub" | "Contains cs sub" by auto
    then show "\<exists>u v. c # cs = u @ sub @ v"
    proof cases
      case 1
      then show ?thesis by (metis HasPrefix_iff append_Nil)
    next
      case 2
      with Cons.IH show ?thesis by (metis append_Cons)
    qed
  next
    assume "\<exists>u v. c # cs = u @ sub @ v"
    then obtain u v where e: "c # cs = u @ sub @ v" by blast
    show "Contains (c # cs) sub"
    proof (cases u)
      case Nil
      with e show ?thesis by (metis Contains.simps(2) HasPrefix_append append_Nil)
    next
      case (Cons d u')
      with e have "cs = u' @ sub @ v" by simp
      with Cons.IH show ?thesis by auto
    qed
  qed
qed auto

lemma IndexByte_None [simp]: "IndexByte s b = None \<longleftrightarrow> b \<notin> set s"
  by (induction s) auto

lemma IndexByte_Some:
  "IndexByte s b = Some i \<Longrightarrow> i < length s \<and> s ! i = b \<and> b \<notin> set (take i s)"
  by (induction s arbitrary: i) (auto split: if_splits)

lemma LastIndexByte_Some:
  "LastIndexByte s b = Some i \<Longrightarrow> i < length s \<and> s ! i = b \<and> b \<notin> set (drop (Suc i) s)"
proof (induction s arbitrary: i)
  case (Cons c cs)
  have none: "LastIndexByte cs b = None \<Longrightarrow> b \<notin> set cs"
    by (induction cs) (auto split: option.splits if_splits)
  from Cons show ?case using none by (auto split: option.splits if_splits)
qed simp

lemma LastIndexByte_append:
  "b \<notin> set v \<Longrightarrow> LastIndexByte (u @ b # v) b = Some (length u)"
proof -
  assume "b \<notin> set v"
  then have "LastIndexByte v b = None" by (induction v) auto
  then show ?thesis by (induction u) auto
qed

lemma TrimRightNul_pad:
  "(s = [] \<or> last s \<noteq> CHR 0x00) \<Longrightarrow> TrimRightNul (s @ replicate n (CHR 0x00)) = s"
  by (cases s rule: rev_cases) (auto simp: TrimRightNul_def dropWhile_append)

lemma TrimRightNul_last: "TrimRightNul s = [] \<or> last (TrimRightNul s) \<noteq> CHR 0x00"
proof -
  have "dropWhile P xs = [] \<or> \<not> P (hd (dropWhile P xs))" for P and xs :: string
    by (induction xs) auto
  from this [of "\<lambda>c. c = CHR 0x00" "rev s"] show ?thesis
    by (auto simp: TrimRightNul_def last_rev)
qed

section \<open>Splitting and joining\<close>

fun split_byte :: "char \<Rightarrow> string \<Rightarrow> string list" where
  "split_byte b [] = [[]]"
| "split_byte b (c # cs) =
     (if c = b then [] # split_byte b cs
      else case split_byte b cs of [] \<Rightarrow> [[c]] | w # ws \<Rightarrow> (c # w) # ws)"

text \<open>\<^verbatim>\<open>strings.Split(s, sep)\<close> for a separator of more than one byte.\<close>

function split_str :: "string \<Rightarrow> string \<Rightarrow> string list" where
  "split_str sep s =
     (case Index s sep of
        None \<Rightarrow> [s]
      | Some i \<Rightarrow> if sep = [] then [s]
                  else take i s # split_str sep (drop (i + length sep) s))"
  by pat_completeness auto

lemma Index_Some_le: "Index s sub = Some i \<Longrightarrow> i + length sub \<le> length s"
proof (induction s arbitrary: i)
  case (Cons c cs)
  show ?case
  proof (cases "HasPrefix (c # cs) sub")
    case True
    then obtain r where "c # cs = sub @ r" by (auto simp: HasPrefix_iff)
    then have "length (c # cs) = length sub + length r" by (metis length_append)
    with True Cons.prems show ?thesis by simp
  next
    case False
    with Cons show ?thesis by auto
  qed
qed (auto split: if_splits)

termination split_str
proof (relation "measure (\<lambda>(sep, s). length s)")
  fix sep s :: string and i
  assume "Index s sep = Some i" and "sep \<noteq> []"
  then have "i + length sep \<le> length s" and "0 < length sep"
    by (auto dest: Index_Some_le)
  then have "length (drop (i + length sep) s) < length s"
    unfolding length_drop by linarith
  then show "((sep, drop (i + length sep) s), sep, s) \<in> measure (\<lambda>(sep, s). length s)"
    by simp
qed simp

declare split_str.simps [simp del]

text \<open>\<^verbatim>\<open>strings.SplitN(s, sep, 2)\<close> for a one-byte separator.\<close>

definition SplitN2 :: "char \<Rightarrow> string \<Rightarrow> string list" where
  "SplitN2 b s =
     (case IndexByte s b of None \<Rightarrow> [s] | Some i \<Rightarrow> [take i s, drop (Suc i) s])"

fun Join :: "string list \<Rightarrow> string \<Rightarrow> string" where
  "Join [] sep = []"
| "Join [x] sep = x"
| "Join (x # y # zs) sep = x @ sep @ Join (y # zs) sep"

abbreviation newline :: char where "newline \<equiv> CHR 0x0A"

abbreviation Lines :: "string \<Rightarrow> string list" where
  "Lines s \<equiv> split_byte newline s"

lemma split_byte_nonempty [simp]: "split_byte b s \<noteq> []"
  by (cases s) (auto split: list.splits)

lemma Join_Cons: "ws \<noteq> [] \<Longrightarrow> Join (w # ws) sep = w @ sep @ Join ws sep"
  by (cases ws) auto

lemma Join_cons_head: "Join ((c # w) # ws) sep = c # Join (w # ws) sep"
  by (cases ws) auto

lemma Join_split_byte: "Join (split_byte b s) [b] = s"
proof (induction s)
  case (Cons c cs)
  show ?case
  proof (cases "c = b")
    case True
    with Cons show ?thesis by (simp add: Join_Cons)
  next
    case False
    obtain w ws where w: "split_byte b cs = w # ws"
      using split_byte_nonempty [of b cs] by (cases "split_byte b cs") auto
    with Cons False show ?thesis by (simp add: Join_cons_head del: Join.simps)
  qed
qed simp

lemma split_byte_no_sep: "w \<in> set (split_byte b s) \<Longrightarrow> b \<notin> set w"
  by (induction s arbitrary: w) (auto split: if_splits list.splits)

lemma length_split_byte: "length (split_byte b s) = Suc (count_list s b)"
proof (induction s)
  case (Cons c cs)
  then show ?case by (cases "split_byte b cs") auto
qed simp

lemma split_byte_single: "b \<notin> set w \<Longrightarrow> split_byte b w = [w]"
  by (induction w) auto

lemma split_byte_append: "b \<notin> set w \<Longrightarrow> split_byte b (w @ b # s) = w # split_byte b s"
  by (induction w) auto

lemma split_byte_Join:
  "ws \<noteq> [] \<Longrightarrow> \<forall>w \<in> set ws. b \<notin> set w \<Longrightarrow> split_byte b (Join ws [b]) = ws"
proof (induction ws)
  case (Cons w ws)
  then show ?case
    by (cases ws) (auto simp: split_byte_single split_byte_append)
qed simp

section \<open>White space\<close>

text \<open>
  \<^verbatim>\<open>unicode.IsSpace\<close>: the six ASCII spaces and the UTF-8 encodings of U+0085, U+00A0, U+1680,
  U+2000 to U+200A, U+2028, U+2029, U+202F, U+205F and U+3000. None of the encodings occurs
  inside the encoding of another character, so a scan byte by byte finds exactly the white
  space that Go's scan rune by rune finds.
\<close>

definition ascii_space :: "char \<Rightarrow> bool" where
  "ascii_space c \<longleftrightarrow> c = CHR '' '' \<or> c = CHR 0x09 \<or> c = newline \<or> c = CHR 0x0B
     \<or> c = CHR 0x0C \<or> c = CHR 0x0D"

definition wide_spaces :: "string list" where
  "wide_spaces =
     [[CHR 0xC2, CHR 0x85], [CHR 0xC2, CHR 0xA0], [CHR 0xE1, CHR 0x9A, CHR 0x80],
      [CHR 0xE2, CHR 0x80, CHR 0x80], [CHR 0xE2, CHR 0x80, CHR 0x81],
      [CHR 0xE2, CHR 0x80, CHR 0x82], [CHR 0xE2, CHR 0x80, CHR 0x83],
      [CHR 0xE2, CHR 0x80, CHR 0x84], [CHR 0xE2, CHR 0x80, CHR 0x85],
      [CHR 0xE2, CHR 0x80, CHR 0x86], [CHR 0xE2, CHR 0x80, CHR 0x87],
      [CHR 0xE2, CHR 0x80, CHR 0x88], [CHR 0xE2, CHR 0x80, CHR 0x89],
      [CHR 0xE2, CHR 0x80, CHR 0x8A], [CHR 0xE2, CHR 0x80, CHR 0xA8],
      [CHR 0xE2, CHR 0x80, CHR 0xA9], [CHR 0xE2, CHR 0x80, CHR 0xAF],
      [CHR 0xE2, CHR 0x81, CHR 0x9F], [CHR 0xE3, CHR 0x80, CHR 0x80]]"

definition is_ascii :: "char \<Rightarrow> bool" where
  "is_ascii c \<longleftrightarrow> of_char c < (128 :: nat)"

text \<open>The length of the white-space character at the front (at the end), 0 when there is none.\<close>

definition lead_space :: "string \<Rightarrow> nat" where
  "lead_space s =
     (case s of
        [] \<Rightarrow> 0
      | c # _ \<Rightarrow>
          if is_ascii c then (if ascii_space c then 1 else 0)
          else case find (HasPrefix s) wide_spaces of None \<Rightarrow> 0 | Some u \<Rightarrow> length u)"

definition trail_space :: "string \<Rightarrow> nat" where
  "trail_space s =
     (if s = [] then 0
      else if is_ascii (last s) then (if ascii_space (last s) then 1 else 0)
      else case find (HasSuffix s) wide_spaces of None \<Rightarrow> 0 | Some u \<Rightarrow> length u)"

lemma wide_space_length: "u \<in> set wide_spaces \<Longrightarrow> 0 < length u"
  by (auto simp: wide_spaces_def)

lemma lead_space_le: "lead_space s \<le> length s"
proof (cases "find (HasPrefix s) wide_spaces")
  case None
  then show ?thesis by (auto simp: lead_space_def split: list.splits)
next
  case (Some u)
  then have "HasPrefix s u" by (auto simp: find_Some_iff)
  then have "length u \<le> length s" by (auto simp: HasPrefix_iff)
  with Some show ?thesis by (auto simp: lead_space_def split: list.splits)
qed

lemma trail_space_le: "trail_space s \<le> length s"
proof (cases "find (HasSuffix s) wide_spaces")
  case None
  then show ?thesis by (auto simp: trail_space_def Suc_le_eq)
next
  case (Some u)
  then have "HasSuffix s u" by (auto simp: find_Some_iff)
  then have "length u \<le> length s" by (simp add: HasSuffix_def)
  with Some show ?thesis by (auto simp: trail_space_def Suc_le_eq)
qed

function trim_left :: "string \<Rightarrow> string" where
  "trim_left s = (if lead_space s = 0 then s else trim_left (drop (lead_space s) s))"
  by pat_completeness auto
termination
proof (relation "measure length")
  fix s :: string
  assume "lead_space s \<noteq> 0"
  with lead_space_le [of s] show "(drop (lead_space s) s, s) \<in> measure length" by auto
qed simp

function trim_right :: "string \<Rightarrow> string" where
  "trim_right s =
     (if trail_space s = 0 then s else trim_right (take (length s - trail_space s) s))"
  by pat_completeness auto
termination
proof (relation "measure length")
  fix s :: string
  assume "trail_space s \<noteq> 0"
  with trail_space_le [of s] show "(take (length s - trail_space s) s, s) \<in> measure length"
    by auto
qed simp

declare trim_left.simps [simp del] trim_right.simps [simp del]

definition TrimSpace :: "string \<Rightarrow> string" where
  "TrimSpace s = trim_right (trim_left s)"

text \<open>\<^verbatim>\<open>strings.Fields\<close>: white space is marked first, then the runs between marks are cut out.\<close>

function mark_spaces :: "string \<Rightarrow> char option list" where
  "mark_spaces [] = []"
| "mark_spaces (c # cs) =
     (if lead_space (c # cs) = 0 then Some c # mark_spaces cs
      else None # mark_spaces (drop (lead_space (c # cs) - 1) cs))"
  by pat_completeness auto
termination by (relation "measure length") auto

fun words_of :: "string \<Rightarrow> char option list \<Rightarrow> string list" where
  "words_of w [] = (if w = [] then [] else [rev w])"
| "words_of w (None # ms) = (if w = [] then words_of [] ms else rev w # words_of [] ms)"
| "words_of w (Some c # ms) = words_of (c # w) ms"

definition Fields :: "string \<Rightarrow> string list" where
  "Fields s = words_of [] (mark_spaces s)"

declare Fields_def [go_strings] lead_space_def [go_strings] is_ascii_def [go_strings]
  ascii_space_def [go_strings]

lemma words_of_nonempty: "w \<in> set (words_of acc ms) \<Longrightarrow> w \<noteq> []"
  by (induction acc ms rule: words_of.induct) (auto split: if_splits)

lemma Fields_nonempty: "w \<in> set (Fields s) \<Longrightarrow> w \<noteq> []"
  unfolding Fields_def by (rule words_of_nonempty)

definition plain_char :: "char \<Rightarrow> bool" where
  [go_strings]: "plain_char c \<longleftrightarrow> is_ascii c \<and> \<not> ascii_space c"

lemma mark_spaces_plain: "list_all plain_char w \<Longrightarrow> mark_spaces (w @ s) = map Some w @ mark_spaces s"
  by (induction w) (auto simp: lead_space_def plain_char_def)

lemma words_of_plain: "words_of acc (map Some w @ ms) = words_of (rev w @ acc) ms"
  by (induction w arbitrary: acc) auto

lemma Fields_Nil [simp]: "Fields [] = []"
  by (simp add: Fields_def)

lemma Fields_space: "Fields (CHR '' '' # s) = Fields s"
  by (simp add: Fields_def lead_space_def is_ascii_def ascii_space_def)

lemma Fields_word:
  "list_all plain_char w \<Longrightarrow> w \<noteq> [] \<Longrightarrow> Fields (w @ CHR '' '' # s) = w # Fields s"
  by (simp add: Fields_def mark_spaces_plain words_of_plain lead_space_def is_ascii_def
      ascii_space_def)

lemma Fields_last: "list_all plain_char w \<Longrightarrow> w \<noteq> [] \<Longrightarrow> Fields w = [w]"
  using mark_spaces_plain [of w "[]"] words_of_plain [of "[]" w "[]"] by (simp add: Fields_def)

text \<open>Words of plain characters survive a join with single spaces.\<close>

lemma Fields_Join:
  "\<forall>w \<in> set ws. list_all plain_char w \<and> w \<noteq> [] \<Longrightarrow> Fields (Join ws '' '') = ws"
proof (induction ws)
  case (Cons w ws)
  then show ?case by (cases ws) (auto simp: Fields_last Fields_word)
qed simp

end
