(* ===== verification/GoNumbers.thy ===== *)
theory GoNumbers
  imports GoStrings
begin

text \<open>
  Printing and parsing of numbers as \<^verbatim>\<open>fmt\<close>, \<^verbatim>\<open>strconv\<close> and \<^verbatim>\<open>encoding/hex\<close> do it, and
  \<^verbatim>\<open>filepath.Base\<close>. The printing and parsing functions are inverse to each other.
\<close>

section \<open>Digits\<close>

definition digit_char :: "nat \<Rightarrow> char" where
  "digit_char d = (if d < 10 then char_of (48 + d) else char_of (87 + d))"

text \<open>The value of a digit: \<^verbatim>\<open>0-9\<close>, then letters of either case.\<close>

definition digit_val :: "char \<Rightarrow> nat option" where
  "digit_val c =
     (let n = of_char c in
      if 48 \<le> n \<and> n \<le> 57 then Some (n - 48)
      else if 97 \<le> n \<and> n \<le> 122 then Some (n - 87)
      else if 65 \<le> n \<and> n \<le> 90 then Some (n - 55)
      else None)"

definition is_digit :: "nat \<Rightarrow> char \<Rightarrow> bool" where
  "is_digit base c \<longleftrightarrow> (case digit_val c of None \<Rightarrow> False | Some d \<Rightarrow> d < base)"

definition digit_of :: "char \<Rightarrow> nat" where
  "digit_of c = (case digit_val c of None \<Rightarrow> 0 | Some d \<Rightarrow> d)"

definition digits_val :: "nat \<Rightarrow> string \<Rightarrow> nat" where
  "digits_val base s = foldl (\<lambda>acc c. acc * base + digit_of c) 0 s"

fun show_base :: "nat \<Rightarrow> nat \<Rightarrow> string" where
  "show_base base n =
     (if base < 2 \<or> n < base then [digit_char n]
      else show_base base (n div base) @ [digit_char (n mod base)])"

declare show_base.simps [simp del]

text \<open>\<^verbatim>\<open>%d\<close> and \<^verbatim>\<open>%x\<close>.\<close>

definition dec :: "nat \<Rightarrow> string" where
  "dec n = show_base 10 n"

definition hex :: "nat \<Rightarrow> string" where
  "hex n = show_base 16 n"

definition dec_int :: "int \<Rightarrow> string" where
  "dec_int i = (if i < 0 then CHR ''-'' # dec (nat (- i)) else dec (nat i))"

lemma digit_char_lit [go_strings]:
  "digit_char 0 = CHR ''0''" "digit_char (Suc 0) = CHR ''1''" "digit_char 2 = CHR ''2''"
  "digit_char 3 = CHR ''3''" "digit_char 4 = CHR ''4''" "digit_char 5 = CHR ''5''"
  "digit_char 6 = CHR ''6''" "digit_char 7 = CHR ''7''" "digit_char 8 = CHR ''8''"
  "digit_char 9 = CHR ''9''" "digit_char 10 = CHR ''a''" "digit_char 11 = CHR ''b''"
  "digit_char 12 = CHR ''c''" "digit_char 13 = CHR ''d''" "digit_char 14 = CHR ''e''"
  "digit_char 15 = CHR ''f''"
  by (simp_all add: digit_char_def char_of_def bit_0)

declare dec_def [go_strings] hex_def [go_strings] show_base.simps [go_strings]
declare digit_val_def [go_strings]

lemma digit_val_char: "d < 16 \<Longrightarrow> digit_val (digit_char d) = Some d"
  by (auto simp: digit_val_def digit_char_def Let_def)

lemma is_digit_char: "d < base \<Longrightarrow> base \<le> 16 \<Longrightarrow> is_digit base (digit_char d)"
  by (simp add: is_digit_def digit_val_char)

lemma digit_of_char: "d < 16 \<Longrightarrow> digit_of (digit_char d) = d"
  by (simp add: digit_of_def digit_val_char)

lemma show_base_digits:
  "2 \<le> base \<Longrightarrow> base \<le> 16 \<Longrightarrow> list_all (is_digit base) (show_base base n)"
proof (induction base n rule: show_base.induct)
  case (1 base n)
  then show ?case
    by (subst show_base.simps) (auto simp: is_digit_char)
qed

lemma show_base_nonempty [simp]: "show_base base n \<noteq> []"
  by (subst show_base.simps) simp

lemma digits_val_snoc: "digits_val base (s @ [c]) = digits_val base s * base + digit_of c"
  by (simp add: digits_val_def)

lemma digits_val_show: "2 \<le> base \<Longrightarrow> base \<le> 16 \<Longrightarrow> digits_val base (show_base base n) = n"
proof (induction base n rule: show_base.induct)
  case (1 base n)
  show ?case
  proof (cases "n < base")
    case True
    with 1 show ?thesis
      by (subst show_base.simps) (simp add: digits_val_def digit_of_char)
  next
    case False
    with 1 have IH: "digits_val base (show_base base (n div base)) = n div base" by simp
    have "n mod base < 16" using 1(2,3) by (metis less_le_trans mod_less_divisor not_numeral_le_zero gr0I le_trans)
    with IH False 1(2,3) show ?thesis
      by (subst show_base.simps) (simp add: digits_val_snoc digit_of_char)
  qed
qed

section \<open>\<^verbatim>\<open>strconv\<close>\<close>

datatype num_error = ErrSyntax | ErrRange

text \<open>\<^verbatim>\<open>strconv.ParseUint(s, base, bits)\<close> for base 10 or 16.\<close>

definition ParseUint :: "nat \<Rightarrow> nat \<Rightarrow> string \<Rightarrow> num_error + nat" where
  "ParseUint base bits s =
     (if s = [] \<or> \<not> list_all (is_digit base) s then Inl ErrSyntax
      else if 2 ^ bits \<le> digits_val base s then Inl ErrRange
      else Inr (digits_val base s))"

lemma ParseUint_show:
  "2 \<le> base \<Longrightarrow> base \<le> 16 \<Longrightarrow> n < 2 ^ bits \<Longrightarrow> ParseUint base bits (show_base base n) = Inr n"
  by (simp add: ParseUint_def digits_val_show show_base_digits)

lemma ParseUint_bound: "ParseUint base bits s = Inr n \<Longrightarrow> n < 2 ^ bits"
  by (auto simp: ParseUint_def split: if_splits)

text \<open>
  \<^verbatim>\<open>strconv.Atoi\<close> and \<^verbatim>\<open>strconv.ParseInt(s, 10, 64)\<close>: an optional sign, then digits. The value
  is returned beside the error, as Go returns it: 0 after a syntax error, the nearest bound
  after a range error.
\<close>

definition sign_split :: "string \<Rightarrow> bool \<times> string" where
  "sign_split s =
     (case s of
        [] \<Rightarrow> (False, [])
      | c # cs \<Rightarrow> if c = CHR ''-'' then (True, cs)
                  else if c = CHR ''+'' then (False, cs) else (False, s))"

definition Atoi :: "string \<Rightarrow> int \<times> num_error option" where
  "Atoi s =
     (let (neg, ds) = sign_split s; n = int (digits_val 10 ds) in
      if ds = [] \<or> \<not> list_all (is_digit 10) ds then (0, Some ErrSyntax)
      else if neg then (if 2 ^ 63 < n then (- (2 ^ 63), Some ErrRange) else (- n, None))
      else (if 2 ^ 63 - 1 < n then (2 ^ 63 - 1, Some ErrRange) else (n, None)))"

lemma dec_not_sign: "dec n = c # cs \<Longrightarrow> c \<noteq> CHR ''-'' \<and> c \<noteq> CHR ''+''"
proof -
  assume "dec n = c # cs"
  then have "is_digit 10 c"
    using show_base_digits [of 10 n] by (simp add: dec_def)
  then show ?thesis by (auto simp: is_digit_def digit_val_def)
qed

lemma sign_split_dec: "sign_split (dec n) = (False, dec n)"
  using dec_not_sign [of n] by (auto simp: sign_split_def split: list.splits)

lemma dec_digits: "list_all (is_digit 10) (dec n)" "dec n \<noteq> []" "digits_val 10 (dec n) = n"
  by (simp_all add: dec_def show_base_digits digits_val_show)

lemma Atoi_dec_int: "- (2 ^ 63) \<le> i \<Longrightarrow> i < 2 ^ 63 \<Longrightarrow> Atoi (dec_int i) = (i, None)"
  using sign_split_dec [of "nat i"] sign_split_dec [of "nat (- i)"]
  by (cases "i < 0") (simp_all add: Atoi_def dec_int_def dec_digits sign_split_def)

text \<open>\<^verbatim>\<open>strconv.ParseBool\<close>; after an error the value is false.\<close>

definition ParseBool :: "string \<Rightarrow> bool \<times> num_error option" where
  "ParseBool s =
     (if s \<in> {''1'', ''t'', ''T'', ''true'', ''TRUE'', ''True''} then (True, None)
      else if s \<in> {''0'', ''f'', ''F'', ''false'', ''FALSE'', ''False''} then (False, None)
      else (False, Some ErrSyntax))"

definition FormatBool :: "bool \<Rightarrow> string" where
  "FormatBool b = (if b then ''true'' else ''false'')"

lemma ParseBool_FormatBool: "ParseBool (FormatBool b) = (b, None)"
  by (simp add: ParseBool_def FormatBool_def)

section \<open>\<^verbatim>\<open>fmt.Sscanf\<close>\<close>

text \<open>
  \<^verbatim>\<open>fmt.Sscanf(s, "%d", &v)\<close> (base 10) and \<^verbatim>\<open>"%X"\<close>, \<^verbatim>\<open>"%x"\<close> (base 16) into an unsigned variable
  of the given width that holds 0 before: the longest run of digits at the front is read;
  with no digit, or with a value too large for the variable, the variable keeps its 0. The
  sources scan pieces of \<^verbatim>\<open>strings.Fields\<close> only, so no white space has to be skipped.
\<close>

definition ScanUint :: "nat \<Rightarrow> nat \<Rightarrow> string \<Rightarrow> nat" where
  "ScanUint base bits s =
     (let ds = takeWhile (is_digit base) s; n = digits_val base ds in
      if ds = [] \<or> 2 ^ bits \<le> n then 0 else n)"

lemma ScanUint_bound: "ScanUint base bits s < 2 ^ bits"
  by (auto simp: ScanUint_def Let_def not_le)

lemma ScanUint_show:
  "2 \<le> base \<Longrightarrow> base \<le> 16 \<Longrightarrow> n < 2 ^ bits \<Longrightarrow> ScanUint base bits (show_base base n) = n"
proof -
  assume b: "2 \<le> base" "base \<le> 16" and n: "n < 2 ^ bits"
  have all: "takeWhile (is_digit base) (show_base base n) = show_base base n"
    using show_base_digits [OF b, of n] unfolding list_all_iff takeWhile_eq_all_conv .
  show ?thesis
    unfolding ScanUint_def Let_def all using b n by (simp add: digits_val_show)
qed

text \<open>Into a signed variable: an optional sign comes first.\<close>

definition ScanInt :: "nat \<Rightarrow> nat \<Rightarrow> string \<Rightarrow> int" where
  "ScanInt base bits s =
     (let (neg, t) = sign_split s; ds = takeWhile (is_digit base) t; n = int (digits_val base ds) in
      if ds = [] then 0
      else if neg then (if 2 ^ (bits - 1) < n then 0 else - n)
      else (if 2 ^ (bits - 1) \<le> n then 0 else n))"

text \<open>
  \<^verbatim>\<open>fmt.Sscanf(s, "%02x%02x...", ...)\<close> into bytes that hold 0 before: at most two digits each;
  the first byte without a digit ends the scan.
\<close>

fun ScanHexBytes :: "nat \<Rightarrow> string \<Rightarrow> nat list" where
  "ScanHexBytes 0 s = []"
| "ScanHexBytes (Suc n) s =
     (let ds = takeWhile (is_digit 16) (take 2 s) in
      if ds = [] then replicate (Suc n) 0
      else digits_val 16 ds # ScanHexBytes n (drop (length ds) s))"

section \<open>\<^verbatim>\<open>encoding/hex\<close>\<close>

fun hex_decode :: "string \<Rightarrow> string option" where
  "hex_decode [] = Some []"
| "hex_decode [c] = None"
| "hex_decode (c # d # s) =
     (if is_digit 16 c \<and> is_digit 16 d
      then map_option ((#) (char_of (16 * digit_of c + digit_of d))) (hex_decode s)
      else None)"

fun hex_encode :: "string \<Rightarrow> string" where
  "hex_encode [] = []"
| "hex_encode (c # s) =
     digit_char (of_char c div 16) # digit_char (of_char c mod 16) # hex_encode s"

lemma hex_decode_encode: "hex_decode (hex_encode s) = Some s"
proof (induction s)
  case (Cons c s)
  have "(of_char c :: nat) < 256" by simp
  then have "(of_char c :: nat) div 16 < 16" by linarith
  with Cons show ?case
    by (simp add: is_digit_char digit_of_char)
qed simp

lemma hex_decode_length: "hex_decode s = Some b \<Longrightarrow> length s = 2 * length b"
  by (induction s arbitrary: b rule: hex_decode.induct) (auto split: if_splits)

section \<open>\<^verbatim>\<open>filepath.Base\<close>\<close>

definition Base :: "string \<Rightarrow> string" where
  "Base path =
     (if path = [] then ''.''
      else let p = rev (dropWhile (\<lambda>c. c = CHR ''/'') (rev path));
               b = rev (takeWhile (\<lambda>c. c \<noteq> CHR ''/'') (rev p))
           in if b = [] then ''/'' else b)"

lemma Base_nonempty: "Base p \<noteq> []"
  by (simp add: Base_def Let_def)

lemma Base_no_slash: "Base p = ''/'' \<or> CHR ''/'' \<notin> set (Base p)"
  by (auto simp: Base_def Let_def dest: set_takeWhileD)

lemma Base_simple:
  "CHR ''/'' \<notin> set b \<Longrightarrow> b \<noteq> [] \<Longrightarrow> Base (d @ CHR ''/'' # b) = b"
proof -
  assume b: "CHR ''/'' \<notin> set b" "b \<noteq> []"
  then have "dropWhile (\<lambda>c. c = CHR ''/'') (rev (d @ CHR ''/'' # b)) = rev (d @ CHR ''/'' # b)"
    by (cases b rule: rev_cases) auto
  moreover have "takeWhile (\<lambda>c. c \<noteq> CHR ''/'') (rev b @ CHR ''/'' # rev d) = rev b"
    using b(1) by (subst takeWhile_append2) auto
  ultimately show ?thesis using b(2) by (simp add: Base_def Let_def)
qed

section \<open>\<^verbatim>\<open>filepath.Clean\<close> and \<^verbatim>\<open>filepath.Join\<close>\<close>

definition clean_step :: "bool \<Rightarrow> string list \<Rightarrow> string \<Rightarrow> string list" where
  "clean_step rooted out c =
     (if c = [] \<or> c = ''.'' then out
      else if c = ''..'' then
        (if out \<noteq> [] \<and> last out \<noteq> ''..'' then butlast out
         else if rooted then out else out @ [''..''])
      else out @ [c])"

definition PathClean :: "string \<Rightarrow> string" where
  "PathClean path =
     (let rooted = HasPrefix path ''/'';
          out = foldl (clean_step rooted) [] (split_byte (CHR ''/'') path);
          s = (if rooted then ''/'' else []) @ Join out ''/''
      in if s = [] then ''.'' else s)"

definition PathJoin :: "string list \<Rightarrow> string" where
  "PathJoin elems =
     (let es = dropWhile (\<lambda>e. e = []) elems in
      if es = [] then [] else PathClean (Join es ''/''))"

end
