(* ===== verification/Observer.thy ===== *)
theory Observer
  imports GoNumbers
begin

text \<open>
  The kernel-event observer (\<^verbatim>\<open>observer/types.go\<close>, \<^verbatim>\<open>observer/daemon.go\<close>): the \<^verbatim>\<open>Event\<close> that the
  eBPF programs put on the ring buffer, its decoding with \<^verbatim>\<open>binary.Read\<close> in little-endian
  order, the string accessors, and \<^verbatim>\<open>Run\<close>: its setup steps with their early error returns and
  deferred closes, and its read loop. The eBPF loader, the tracepoint links and the ring buffer
  are a library; the outcome of each call on them is an argument of the model.
\<close>

section \<open>Events\<close>

datatype EventKind = EventExec | EventOpen | EventExit | EventConnect | EventOther u8

definition kind_of_byte :: "u8 \<Rightarrow> EventKind" where
  "kind_of_byte b =
     (if b = 0 then EventExec else if b = 1 then EventOpen else if b = 2 then EventExit
      else if b = 3 then EventConnect else EventOther b)"

fun byte_of_kind :: "EventKind \<Rightarrow> u8" where
  "byte_of_kind EventExec = 0"
| "byte_of_kind EventOpen = 1"
| "byte_of_kind EventExit = 2"
| "byte_of_kind EventConnect = 3"
| "byte_of_kind (EventOther b) = b"

definition kind_ok :: "EventKind \<Rightarrow> bool" where
  "kind_ok k \<longleftrightarrow> kind_of_byte (byte_of_kind k) = k"

record Event =
  Ts :: u64
  Pid :: u32
  Uid :: u32
  Type :: EventKind
  CommBuf :: string
  PathBuf :: string
  EvFamily :: u16
  EvPort :: u16
  IPv4Remote :: u32
  IPv6Remote :: string

definition CommStr :: "Event \<Rightarrow> string" where
  "CommStr e = TrimRightNul (CommBuf e)"

definition PathStr :: "Event \<Rightarrow> string" where
  "PathStr e = TrimRightNul (PathBuf e)"

fun KindStr :: "EventKind \<Rightarrow> string" where
  "KindStr EventExec = ''exec''"
| "KindStr EventOpen = ''open''"
| "KindStr EventExit = ''exit''"
| "KindStr EventConnect = ''connect''"
| "KindStr (EventOther b) = ''unknown''"

section \<open>The wire format\<close>

text \<open>Little-endian integers of \<open>n\<close> bytes.\<close>

fun le_bytes :: "nat \<Rightarrow> nat \<Rightarrow> string" where
  "le_bytes 0 v = []"
| "le_bytes (Suc n) v = char_of (v mod 256) # le_bytes n (v div 256)"

fun le_val :: "string \<Rightarrow> nat" where
  "le_val [] = 0"
| "le_val (c # cs) = of_char c + 256 * le_val cs"

lemma length_le_bytes [simp]: "length (le_bytes n v) = n"
  by (induction n arbitrary: v) auto

lemma le_bytes_Nil [simp]: "le_bytes n v = [] \<longleftrightarrow> n = 0"
  by (cases n) auto

lemma le_val_bytes: "v < 256 ^ n \<Longrightarrow> le_val (le_bytes n v) = v"
proof (induction n arbitrary: v)
  case (Suc n)
  then have "v div 256 < 256 ^ n" by (simp add: less_mult_imp_div_less mult.commute)
  with Suc.IH show ?case by simp
qed simp

text \<open>
  The packed C struct: 8 + 4 + 4 + 1 + 16 + 256 + 2 + 2 + 4 + 16 = 313 bytes. \<^verbatim>\<open>binary.Read\<close>
  fails on a shorter sample and ignores what follows the 313 bytes of a longer one.
\<close>

definition event_size :: nat where "event_size = 313"

definition field_at :: "nat \<Rightarrow> nat \<Rightarrow> string \<Rightarrow> string" where
  "field_at off n s = take n (drop off s)"

definition decode_event :: "string \<Rightarrow> Event option" where
  "decode_event s =
     (if length s < event_size then None
      else Some \<lparr>Ts = of_nat (le_val (field_at 0 8 s)), Pid = of_nat (le_val (field_at 8 4 s)),
                 Uid = of_nat (le_val (field_at 12 4 s)),
                 Type = kind_of_byte (of_nat (le_val (field_at 16 1 s))),
                 CommBuf = field_at 17 16 s, PathBuf = field_at 33 256 s,
                 EvFamily = of_nat (le_val (field_at 289 2 s)),
                 EvPort = of_nat (le_val (field_at 291 2 s)),
                 IPv4Remote = of_nat (le_val (field_at 293 4 s)),
                 IPv6Remote = field_at 297 16 s\<rparr>)"

definition encode_event :: "Event \<Rightarrow> string" where
  "encode_event e =
     le_bytes 8 (unat (Ts e)) @ le_bytes 4 (unat (Pid e)) @ le_bytes 4 (unat (Uid e))
     @ le_bytes 1 (unat (byte_of_kind (Type e))) @ CommBuf e @ PathBuf e
     @ le_bytes 2 (unat (EvFamily e)) @ le_bytes 2 (unat (EvPort e))
     @ le_bytes 4 (unat (IPv4Remote e)) @ IPv6Remote e"

definition event_ok :: "Event \<Rightarrow> bool" where
  "event_ok e \<longleftrightarrow> length (CommBuf e) = 16 \<and> length (PathBuf e) = 256
     \<and> length (IPv6Remote e) = 16 \<and> kind_ok (Type e)"

lemma field_at_append_skip:
  "length u \<le> off \<Longrightarrow> field_at off n (u @ v) = field_at (off - length u) n v"
  by (simp add: field_at_def)

lemma field_at_append_here: "length u = n \<Longrightarrow> field_at 0 n (u @ v) = u"
  by (simp add: field_at_def)

lemma field_at_all: "length u = n \<Longrightarrow> field_at 0 n u = u"
  by (simp add: field_at_def)

lemma le_word:
  fixes w :: "'a::len word"
  assumes "256 ^ n = (2 :: nat) ^ LENGTH('a)"
  shows "le_val (le_bytes n (unat w)) = unat w"
proof (rule le_val_bytes)
  have "unat w < 2 ^ LENGTH('a)" by (rule unsigned_less)
  with assms show "unat w < 256 ^ n" by simp
qed

lemmas event_fields = field_at_append_skip field_at_append_here field_at_all

lemma le_u64: "le_val (le_bytes 8 (unat (w :: u64))) = unat w" by (rule le_word) simp
lemma le_u32: "le_val (le_bytes 4 (unat (w :: u32))) = unat w" by (rule le_word) simp
lemma le_u16: "le_val (le_bytes 2 (unat (w :: u16))) = unat w" by (rule le_word) simp
lemma le_u8: "le_val (le_bytes (Suc 0) (unat (w :: u8))) = unat w" by (rule le_word) simp

lemma decode_encode_event:
  assumes "event_ok e"
  shows "decode_event (encode_event e @ pad) = Some e"
proof -
  from assms have len: "length (CommBuf e) = 16" "length (PathBuf e) = 256"
      "length (IPv6Remote e) = 16" and k: "kind_of_byte (byte_of_kind (Type e)) = Type e"
    by (simp_all add: event_ok_def kind_ok_def)
  have "length (encode_event e @ pad) = event_size + length pad"
    by (simp add: encode_event_def event_size_def len)
  then show ?thesis
    by (simp add: decode_event_def encode_event_def event_fields len k le_u64 le_u32 le_u16
        le_u8 del: le_bytes.simps)
qed

section \<open>\<^verbatim>\<open>Run\<close>\<close>

text \<open>
  The setup: each call of the loader either works or fails with a message. \<open>fails step\<close> is the
  message of a failing step. The steps that acquire something to close are followed by a
  \<^verbatim>\<open>defer x.Close()\<close>, so whatever return is taken they are closed in reverse order.
\<close>

datatype run_step =
  RemoveMemlock | LoadSpec | SetSelfPid | FindSelfPidVar | LoadObjects
| AttachExecve | AttachOpenat | AttachExit | AttachConnect | OpenRingBuffer

definition quoted :: "string \<Rightarrow> string" where
  "quoted s = [CHR 0x27] @ s @ [CHR 0x27]"

fun step_error :: "run_step \<Rightarrow> string \<Rightarrow> string" where
  "step_error RemoveMemlock m = ''remove memlock rlimit: '' @ m"
| "step_error LoadSpec m = ''load bpf spec: '' @ m"
| "step_error FindSelfPidVar m = ''BPF variable '' @ quoted ''godshell_pid'' @ '' not found in spec''"
| "step_error SetSelfPid m = ''set godshell_pid: '' @ m"
| "step_error LoadObjects m = ''load bpf objects: '' @ m"
| "step_error AttachExecve m = ''attach sys_enter_execve: '' @ m"
| "step_error AttachOpenat m = ''attach sys_enter_openat: '' @ m"
| "step_error AttachExit m = ''attach sched_process_exit: '' @ m"
| "step_error AttachConnect m = ''attach sys_enter_connect: '' @ m"
| "step_error OpenRingBuffer m = ''open ring buffer reader: '' @ m"

definition run_steps :: "run_step list" where
  "run_steps = [RemoveMemlock, LoadSpec, FindSelfPidVar, SetSelfPid, LoadObjects, AttachExecve,
     AttachOpenat, AttachExit, AttachConnect, OpenRingBuffer]"

definition acquires :: "run_step \<Rightarrow> bool" where
  "acquires s \<longleftrightarrow> s \<in> {LoadObjects, AttachExecve, AttachOpenat, AttachExit, AttachConnect,
     OpenRingBuffer}"

fun run_setup :: "(run_step \<Rightarrow> string option) \<Rightarrow> run_step list \<Rightarrow> run_step list
    \<Rightarrow> string option \<times> run_step list" where
  "run_setup fails opened [] = (None, opened)"
| "run_setup fails opened (s # ss) =
     (case fails s of
        Some m \<Rightarrow> (Some (step_error s m), opened)
      | None \<Rightarrow> run_setup fails (if acquires s then s # opened else opened) ss)"

text \<open>
  The read loop over what \<^verbatim>\<open>rd.Read()\<close> returns in turn: a sample, or an error. The second
  component of each entry says whether the context was cancelled by then (for a sample: whether
  the \<^verbatim>\<open>select\<close> took its \<^verbatim>\<open>ctx.Done()\<close> branch). An undecodable sample is logged and skipped.
  The result is the events sent and the returned error; \<open>None\<close> in the first component means
  the loop is still waiting for the next sample.
\<close>

datatype ring_read = Sample string | ReadError string

fun read_loop :: "(ring_read \<times> bool) list \<Rightarrow> (string option) option \<times> Event list" where
  "read_loop [] = (None, [])"
| "read_loop ((ReadError m, cancelled) # rs) =
     (Some (if cancelled then None else Some (''ring buffer read: '' @ m)), [])"
| "read_loop ((Sample raw, cancelled) # rs) =
     (case decode_event raw of
        None \<Rightarrow> read_loop rs
      | Some e \<Rightarrow>
          if cancelled then (Some None, [])
          else let (r, es) = read_loop rs in (r, e # es))"

record run_result =
  run_error :: "(string option) option"
  run_events :: "Event list"
  run_opened :: "run_step list"
  run_closed :: "run_step list"

definition Run :: "(run_step \<Rightarrow> string option) \<Rightarrow> (ring_read \<times> bool) list \<Rightarrow> run_result" where
  "Run fails reads =
     (case run_setup fails [] run_steps of
        (Some err, opened) \<Rightarrow>
          \<lparr>run_error = Some (Some err), run_events = [], run_opened = rev opened,
           run_closed = opened\<rparr>
      | (None, opened) \<Rightarrow>
          (let (r, es) = read_loop reads in
           \<lparr>run_error = r, run_events = es, run_opened = rev opened,
            run_closed = (if r = None then [] else opened)\<rparr>))"

lemma read_loop_sent:
  "read_loop rs = (r, es) \<Longrightarrow> set es \<subseteq> {e. \<exists>raw. decode_event raw = Some e \<and> (\<exists>c. (Sample raw, c) \<in> set rs)}"
proof (induction rs arbitrary: r es rule: read_loop.induct)
  case (3 raw cancelled rs)
  then show ?case
    by (auto split: option.splits if_splits prod.splits) blast+
qed auto

lemma read_loop_all_samples:
  "\<forall>x \<in> set rs. \<exists>raw e. x = (Sample raw, False) \<and> decode_event raw = Some e \<Longrightarrow>
   read_loop rs = (None, map (\<lambda>x. case x of (Sample raw, c) \<Rightarrow> the (decode_event raw)) rs)"
proof (induction rs)
  case (Cons x rs)
  then obtain raw e where "x = (Sample raw, False)" "decode_event raw = Some e" by auto
  with Cons show ?case by simp
qed simp

text \<open>C19: what the kernel packs into the ring buffer is what the handlers see.\<close>

theorem observer_delivers_encoded_events:
  assumes "\<forall>s \<in> set run_steps. fails s = None" and "\<forall>e \<in> set es. event_ok e"
  shows "run_events (Run fails (map (\<lambda>e. (Sample (encode_event e), False)) es)) = es"
proof -
  have opens: "\<exists>opened. run_setup fails acc ss = (None, opened)" if "\<forall>s \<in> set ss. fails s = None"
    for acc ss using that by (induction ss arbitrary: acc) auto
  have dec: "decode_event (encode_event e) = Some e" if "event_ok e" for e
    using decode_encode_event [OF that, of "[]"] by simp
  have "read_loop (map (\<lambda>e. (Sample (encode_event e), False)) es) = (None, es)"
    using assms(2) by (induction es) (auto simp: dec)
  with opens [OF assms(1), of "[]"] show ?thesis by (auto simp: Run_def)
qed

definition sample_event :: "EventKind \<Rightarrow> u32 \<Rightarrow> string \<Rightarrow> Event" where
  "sample_event k pid path =
     \<lparr>Ts = 7, Pid = pid, Uid = 1000, Type = k, CommBuf = ''sh'' @ replicate 14 (CHR 0x00),
      PathBuf = path @ replicate (256 - length path) (CHR 0x00), EvFamily = 2, EvPort = 443,
      IPv4Remote = 16909060, IPv6Remote = replicate 16 (CHR 0x00)\<rparr>"

lemma sample_event_ok: "kind_ok k \<Longrightarrow> length path \<le> 256 \<Longrightarrow> event_ok (sample_event k pid path)"
  by (simp add: event_ok_def sample_event_def)

lemma sample_event_fields [simp]:
  "Pid (sample_event k pid path) = pid" "Type (sample_event k pid path) = k"
  by (simp_all add: sample_event_def)

lemma sample_event_strings [simp]:
  "CommStr (sample_event k pid path) = ''sh''"
  "path = [] \<or> last path \<noteq> CHR 0x00 \<Longrightarrow> PathStr (sample_event k pid path) = path"
proof -
  have "TrimRightNul (''sh'' @ replicate 14 (CHR 0x00)) = ''sh''" by (rule TrimRightNul_pad) simp
  then show "CommStr (sample_event k pid path) = ''sh''"
    unfolding CommStr_def sample_event_def by simp
  show "path = [] \<or> last path \<noteq> CHR 0x00 \<Longrightarrow> PathStr (sample_event k pid path) = path"
    unfolding PathStr_def sample_event_def by (simp add: TrimRightNul_pad del: replicate.simps)
qed

lemma observer_delivers_encoded_events_witness:
  "run_events (Run (\<lambda>s. None)
     (map (\<lambda>e. (Sample (encode_event e), False)) [sample_event EventExec 42 ''/bin/sh'']))
   = [sample_event EventExec 42 ''/bin/sh'']"
  by (rule observer_delivers_encoded_events)
    (simp_all add: sample_event_ok kind_ok_def kind_of_byte_def)

end
