(* ===== verification/GoUtf8.thy ===== *)
theory GoUtf8
  imports GoNumbers
begin

text \<open>
  UTF-8 as Go decodes it: the width of the character at the front of a byte string, the number
  of characters, \<^verbatim>\<open>fmt\<close>'s padding to a width in characters, and the replacement of invalid
  bytes that \<^verbatim>\<open>encoding/json\<close> performs on every string it writes. Also the few non-ASCII
  literals of the sources, spelled in bytes.
\<close>

definition byte_in :: "nat \<Rightarrow> nat \<Rightarrow> char \<Rightarrow> bool" where
  "byte_in lo hi c \<longleftrightarrow> lo \<le> of_char c \<and> of_char c \<le> hi"

abbreviation cont_byte :: "char \<Rightarrow> bool" where
  "cont_byte \<equiv> byte_in 128 191"

text \<open>The width of the valid encoding at the front, or 0 when there is none.\<close>

definition rune_width :: "string \<Rightarrow> nat" where
  "rune_width s =
     (case s of
        [] \<Rightarrow> 0
      | c # r \<Rightarrow>
          (let w2 = (case r of b # _ \<Rightarrow> cont_byte b | _ \<Rightarrow> False);
               w3 = (\<lambda>lo hi. case r of b # d # _ \<Rightarrow> byte_in lo hi b \<and> cont_byte d | _ \<Rightarrow> False);
               w4 = (\<lambda>lo hi. case r of b # d # f # _ \<Rightarrow> byte_in lo hi b \<and> cont_byte d \<and> cont_byte f
                                      | _ \<Rightarrow> False)
           in if is_ascii c then 1
              else if byte_in 194 223 c then (if w2 then 2 else 0)
              else if byte_in 224 224 c then (if w3 160 191 then 3 else 0)
              else if byte_in 237 237 c then (if w3 128 159 then 3 else 0)
              else if byte_in 225 239 c then (if w3 128 191 then 3 else 0)
              else if byte_in 240 240 c then (if w4 144 191 then 4 else 0)
              else if byte_in 241 243 c then (if w4 128 191 then 4 else 0)
              else if byte_in 244 244 c then (if w4 128 143 then 4 else 0)
              else 0))"

function rune_count :: "string \<Rightarrow> nat" where
  "rune_count [] = 0"
| "rune_count (c # s) = Suc (rune_count (drop (rune_width (c # s) - 1) s))"
  by pat_completeness auto
termination by (relation "measure length") auto

definition replacement :: string where
  "replacement = [CHR 0xEF, CHR 0xBF, CHR 0xBD]"

text \<open>\<^verbatim>\<open>strings.ToValidUTF8\<close> as the JSON encoder does it: each invalid byte becomes U+FFFD.\<close>

function to_valid :: "string \<Rightarrow> string" where
  "to_valid [] = []"
| "to_valid (c # s) =
     (let w = rune_width (c # s) in
      if w = 0 then replacement @ to_valid s
      else take w (c # s) @ to_valid (drop (w - 1) s))"
  by pat_completeness auto
termination by (relation "measure length") auto

function utf8_valid :: "string \<Rightarrow> bool" where
  "utf8_valid [] \<longleftrightarrow> True"
| "utf8_valid (c # s) \<longleftrightarrow>
     rune_width (c # s) \<noteq> 0 \<and> utf8_valid (drop (rune_width (c # s) - 1) s)"
  by pat_completeness auto
termination by (relation "measure length") auto

lemma to_valid_id: "utf8_valid s \<Longrightarrow> to_valid s = s"
proof (induction s rule: utf8_valid.induct)
  case (2 c s)
  obtain n where w: "rune_width (c # s) = Suc n"
    using "2.prems" by (cases "rune_width (c # s)") auto
  have "take (Suc n) (c # s) @ drop n s = c # s" by simp
  with 2 w show ?case by (simp add: Let_def)
qed simp

lemma utf8_valid_ascii: "list_all is_ascii s \<Longrightarrow> utf8_valid s"
  by (induction s) (auto simp: rune_width_def)

text \<open>\<^verbatim>\<open>%-ns\<close>: padding on the right to \<open>n\<close> characters.\<close>

definition pad_right :: "nat \<Rightarrow> string \<Rightarrow> string" where
  "pad_right n s = s @ replicate (n - rune_count s) (CHR '' '')"

lemma rune_count_ascii: "list_all is_ascii s \<Longrightarrow> rune_count s = length s"
  by (induction s) (auto simp: rune_width_def)

definition ellipsis :: string where "ellipsis = [CHR 0xE2, CHR 0x80, CHR 0xA6]"
definition middle_dot :: string where "middle_dot = [CHR 0xC2, CHR 0xB7]"
definition times_sign :: string where "times_sign = [CHR 0xC3, CHR 0x97]"
definition em_dash :: string where "em_dash = [CHR 0xE2, CHR 0x80, CHR 0x94]"
definition warning_sign :: string where "warning_sign = [CHR 0xE2, CHR 0x9A, CHR 0xA0]"
definition right_arrow :: string where "right_arrow = [CHR 0xE2, CHR 0x86, CHR 0x92]"
definition box_h :: string where "box_h = [CHR 0xE2, CHR 0x94, CHR 0x80]"
definition box_v :: string where "box_v = [CHR 0xE2, CHR 0x94, CHR 0x82]"
definition box_tee :: string where
  "box_tee = [CHR 0xE2, CHR 0x94, CHR 0x9C] @ box_h @ box_h"
definition box_corner :: string where
  "box_corner = [CHR 0xE2, CHR 0x94, CHR 0x94] @ box_h @ box_h"

end
