(* ===== verification/ProcTree.thy ===== *)
theory ProcTree
  imports Observer GoUtf8
begin

text \<open>
  The data model of the context engine (\<^verbatim>\<open>context/tree.go\<close>): effects, processes, the process
  tree, deep copies, and the JSON form in which snapshots travel. Pointers to processes and
  effects are owned by exactly one map entry, so a map holds the values themselves and a write
  through a pointer is an update of its entry.
\<close>

section \<open>Effects\<close>

datatype EffectKind = EffectOpen | EffectConnect | EffectKindOther u8

definition effect_kind_of :: "nat \<Rightarrow> EffectKind" where
  "effect_kind_of n =
     (if n = 0 then EffectOpen else if n = 1 then EffectConnect else EffectKindOther (of_nat n))"

fun effect_kind_num :: "EffectKind \<Rightarrow> nat" where
  "effect_kind_num EffectOpen = 0"
| "effect_kind_num EffectConnect = 1"
| "effect_kind_num (EffectKindOther b) = unat b"

record ConnectDetail =
  IP :: string
  Port :: u16
  Domain :: string
  BytesSent :: u64
  BytesRecv :: u64
  Family :: u16
  UnixSocket :: string

definition emptyConnect :: ConnectDetail where
  "emptyConnect = \<lparr>IP = [], Port = 0, Domain = [], BytesSent = 0, BytesRecv = 0, Family = 0,
     UnixSocket = []\<rparr>"

datatype EffectDetail = OpenDetail int | ConnDetail ConnectDetail

record Effect =
  Kind :: EffectKind
  Target :: string
  Count :: u64
  First :: gotime
  Last :: gotime
  Detail :: "EffectDetail option"

section \<open>Processes and the tree\<close>

record ProcessNode =
  PID :: u32
  PPID :: u32
  BinaryPath :: string
  Comm :: string
  Effects :: "(string, Effect) gomap"
  StartTimestamp :: gotime
  EndTimestamp :: gotime
  ChildrenPID :: "u32 list"
  CpuUsage :: float64
  MemoryUsage :: u64
  IsEnriched :: bool

definition newNode :: "u32 \<Rightarrow> string \<Rightarrow> string \<Rightarrow> gotime \<Rightarrow> ProcessNode" where
  "newNode pid bin comm start =
     \<lparr>PID = pid, PPID = 0, BinaryPath = bin, Comm = comm, Effects = [],
      StartTimestamp = start, EndTimestamp = zeroTime, ChildrenPID = [], CpuUsage = 0,
      MemoryUsage = 0, IsEnriched = False\<rparr>"

record ProcessTree =
  ByPID :: "(u32, ProcessNode) gomap"
  Ghosts :: "(u32, ProcessNode) gomap"
  MaxEffectsPerProcess :: int
  CaptureNetwork :: bool
  CaptureFileIO :: bool
  IgnoredProcesses :: "(string, unit) gomap"
  ProcPath :: string
  SysPath :: string
  StracePath :: string

section \<open>Deep copies\<close>

text \<open>
  \<^verbatim>\<open>Clone\<close> copies a node and, when its map and its slice are not nil, everything they hold. The
  option is the nil pointer.
\<close>

definition Effect_Clone :: "Effect option \<Rightarrow> Effect option" where
  "Effect_Clone e = (case e of None \<Rightarrow> None | Some eff \<Rightarrow> Some eff)"

definition Node_Clone :: "ProcessNode option \<Rightarrow> ProcessNode option" where
  "Node_Clone n =
     (case n of
        None \<Rightarrow> None
      | Some p \<Rightarrow>
          Some (p\<lparr>Effects := fold (\<lambda>(k, v) m. go_put k (the (Effect_Clone (Some v))) m) (Effects p) [],
                 ChildrenPID := map (\<lambda>c. c) (ChildrenPID p)\<rparr>))"

lemma fold_put_fresh:
  "distinct (map fst m @ map fst acc) \<Longrightarrow>
   fold (\<lambda>(k, v). go_put k v) m acc = acc @ m"
proof (induction m arbitrary: acc)
  case (Cons x m)
  obtain k v where x: "x = (k, v)" by (cases x)
  have "go_put k v acc = acc @ [(k, v)]"
  proof -
    have "k \<notin> set (map fst acc)" using Cons.prems x by auto
    then show ?thesis by (induction acc) auto
  qed
  moreover have "distinct (map fst m @ map fst (acc @ [(k, v)]))"
    using Cons.prems x by auto
  ultimately show ?case using Cons.IH x by simp
qed simp

lemma Node_Clone_id: "wf_map (Effects p) \<Longrightarrow> Node_Clone (Some p) = Some p"
  by (simp add: Node_Clone_def Effect_Clone_def wf_map_def fold_put_fresh)

section \<open>The JSON form\<close>

text \<open>
  JSON values; a time is one RFC 3339 string, kept as the instant it names. The encoder writes
  every string with invalid UTF-8 replaced (\<open>to_valid\<close>). Field lookup, number ranges and the
  treatment of missing and null fields follow \<^verbatim>\<open>encoding/json\<close>.
\<close>

datatype json =
  JNull | JBool bool | JNum rat | JStr string | JTime gotime
| JArr "json list" | JObj "(string \<times> json) list"

definition jnat :: "nat \<Rightarrow> json" where "jnat n = JNum (of_nat n)"
definition jint :: "int \<Rightarrow> json" where "jint n = JNum (of_int n)"
definition jstr :: "string \<Rightarrow> json" where "jstr s = JStr (to_valid s)"

fun json_fields :: "json \<Rightarrow> (string \<times> json) list option" where
  "json_fields (JObj fs) = Some fs"
| "json_fields JNull = Some []"
| "json_fields _ = None"

text \<open>A field that is missing or null leaves the zero value; another JSON type is an error.\<close>

definition get_field :: "(json \<Rightarrow> 'a option) \<Rightarrow> 'a \<Rightarrow> (string \<times> json) list \<Rightarrow> string \<Rightarrow> 'a option" where
  "get_field conv zero fs name =
     (case map_of fs name of
        None \<Rightarrow> Some zero
      | Some JNull \<Rightarrow> Some zero
      | Some j \<Rightarrow> conv j)"

fun as_nat :: "nat \<Rightarrow> json \<Rightarrow> nat option" where
  "as_nat bits (JNum r) =
     (if r = of_int \<lfloor>r\<rfloor> \<and> 0 \<le> \<lfloor>r\<rfloor> \<and> \<lfloor>r\<rfloor> < 2 ^ bits then Some (nat \<lfloor>r\<rfloor>) else None)"
| "as_nat bits _ = None"

fun as_int :: "json \<Rightarrow> int option" where
  "as_int (JNum r) =
     (if r = of_int \<lfloor>r\<rfloor> \<and> - (2 ^ 63) \<le> \<lfloor>r\<rfloor> \<and> \<lfloor>r\<rfloor> < 2 ^ 63 then Some \<lfloor>r\<rfloor> else None)"
| "as_int _ = None"

fun as_float :: "json \<Rightarrow> float64 option" where
  "as_float (JNum r) = Some r"
| "as_float _ = None"

fun as_string :: "json \<Rightarrow> string option" where
  "as_string (JStr s) = Some s"
| "as_string _ = None"

fun as_bool :: "json \<Rightarrow> bool option" where
  "as_bool (JBool b) = Some b"
| "as_bool _ = None"

fun as_time :: "json \<Rightarrow> gotime option" where
  "as_time (JTime t) = Some t"
| "as_time _ = None"

lemma as_nat_jnat [simp]: "n < 2 ^ bits \<Longrightarrow> as_nat bits (jnat n) = Some n"
proof -
  assume "n < 2 ^ bits"
  then have "int n < 2 ^ bits" by (metis of_nat_less_iff of_nat_numeral of_nat_power)
  then show ?thesis by (simp add: jnat_def)
qed

lemma as_int_jint [simp]: "- (2 ^ 63) \<le> n \<Longrightarrow> n < 2 ^ 63 \<Longrightarrow> as_int (jint n) = Some n"
  by (simp add: jint_def)

fun detail_json :: "EffectDetail option \<Rightarrow> json" where
  "detail_json None = JNull"
| "detail_json (Some (OpenDetail f)) = JObj [(''Flags'', jint f)]"
| "detail_json (Some (ConnDetail d)) =
     JObj [(''IP'', jstr (IP d)), (''Port'', jnat (unat (Port d))), (''Domain'', jstr (Domain d)),
           (''BytesSent'', jnat (unat (BytesSent d))), (''BytesRecv'', jnat (unat (BytesRecv d))),
           (''Family'', jnat (unat (Family d))), (''UnixSocket'', jstr (UnixSocket d))]"

definition effect_json :: "Effect \<Rightarrow> json" where
  "effect_json e =
     JObj [(''Kind'', jnat (effect_kind_num (Kind e))), (''Target'', jstr (Target e)),
           (''Count'', jnat (unat (Count e))), (''First'', JTime (First e)),
           (''Last'', JTime (Last e)), (''Detail'', detail_json (Detail e))]"

definition unmarshal_open :: "json \<Rightarrow> EffectDetail option" where
  "unmarshal_open j =
     Option.bind (json_fields j) (\<lambda>fs.
     Option.bind (get_field as_int 0 fs ''Flags'') (\<lambda>f. Some (OpenDetail f)))"

definition unmarshal_connect :: "json \<Rightarrow> EffectDetail option" where
  "unmarshal_connect j =
     Option.bind (json_fields j) (\<lambda>fs.
     Option.bind (get_field as_string [] fs ''IP'') (\<lambda>ip.
     Option.bind (get_field (as_nat 16) 0 fs ''Port'') (\<lambda>port.
     Option.bind (get_field as_string [] fs ''Domain'') (\<lambda>dom.
     Option.bind (get_field (as_nat 64) 0 fs ''BytesSent'') (\<lambda>tx.
     Option.bind (get_field (as_nat 64) 0 fs ''BytesRecv'') (\<lambda>rx.
     Option.bind (get_field (as_nat 16) 0 fs ''Family'') (\<lambda>fam.
     Option.bind (get_field as_string [] fs ''UnixSocket'') (\<lambda>un.
     Some (ConnDetail \<lparr>IP = ip, Port = of_nat port, Domain = dom, BytesSent = of_nat tx,
       BytesRecv = of_nat rx, Family = of_nat fam, UnixSocket = un\<rparr>)))))))))"

text \<open>
  \<^verbatim>\<open>Effect.UnmarshalJSON\<close>: the raw fields first, then the detail in the type that the kind
  selects; for any other kind the detail stays nil.
\<close>

definition UnmarshalEffect :: "json \<Rightarrow> Effect option" where
  "UnmarshalEffect j =
     Option.bind (json_fields j) (\<lambda>fs.
     Option.bind (get_field (as_nat 8) 0 fs ''Kind'') (\<lambda>k.
     Option.bind (get_field as_string [] fs ''Target'') (\<lambda>tgt.
     Option.bind (get_field (as_nat 64) 0 fs ''Count'') (\<lambda>n.
     Option.bind (get_field as_time zeroTime fs ''First'') (\<lambda>first.
     Option.bind (get_field as_time zeroTime fs ''Last'') (\<lambda>lst.
     let raw = map_of fs ''Detail'';
         e = \<lparr>Kind = effect_kind_of k, Target = tgt, Count = of_nat n, First = first,
              Last = lst, Detail = None\<rparr>
     in case raw of
          None \<Rightarrow> Some e
        | Some JNull \<Rightarrow> Some e
        | Some d \<Rightarrow>
            (case Kind e of
               EffectOpen \<Rightarrow> Option.bind (unmarshal_open d) (\<lambda>det. Some (e\<lparr>Detail := Some det\<rparr>))
             | EffectConnect \<Rightarrow> Option.bind (unmarshal_connect d) (\<lambda>det. Some (e\<lparr>Detail := Some det\<rparr>))
             | EffectKindOther _ \<Rightarrow> Some e)))))))"

text \<open>What the handlers build: the detail has the type of the kind, strings are UTF-8.\<close>

definition detail_ok :: "Effect \<Rightarrow> bool" where
  "detail_ok e \<longleftrightarrow>
     (case Kind e of
        EffectOpen \<Rightarrow> (case Detail e of Some (OpenDetail f) \<Rightarrow> - (2 ^ 63) \<le> f \<and> f < 2 ^ 63
                                      | _ \<Rightarrow> False)
      | EffectConnect \<Rightarrow> (case Detail e of
            Some (ConnDetail d) \<Rightarrow> utf8_valid (IP d) \<and> utf8_valid (Domain d) \<and> utf8_valid (UnixSocket d)
          | _ \<Rightarrow> False)
      | EffectKindOther _ \<Rightarrow> False)"

definition effect_ok :: "Effect \<Rightarrow> bool" where
  "effect_ok e \<longleftrightarrow> detail_ok e \<and> utf8_valid (Target e)"

lemma get_field_simps [simp]:
  "map_of fs nm = Some (JStr s) \<Longrightarrow> get_field conv z fs nm = conv (JStr s)"
  "map_of fs nm = Some (JNum r) \<Longrightarrow> get_field conv z fs nm = conv (JNum r)"
  "map_of fs nm = Some (JTime t) \<Longrightarrow> get_field conv z fs nm = conv (JTime t)"
  "map_of fs nm = Some (JBool b) \<Longrightarrow> get_field conv z fs nm = conv (JBool b)"
  "map_of fs nm = Some (JArr js) \<Longrightarrow> get_field conv z fs nm = conv (JArr js)"
  "map_of fs nm = Some (JObj os) \<Longrightarrow> get_field conv z fs nm = conv (JObj os)"
  by (simp_all add: get_field_def)

lemma get_field_jnat:
  "map_of fs nm = Some (jnat n) \<Longrightarrow> n < 2 ^ bits \<Longrightarrow> get_field (as_nat bits) z fs nm = Some n"
  using as_nat_jnat [of n bits] by (simp add: jnat_def del: as_nat.simps)

lemma get_field_jint:
  "map_of fs nm = Some (jint n) \<Longrightarrow> - (2 ^ 63) \<le> n \<Longrightarrow> n < 2 ^ 63 \<Longrightarrow>
   get_field as_int z fs nm = Some n"
  using as_int_jint [of n] by (simp add: jint_def del: as_int.simps)

lemma get_field_jstr:
  "map_of fs nm = Some (jstr s) \<Longrightarrow> utf8_valid s \<Longrightarrow> get_field as_string z fs nm = Some s"
  by (simp add: jstr_def to_valid_id)

lemma get_field_word:
  fixes w :: "'a::len word"
  shows "map_of fs nm = Some (jnat (unat w)) \<Longrightarrow>
    get_field (as_nat LENGTH('a)) z fs nm = Some (unat w)"
  using unsigned_less [of w] by (intro get_field_jnat) auto

lemma get_field_u64:
  "map_of fs nm = Some (jnat (unat (w :: u64))) \<Longrightarrow> get_field (as_nat 64) z fs nm = Some (unat w)"
  using get_field_word [of fs nm w z] by simp

lemma get_field_u32:
  "map_of fs nm = Some (jnat (unat (w :: u32))) \<Longrightarrow> get_field (as_nat 32) z fs nm = Some (unat w)"
  using get_field_word [of fs nm w z] by simp

lemma get_field_u16:
  "map_of fs nm = Some (jnat (unat (w :: u16))) \<Longrightarrow> get_field (as_nat 16) z fs nm = Some (unat w)"
  using get_field_word [of fs nm w z] by simp

lemmas json_get = get_field_u64 get_field_u32 get_field_u16 get_field_jnat get_field_jint
  get_field_jstr

lemma unmarshal_open_json:
  "- (2 ^ 63) \<le> f \<Longrightarrow> f < 2 ^ 63 \<Longrightarrow>
   unmarshal_open (detail_json (Some (OpenDetail f))) = Some (OpenDetail f)"
  by (simp add: unmarshal_open_def json_get)

lemma unmarshal_connect_json:
  "utf8_valid (IP d) \<Longrightarrow> utf8_valid (Domain d) \<Longrightarrow> utf8_valid (UnixSocket d) \<Longrightarrow>
   unmarshal_connect (detail_json (Some (ConnDetail d))) = Some (ConnDetail d)"
  by (simp add: unmarshal_connect_def json_get)

lemma UnmarshalEffect_json:
  assumes "effect_ok e"
  shows "UnmarshalEffect (effect_json e) = Some e"
proof (cases "Kind e")
  case EffectOpen
  with assms obtain f where d: "Detail e = Some (OpenDetail f)" "- (2 ^ 63) \<le> f" "f < 2 ^ 63"
    by (auto simp: effect_ok_def detail_ok_def split: option.splits EffectDetail.splits)
  with assms EffectOpen show ?thesis
    using unmarshal_open_json [OF d(2,3)]
    by (simp add: UnmarshalEffect_def effect_json_def json_get effect_ok_def effect_kind_of_def)
next
  case EffectConnect
  with assms obtain cd where d: "Detail e = Some (ConnDetail cd)" "utf8_valid (IP cd)"
      "utf8_valid (Domain cd)" "utf8_valid (UnixSocket cd)"
    by (auto simp: effect_ok_def detail_ok_def split: option.splits EffectDetail.splits)
  with assms EffectConnect show ?thesis
    using unmarshal_connect_json [OF d(2-4)]
    by (simp add: UnmarshalEffect_def effect_json_def json_get effect_ok_def effect_kind_of_def)
next
  case (EffectKindOther b)
  with assms show ?thesis by (simp add: effect_ok_def detail_ok_def)
qed

end
