(* ===== verification/Enrichment.thy ===== *)
theory Enrichment
  imports ProcTree
begin

text \<open>
  Connection metadata (\<^verbatim>\<open>context/enrichment.go\<close>): the cached reverse DNS lookup, the parsers of
  \<^verbatim>\<open>/proc/<pid>/net/tcp\<close>, \<^verbatim>\<open>tcp6\<close> and \<^verbatim>\<open>unix\<close>, and the choice of the connection that an observed
  connect is attributed to. The file system and the resolver are arguments.
\<close>

section \<open>The file system\<close>

text \<open>What the sources read of the outside: file contents, symbolic links, directories.\<close>

record procfs =
  readFile :: "string \<Rightarrow> string option"
  readLink :: "string \<Rightarrow> string option"
  readDir :: "string \<Rightarrow> (string \<times> bool) list option"

definition pid_path :: "string \<Rightarrow> u32 \<Rightarrow> string \<Rightarrow> string" where
  "pid_path procPath pid file = procPath @ ''/'' @ dec (unat pid) @ ''/'' @ file"

section \<open>DNS cache\<close>

definition reverseDNS ::
  "(string \<Rightarrow> string list option) \<Rightarrow> (string, string) gomap \<Rightarrow> string \<Rightarrow>
   string \<times> (string, string) gomap" where
  "reverseDNS lookupAddr cache ip =
     (case map_of cache ip of
        Some v \<Rightarrow> (v, cache)
      | None \<Rightarrow>
          (case lookupAddr ip of
             None \<Rightarrow> ([], go_put ip [] cache)
           | Some [] \<Rightarrow> ([], go_put ip [] cache)
           | Some (nm # _) \<Rightarrow>
               (let domain = TrimSuffix nm ''.'' in (domain, go_put ip domain cache))))"

lemma reverseDNS_cached:
  "reverseDNS l c ip = (d, c') \<Longrightarrow> map_of c' ip = Some d \<and> (\<forall>ip'. ip' \<noteq> ip \<longrightarrow> map_of c' ip' = map_of c ip')"
  by (auto simp: reverseDNS_def Let_def split: option.splits list.splits)

lemma reverseDNS_stable:
  "reverseDNS l c ip = (d, c') \<Longrightarrow> reverseDNS l' c' ip = (d, c')"
  using reverseDNS_cached [of l c ip d c'] by (simp add: reverseDNS_def)

section \<open>Addresses\<close>

definition dotted :: "string \<Rightarrow> string" where
  "dotted b = Join (map (\<lambda>c. dec (of_char c)) b) ''.''"

definition parseHexIPv4 :: "string \<Rightarrow> string" where
  "parseHexIPv4 s =
     (if length s \<noteq> 8 then s
      else case hex_decode s of
             None \<Rightarrow> s
           | Some b \<Rightarrow> if length b \<noteq> 4 then s else dotted (rev b))"

text \<open>\<^verbatim>\<open>net.IP.String\<close> on 16 bytes: dotted for IPv4-mapped addresses, else RFC 5952.\<close>

fun groups16 :: "string \<Rightarrow> nat list" where
  "groups16 (a # b # r) = (256 * of_char a + of_char b) # groups16 r"
| "groups16 _ = []"

definition zero_run :: "nat list \<Rightarrow> nat" where
  "zero_run gs = length (takeWhile (\<lambda>g. g = 0) gs)"

definition best_zero_run :: "nat list \<Rightarrow> nat \<times> nat" where
  "best_zero_run gs =
     foldl (\<lambda>(st, n) i. let l = zero_run (drop i gs) in if 2 \<le> l \<and> n < l then (i, l) else (st, n))
       (0, 0) [0..<length gs]"

definition string6 :: "nat list \<Rightarrow> string" where
  "string6 gs =
     (case best_zero_run gs of (st, n) \<Rightarrow>
        if n = 0 then Join (map hex gs) '':''
        else Join (map hex (take st gs)) '':'' @ ''::'' @ Join (map hex (drop (st + n) gs)) '':'')"

definition v4_mapped :: "string \<Rightarrow> bool" where
  "v4_mapped b \<longleftrightarrow> take 12 b = replicate 10 (CHR 0x00) @ [CHR 0xFF, CHR 0xFF]"

definition ip_string :: "string \<Rightarrow> string" where
  "ip_string b = (if v4_mapped b then dotted (drop 12 b) else string6 (groups16 b))"

text \<open>Each group of four bytes is little-endian and is reversed in place.\<close>

fun swap_groups :: "string \<Rightarrow> string" where
  "swap_groups (a # b # c # d # r) = d # c # b # a # swap_groups r"
| "swap_groups r = r"

definition parseHexIPv6 :: "string \<Rightarrow> string" where
  "parseHexIPv6 s =
     (if length s \<noteq> 32 then s
      else case hex_decode s of
             None \<Rightarrow> s
           | Some b \<Rightarrow> if length b \<noteq> 16 then s else ip_string (swap_groups b))"

definition parseHexAddr :: "string \<Rightarrow> bool \<Rightarrow> string \<times> u16" where
  "parseHexAddr s ipv6 =
     (case split_byte (CHR '':'') s of
        [host, p] \<Rightarrow>
          (let port = of_nat (ScanUint 16 16 p) in
           if ipv6 then (parseHexIPv6 host, port) else (parseHexIPv4 host, port))
      | _ \<Rightarrow> ([], 0))"

section \<open>The parsers of \<^verbatim>\<open>/proc/<pid>/net\<close>\<close>

record tcpEntry =
  LocalIP :: string
  LocalPort :: u16
  RemoteIP :: string
  RemotePort :: u16
  State :: u8
  TxQueue :: u64
  RxQueue :: u64
  TcpFamily :: u16

definition unspecific_ips :: "string list" where
  "unspecific_ips = [''127.0.0.1'', ''::1'', ''0.0.0.0'', ''::'']"

definition parse_queues :: "string list \<Rightarrow> u64 \<times> u64" where
  "parse_queues flds =
     (if 4 < length flds then
        (case split_byte (CHR '':'') (flds ! 4) of
           [tx, rx] \<Rightarrow> (of_nat (ScanUint 16 64 tx), of_nat (ScanUint 16 64 rx))
         | _ \<Rightarrow> (0, 0))
      else (0, 0))"

definition parse_tcp_line :: "bool \<Rightarrow> u16 \<Rightarrow> string \<Rightarrow> tcpEntry option" where
  "parse_tcp_line ipv6 family line =
     (let trimmed = TrimSpace line; flds = Fields trimmed in
      if trimmed = [] \<or> length flds < 4 then None
      else
        let (localIP, localPort) = parseHexAddr (flds ! 1) ipv6;
            (remoteIP, remotePort) = parseHexAddr (flds ! 2) ipv6;
            state = (of_nat (ScanUint 16 8 (flds ! 3)) :: u8);
            (tx, rx) = parse_queues flds
        in if state = 10 \<or> remoteIP \<in> set unspecific_ips then None
           else Some \<lparr>LocalIP = localIP, LocalPort = localPort, RemoteIP = remoteIP,
                      RemotePort = remotePort, State = state, TxQueue = tx, RxQueue = rx,
                      TcpFamily = family\<rparr>)"

definition parseProcNetTCP :: "procfs \<Rightarrow> string \<Rightarrow> u32 \<Rightarrow> bool \<Rightarrow> tcpEntry list" where
  "parseProcNetTCP fs procPath pid ipv6 =
     (case readFile fs (pid_path procPath pid (if ipv6 then ''net/tcp6'' else ''net/tcp'')) of
        None \<Rightarrow> []
      | Some dat \<Rightarrow>
          List.map_filter (parse_tcp_line ipv6 (if ipv6 then 10 else 2)) (drop 1 (Lines dat)))"

definition unix_line_path :: "string \<Rightarrow> string option" where
  "unix_line_path line =
     (let trimmed = TrimSpace line; flds = Fields trimmed in
      if trimmed = [] then None
      else if 8 \<le> length flds \<and> \<not> HasPrefix (flds ! 7) ''@'' then Some (flds ! 7)
      else None)"

definition parseProcNetUnix :: "procfs \<Rightarrow> string \<Rightarrow> u32 \<Rightarrow> string" where
  "parseProcNetUnix fs procPath pid =
     (case readFile fs (pid_path procPath pid ''net/unix'') of
        None \<Rightarrow> []
      | Some dat \<Rightarrow>
          foldl (\<lambda>lastPath line. case unix_line_path line of None \<Rightarrow> lastPath | Some p \<Rightarrow> p)
            [] (drop 1 (Lines dat)))"

section \<open>The choice of the connection\<close>

definition preferred :: "tcpEntry \<Rightarrow> bool" where
  "preferred e \<longleftrightarrow> State e = 1 \<or> State e = 2"

fun pick_best :: "tcpEntry option \<Rightarrow> tcpEntry list \<Rightarrow> tcpEntry option" where
  "pick_best best [] = best"
| "pick_best best (e # es) =
     (if preferred e then
        (case best of
           None \<Rightarrow> pick_best (Some e) es
         | Some b \<Rightarrow> if State e < State b then pick_best (Some e) es else pick_best best es)
      else pick_best best es)"

definition enrichConnect ::
  "procfs \<Rightarrow> (string \<Rightarrow> string list option) \<Rightarrow> (string, string) gomap \<Rightarrow> string \<Rightarrow> u32 \<Rightarrow>
   ConnectDetail option \<times> (string, string) gomap" where
  "enrichConnect fs lookupAddr cache procPath pid =
     (let entries = parseProcNetTCP fs procPath pid False @ parseProcNetTCP fs procPath pid True in
      if entries \<noteq> [] then
        (let best = (case pick_best None entries of None \<Rightarrow> last entries | Some b \<Rightarrow> b);
             (domain, cache') = reverseDNS lookupAddr cache (RemoteIP best)
         in (Some \<lparr>IP = RemoteIP best, Port = RemotePort best, Domain = domain,
                   BytesSent = TxQueue best, BytesRecv = RxQueue best, Family = TcpFamily best,
                   UnixSocket = []\<rparr>, cache'))
      else
        (let path = parseProcNetUnix fs procPath pid in
         if path \<noteq> [] then (Some (emptyConnect\<lparr>Family := 1, UnixSocket := path\<rparr>), cache)
         else (None, cache)))"

section \<open>What the parsers deliver\<close>

lemma parse_tcp_line_kept:
  "parse_tcp_line v6 f line = Some e \<Longrightarrow>
   State e \<noteq> 10 \<and> RemoteIP e \<notin> set unspecific_ips \<and> TcpFamily e = f"
  by (auto simp: parse_tcp_line_def Let_def split: prod.splits if_splits)

lemma parseProcNetTCP_kept:
  "e \<in> set (parseProcNetTCP fs pp pid v6) \<Longrightarrow>
   State e \<noteq> 10 \<and> RemoteIP e \<notin> set unspecific_ips \<and> TcpFamily e = (if v6 then 10 else 2)"
  by (auto simp: parseProcNetTCP_def in_map_filter dest!: parse_tcp_line_kept
      split: option.splits if_splits)

lemma pick_best_Some:
  "preferred b \<Longrightarrow> pick_best (Some b) es =
     (if State b = 1 then Some b
      else case find (\<lambda>e. State e = 1) es of None \<Rightarrow> Some b | Some e \<Rightarrow> Some e)"
proof (induction es arbitrary: b)
  case (Cons e es)
  have "State b = 1 \<or> State b = 2" using Cons.prems by (simp add: preferred_def)
  with Cons show ?case
    by (auto simp: preferred_def split: option.splits)
qed (auto split: option.splits)

lemma pick_best_None:
  "pick_best None es =
     (case find (\<lambda>e. State e = 1) es of
        Some e \<Rightarrow> Some e
      | None \<Rightarrow> find (\<lambda>e. State e = 2) es)"
proof (induction es)
  case (Cons e es)
  show ?case
  proof (cases "preferred e")
    case True
    then show ?thesis
      by (auto simp: pick_best_Some preferred_def split: option.splits)
  next
    case False
    with Cons show ?thesis by (auto simp: preferred_def split: option.splits)
  qed
qed simp

text \<open>How the kernel prints an IPv4 address: the network-order word read on a little-endian host.\<close>

definition upper_digit :: "nat \<Rightarrow> char" where
  "upper_digit d = (if d < 10 then char_of (48 + d) else char_of (55 + d))"

fun kernel_hex :: "string \<Rightarrow> string" where
  "kernel_hex [] = []"
| "kernel_hex (c # s) = upper_digit (of_char c div 16) # upper_digit (of_char c mod 16) # kernel_hex s"

lemma upper_digit_val: "d < 16 \<Longrightarrow> is_digit 16 (upper_digit d) \<and> digit_of (upper_digit d) = d"
  by (auto simp: upper_digit_def is_digit_def digit_of_def digit_val_def Let_def)

lemma hex_decode_kernel: "hex_decode (kernel_hex s) = Some s"
proof (induction s)
  case (Cons c s)
  have "(of_char c :: nat) < 256" by simp
  then have "(of_char c :: nat) div 16 < 16" by linarith
  with Cons show ?case by (simp add: upper_digit_val)
qed simp

lemma length_kernel_hex [simp]: "length (kernel_hex s) = 2 * length s"
  by (induction s) auto

lemma parseHexIPv4_kernel:
  "parseHexIPv4 (kernel_hex [d, c, b, a]) = dotted [a, b, c, d]"
proof -
  have "length (kernel_hex [d, c, b, a]) = 8" unfolding length_kernel_hex by simp
  moreover have "hex_decode (kernel_hex [d, c, b, a]) = Some [d, c, b, a]"
    by (rule hex_decode_kernel)
  ultimately show ?thesis by (simp add: parseHexIPv4_def del: kernel_hex.simps)
qed

lemma parseHexIPv6_kernel:
  "length b = 16 \<Longrightarrow> parseHexIPv6 (kernel_hex b) = ip_string (swap_groups b)"
  by (simp add: parseHexIPv6_def hex_decode_kernel)

lemma swap_groups_inverse: "swap_groups (swap_groups b) = b"
  by (induction b rule: swap_groups.induct) auto

lemma length_swap_groups [simp]: "length (swap_groups b) = length b"
  by (induction b rule: swap_groups.induct) auto

lemma kernel_hex_digits: "list_all (is_digit 16) (kernel_hex s)"
proof (induction s)
  case (Cons c s)
  have "(of_char c :: nat) < 256" by simp
  then have "(of_char c :: nat) div 16 < 16" by linarith
  with Cons show ?case by (simp add: upper_digit_val)
qed simp

lemma digit_not_colon: "is_digit 16 c \<Longrightarrow> c \<noteq> CHR '':''"
  by (auto simp: is_digit_def digit_val_def)

lemma kernel_hex_no_colon: "CHR '':'' \<notin> set (kernel_hex s)"
  using kernel_hex_digits [of s] digit_not_colon by (auto simp: list_all_iff)

definition kernel_port :: "u16 \<Rightarrow> string" where
  "kernel_port p = kernel_hex (rev (le_bytes 2 (unat p)))"

lemma digits_val_kernel: "digits_val 16 (kernel_hex s) = le_val (rev s)"
proof -
  have le_snoc: "le_val (u @ [c]) = le_val u + 256 ^ length u * of_char c" for u :: string and c
    by (induction u) (auto simp: algebra_simps)
  have "foldl (\<lambda>acc c. acc * 16 + digit_of c) acc (kernel_hex s) = acc * 256 ^ length s + le_val (rev s)"
    for acc
  proof (induction s arbitrary: acc)
    case (Cons c s)
    have "(of_char c :: nat) < 256" by simp
    then have "(of_char c :: nat) div 16 < 16" by linarith
    moreover have "(acc * 16 + n div 16) * 16 + n mod 16 = acc * 256 + n" for n :: nat
      by (simp add: add_mult_distrib)
    ultimately have step: "foldl (\<lambda>acc c. acc * 16 + digit_of c) acc (kernel_hex (c # s))
        = foldl (\<lambda>acc c. acc * 16 + digit_of c) (acc * 256 + of_char c) (kernel_hex s)"
      by (simp add: upper_digit_val add.commute mult.commute)
    show ?case unfolding step Cons.IH by (simp add: le_snoc algebra_simps)
  qed simp
  from this [of 0] show ?thesis by (simp add: digits_val_def)
qed

lemma ScanUint_kernel:
  assumes "0 < n" and "v < 256 ^ n" and "v < 2 ^ bits"
  shows "ScanUint 16 bits (kernel_hex (rev (le_bytes n v))) = v"
proof -
  let ?s = "kernel_hex (rev (le_bytes n v))"
  have all: "takeWhile (is_digit 16) ?s = ?s"
    using kernel_hex_digits unfolding list_all_iff takeWhile_eq_all_conv by blast
  have "length ?s = 2 * n" by simp
  then have "?s \<noteq> []" using assms(1) by (metis list.size(3) mult_is_0 neq0_conv zero_neq_numeral)
  moreover have "digits_val 16 ?s = v"
    using le_val_bytes [OF assms(2)] by (simp only: digits_val_kernel rev_rev_ident)
  ultimately show ?thesis unfolding ScanUint_def Let_def all using assms(3) by simp
qed

lemma ScanUint_kernel_port: "ScanUint 16 16 (kernel_port p) = unat p"
  unfolding kernel_port_def using unsigned_less [of p] by (intro ScanUint_kernel) simp_all

text \<open>Addresses are printed as little-endian words of four bytes.\<close>

definition ip_text :: "bool \<Rightarrow> string \<Rightarrow> string" where
  "ip_text v6 b = (if v6 then ip_string b else dotted b)"

definition kernel_addr :: "bool \<Rightarrow> string \<Rightarrow> u16 \<Rightarrow> string" where
  "kernel_addr v6 b p = kernel_hex (if v6 then swap_groups b else rev b) @ '':'' @ kernel_port p"

lemma parseHexAddr_kernel:
  assumes "length b = (if v6 then 16 else 4)"
  shows "parseHexAddr (kernel_addr v6 b p) v6 = (ip_text v6 b, p)"
proof -
  have "split_byte (CHR '':'') (kernel_addr v6 b p) = [kernel_hex (if v6 then swap_groups b else rev b), kernel_port p]"
    using kernel_hex_no_colon
    by (simp add: kernel_addr_def split_byte_append split_byte_single kernel_port_def
        del: kernel_hex.simps)
  moreover have "parseHexIPv4 (kernel_hex (rev b)) = dotted b" if "\<not> v6"
    using assms that by (simp add: parseHexIPv4_def hex_decode_kernel)
  moreover have "parseHexIPv6 (kernel_hex (swap_groups b)) = ip_string b" if v6
    using assms that by (simp add: parseHexIPv6_kernel swap_groups_inverse)
  ultimately show ?thesis by (simp add: parseHexAddr_def ScanUint_kernel_port ip_text_def)
qed

text \<open>
  A connection of the kernel and its row of \<^verbatim>\<open>/proc/net/tcp\<close> (\<^verbatim>\<open>tcp6\<close>), as \<^verbatim>\<open>get_tcp4_sock\<close>
  (\<^verbatim>\<open>get_tcp6_sock\<close>) prints it:
  \<^verbatim>\<open>%4d: %08X:%04X %08X:%04X %02X %08X:%08X %02X:%08lX %08X %5u %8d %lu\<close> and further columns. The rows of
  \<^verbatim>\<open>tcp\<close> are padded to 149 columns (\<^verbatim>\<open>seq_pad\<close>); every row, also the last, ends with a newline.
\<close>

record tcp_sock =
  skSrc :: string
  skSport :: u16
  skDst :: string
  skDport :: u16
  skState :: u8
  skTx :: u32
  skRx :: u32
  skTimer :: u8
  skWhen :: u64
  skRetrans :: u32
  skUid :: nat
  skProbes :: int
  skInode :: nat
  skMore :: "string list"

definition kernel_queue :: "u32 \<Rightarrow> string" where
  "kernel_queue q = kernel_hex (rev (le_bytes 4 (unat q)))"

definition kernel_byte :: "u8 \<Rightarrow> string" where
  "kernel_byte n = kernel_hex (rev (le_bytes 1 (unat n)))"

text \<open>\<^verbatim>\<open>%08lX\<close>: sixteen digits without the leading zeros of the first eight.\<close>

definition kernel_long :: "u64 \<Rightarrow> string" where
  "kernel_long n =
     (let h = kernel_hex (rev (le_bytes 8 (unat n)))
      in drop (min 8 (length (takeWhile (\<lambda>c. c = CHR ''0'') h))) h)"

definition blanks :: "nat \<Rightarrow> string" where
  "blanks n = replicate n (CHR '' '')"

definition right_aligned :: "nat \<Rightarrow> string \<Rightarrow> string" where
  "right_aligned n s = blanks (n - length s) @ s"

definition kernel_row :: "bool \<Rightarrow> nat \<Rightarrow> tcp_sock \<Rightarrow> string" where
  "kernel_row v6 i sk =
     right_aligned 4 (dec i) @ '': '' @ kernel_addr v6 (skSrc sk) (skSport sk)
     @ '' '' @ kernel_addr v6 (skDst sk) (skDport sk) @ '' '' @ kernel_byte (skState sk)
     @ '' '' @ kernel_queue (skTx sk) @ '':'' @ kernel_queue (skRx sk)
     @ '' '' @ kernel_byte (skTimer sk) @ '':'' @ kernel_long (skWhen sk)
     @ '' '' @ kernel_queue (skRetrans sk) @ '' '' @ right_aligned 5 (dec (skUid sk))
     @ '' '' @ right_aligned 8 (dec_int (skProbes sk)) @ '' '' @ dec (skInode sk)
     @ concat (map (\<lambda>w. '' '' @ w) (skMore sk))"

definition kernel_line :: "bool \<Rightarrow> string \<Rightarrow> string" where
  "kernel_line v6 row = row @ (if v6 then [] else blanks (149 - length row)) @ [newline]"

definition kernel_header :: "bool \<Rightarrow> string" where
  "kernel_header v6 =
     (if v6 then ''  sl  local_address                         remote_address                        st tx_queue rx_queue tr tm->when retrnsmt   uid  timeout inode''
      else ''  sl  local_address rem_address   st tx_queue rx_queue tr tm->when retrnsmt   uid  timeout inode'')"

definition kernel_table :: "bool \<Rightarrow> tcp_sock list \<Rightarrow> string" where
  "kernel_table v6 socks =
     kernel_line v6 (kernel_header v6) @ concat (map (\<lambda>(i, sk). kernel_line v6 (kernel_row v6 i sk)) (enumerate 0 socks))"

definition kernel_sock :: "bool \<Rightarrow> tcp_sock \<Rightarrow> bool" where
  "kernel_sock v6 sk \<longleftrightarrow>
     length (skSrc sk) = (if v6 then 16 else 4) \<and> length (skDst sk) = (if v6 then 16 else 4)
     \<and> (\<forall>w \<in> set (skMore sk). list_all plain_char w \<and> w \<noteq> [])"

text \<open>What the parser is to make of it.\<close>

definition sock_entry :: "bool \<Rightarrow> tcp_sock \<Rightarrow> tcpEntry" where
  "sock_entry v6 sk =
     \<lparr>LocalIP = ip_text v6 (skSrc sk), LocalPort = skSport sk, RemoteIP = ip_text v6 (skDst sk),
      RemotePort = skDport sk, State = skState sk, TxQueue = ucast (skTx sk), RxQueue = ucast (skRx sk),
      TcpFamily = (if v6 then 10 else 2)\<rparr>"

lemma plain_hex: "is_digit 16 c \<Longrightarrow> plain_char c"
  by (auto simp: is_digit_def digit_val_def plain_char_def is_ascii_def ascii_space_def Let_def
      split: if_splits)

lemma plain_kernel_hex: "list_all plain_char (kernel_hex s)"
  using kernel_hex_digits [of s] plain_hex by (auto simp: list_all_iff)

lemma kernel_hex_Nil [simp]: "kernel_hex s = [] \<longleftrightarrow> s = []"
  by (cases s) auto

lemma plain_dec: "list_all plain_char (dec n)"
  using dec_digits(1) [of n]
  by (auto simp: list_all_iff is_digit_def digit_val_def plain_char_def is_ascii_def ascii_space_def Let_def
      split: if_splits)

lemma plain_dec_int: "list_all plain_char (dec_int i)" "dec_int i \<noteq> []"
  using plain_dec dec_digits(2) by (auto simp: dec_int_def plain_char_def is_ascii_def ascii_space_def)

lemma trim_left_plain: "s \<noteq> [] \<Longrightarrow> plain_char (hd s) \<Longrightarrow> trim_left s = s"
  by (subst trim_left.simps) (auto simp: lead_space_def plain_char_def split: list.splits)

lemma trim_right_plain: "s \<noteq> [] \<Longrightarrow> plain_char (last s) \<Longrightarrow> trim_right s = s"
  by (subst trim_right.simps) (auto simp: trail_space_def plain_char_def)

lemma Join_ends:
  assumes "ws \<noteq> []" and "\<forall>w \<in> set ws. list_all plain_char w \<and> w \<noteq> []"
  shows "Join ws sep \<noteq> [] \<and> plain_char (hd (Join ws sep)) \<and> plain_char (last (Join ws sep))"
  using assms
proof (induction ws)
  case (Cons w ws)
  then have "plain_char (hd w)" "plain_char (last w)" "w \<noteq> []"
    by (auto simp: list_all_iff)
  with Cons show ?case by (cases ws) auto
qed simp

lemma TrimSpace_Join:
  "ws \<noteq> [] \<Longrightarrow> \<forall>w \<in> set ws. list_all plain_char w \<and> w \<noteq> [] \<Longrightarrow> TrimSpace (Join ws '' '') = Join ws '' ''"
  using Join_ends [of ws "'' ''"] by (simp add: TrimSpace_def trim_left_plain trim_right_plain)

lemma trim_left_blanks: "trim_left (blanks n @ s) = trim_left s"
proof (induction n)
  case (Suc n)
  then show ?case
    by (subst trim_left.simps) (simp add: blanks_def lead_space_def is_ascii_def ascii_space_def)
qed (simp add: blanks_def)

lemma trim_right_blanks: "trim_right (s @ blanks n) = trim_right s"
proof (induction n)
  case (Suc n)
  have "s @ blanks (Suc n) = (s @ blanks n) @ '' ''"
    by (simp add: blanks_def replicate_append_same)
  with Suc show ?case
    by (subst trim_right.simps) (simp add: trail_space_def is_ascii_def ascii_space_def)
qed (simp add: blanks_def)

lemma Fields_blanks: "Fields (blanks n @ s) = Fields s"
  by (induction n) (simp_all add: blanks_def Fields_space)

text \<open>A line of words, each with the number of blanks before it.\<close>

fun spaced :: "(nat \<times> string) list \<Rightarrow> string" where
  "spaced [] = []"
| "spaced ((n, w) # nws) = blanks n @ w @ spaced nws"

definition words_apart :: "(nat \<times> string) list \<Rightarrow> bool" where
  "words_apart nws \<longleftrightarrow> list_all (\<lambda>(n, w). 0 < n \<and> list_all plain_char w \<and> w \<noteq> []) nws"

lemma spaced_append: "spaced (nws @ mws) = spaced nws @ spaced mws"
  by (induction nws rule: spaced.induct) simp_all

lemma Fields_spaced:
  assumes "list_all plain_char w" and "w \<noteq> []" and "words_apart nws"
  shows "Fields (w @ spaced nws) = w # map snd nws"
  using assms
proof (induction nws arbitrary: w)
  case Nil
  then show ?case by (simp add: Fields_last)
next
  case (Cons nw nws)
  then obtain n u where nw: "nw = (Suc n, u)" by (cases nw; cases "fst nw") (auto simp: words_apart_def)
  with Cons.prems have u: "list_all plain_char u" "u \<noteq> []" "words_apart nws" by (auto simp: words_apart_def)
  have "Fields (w @ CHR '' '' # (blanks n @ u @ spaced nws)) = w # Fields (u @ spaced nws)"
    using Cons.prems by (simp add: Fields_word Fields_blanks)
  with Cons.IH [OF u] show ?case by (simp add: nw blanks_def)
qed

lemma last_spaced:
  assumes "list_all plain_char w" and "w \<noteq> []" and "words_apart nws"
  shows "plain_char (last (w @ spaced nws))"
  using assms
proof (induction nws arbitrary: w)
  case Nil
  then show ?case by (simp add: list_all_iff)
next
  case (Cons nw nws)
  then obtain n u where nw: "nw = (n, u)" by (cases nw)
  with Cons.prems have u: "list_all plain_char u" "u \<noteq> []" "words_apart nws" by (auto simp: words_apart_def)
  from Cons.IH [OF u] u(2) show ?case by (simp add: nw)
qed

lemma TrimSpace_spaced:
  assumes "list_all plain_char w" and "w \<noteq> []" and "words_apart nws"
  shows "TrimSpace (blanks n @ (w @ spaced nws) @ blanks m) = w @ spaced nws"
proof -
  have "plain_char (hd (w @ spaced nws @ blanks m))" using assms(1,2) by (auto simp: list_all_iff)
  then have "trim_left (blanks n @ (w @ spaced nws) @ blanks m) = (w @ spaced nws) @ blanks m"
    using assms(2) by (simp add: trim_left_blanks trim_left_plain)
  moreover have "trim_right (w @ spaced nws) = w @ spaced nws"
    using last_spaced [OF assms] assms(2) by (simp add: trim_right_plain)
  ultimately show ?thesis unfolding TrimSpace_def by (simp only: trim_right_blanks)
qed

section \<open>The table of the kernel is read back\<close>

definition row_words :: "bool \<Rightarrow> tcp_sock \<Rightarrow> (nat \<times> string) list" where
  "row_words v6 sk =
     [(1, kernel_addr v6 (skSrc sk) (skSport sk)), (1, kernel_addr v6 (skDst sk) (skDport sk)),
      (1, kernel_byte (skState sk)), (1, kernel_queue (skTx sk) @ '':'' @ kernel_queue (skRx sk)),
      (1, kernel_byte (skTimer sk) @ '':'' @ kernel_long (skWhen sk)), (1, kernel_queue (skRetrans sk)),
      (Suc (5 - length (dec (skUid sk))), dec (skUid sk)),
      (Suc (8 - length (dec_int (skProbes sk))), dec_int (skProbes sk)), (1, dec (skInode sk))]
     @ map (Pair 1) (skMore sk)"

lemma kernel_row_spaced:
  "kernel_row v6 i sk = blanks (4 - length (dec i)) @ (dec i @ '':'') @ spaced (row_words v6 sk)"
proof -
  have "spaced (map (Pair 1) ws) = concat (map (\<lambda>w. '' '' @ w) ws)" for ws
    by (induction ws) (simp_all add: blanks_def)
  then show ?thesis by (simp add: kernel_row_def row_words_def right_aligned_def blanks_def)
qed

lemma plain_colon [simp]: "plain_char (CHR '':'')"
  by (simp add: plain_char_def is_ascii_def ascii_space_def)

lemma plain_kernel_long: "list_all plain_char (kernel_long n)"
  using plain_kernel_hex by (auto simp: kernel_long_def Let_def list_all_iff dest: in_set_dropD)

lemma words_apart_row:
  assumes "kernel_sock v6 sk"
  shows "words_apart (row_words v6 sk)"
proof -
  have "words_apart (map (Pair 1) (skMore sk))"
    using assms by (auto simp: kernel_sock_def words_apart_def list_all_iff)
  moreover have "kernel_byte n \<noteq> []" "kernel_queue q \<noteq> []" for n q
    by (simp_all add: kernel_byte_def kernel_queue_def del: kernel_hex.simps)
  ultimately show ?thesis
    using plain_kernel_hex plain_kernel_long plain_dec plain_dec_int dec_digits(2)
    by (simp add: words_apart_def row_words_def kernel_addr_def kernel_port_def kernel_byte_def kernel_queue_def
        del: kernel_hex.simps le_bytes.simps)
qed

lemma parse_kernel_row:
  assumes "kernel_sock v6 sk"
  shows "parse_tcp_line v6 (if v6 then 10 else 2) (kernel_row v6 i sk @ blanks m) =
    (if skState sk = 10 \<or> ip_text v6 (skDst sk) \<in> set unspecific_ips then None else Some (sock_entry v6 sk))"
proof -
  let ?line = "kernel_row v6 i sk @ blanks m" and ?sl = "dec i @ '':''"
  have sl: "list_all plain_char ?sl" "?sl \<noteq> []" using plain_dec by auto
  note words = words_apart_row [OF assms]
  have t: "TrimSpace ?line = ?sl @ spaced (row_words v6 sk)"
    using TrimSpace_spaced [OF sl words] by (simp add: kernel_row_spaced)
  have f: "Fields (?sl @ spaced (row_words v6 sk)) = ?sl # map snd (row_words v6 sk)"
    by (rule Fields_spaced [OF sl words])
  have st: "(of_nat (ScanUint 16 8 (kernel_byte (skState sk))) :: u8) = skState sk"
    using unsigned_less [of "skState sk"] unfolding kernel_byte_def by (subst ScanUint_kernel) simp_all
  have "split_byte (CHR '':'') (kernel_queue tx @ '':'' @ kernel_queue rx) = [kernel_queue tx, kernel_queue rx]" for tx rx
    using kernel_hex_no_colon by (simp add: split_byte_append split_byte_single kernel_queue_def)
  moreover have "ScanUint 16 64 (kernel_queue q) = unat q" for q
  proof -
    have q: "unat q < 256 ^ 4" using unsigned_less [of q] by simp
    then have "unat q < 2 ^ 64" by (rule less_trans) simp
    with q show ?thesis unfolding kernel_queue_def by (intro ScanUint_kernel) simp_all
  qed
  ultimately have q: "parse_queues (?sl # map snd (row_words v6 sk)) = (ucast (skTx sk), ucast (skRx sk))"
    by (simp add: parse_queues_def row_words_def)
  have addrs: "parseHexAddr (kernel_addr v6 (skSrc sk) p) v6 = (ip_text v6 (skSrc sk), p)"
    "parseHexAddr (kernel_addr v6 (skDst sk) p) v6 = (ip_text v6 (skDst sk), p)" for p
    using assms by (simp_all add: kernel_sock_def parseHexAddr_kernel)
  show ?thesis
    unfolding parse_tcp_line_def Let_def t f q
    by (simp add: row_words_def addrs st sock_entry_def)
qed

lemma kernel_row_no_newline:
  assumes "kernel_sock v6 sk"
  shows "newline \<notin> set (kernel_row v6 i sk)"
proof -
  have "newline \<notin> set (spaced nws)" if "words_apart nws" for nws
    using that by (induction nws rule: spaced.induct)
      (auto simp: words_apart_def blanks_def list_all_iff plain_char_def ascii_space_def)
  moreover have "newline \<notin> set (dec i)"
    using plain_dec [of i] by (auto simp: list_all_iff plain_char_def ascii_space_def)
  ultimately show ?thesis
    using words_apart_row [OF assms] by (simp add: kernel_row_spaced blanks_def)
qed

lemma Lines_lines:
  assumes "\<forall>w \<in> set ws. newline \<notin> set w"
  shows "Lines (concat (map (\<lambda>w. w @ [newline]) ws)) = ws @ [[]]"
  using assms by (induction ws) (auto simp: split_byte_append)

lemma parse_kernel_table:
  assumes "\<forall>sk \<in> set socks. kernel_sock v6 sk"
  shows "List.map_filter (parse_tcp_line v6 (if v6 then 10 else 2)) (drop 1 (Lines (kernel_table v6 socks))) =
    map (sock_entry v6) (filter (\<lambda>sk. skState sk \<noteq> 10 \<and> ip_text v6 (skDst sk) \<notin> set unspecific_ips) socks)"
proof -
  define pad where "pad row = row @ (if v6 then [] else blanks (149 - length row))" for row
  define rows where "rows k = map (\<lambda>(i, sk). pad (kernel_row v6 i sk)) (enumerate k socks)" for k
  have "kernel_table v6 socks = concat (map (\<lambda>w. w @ [newline]) (pad (kernel_header v6) # rows 0))"
    by (simp add: kernel_table_def kernel_line_def rows_def pad_def comp_def case_prod_unfold)
  moreover have "newline \<notin> set (kernel_header v6)" by (simp add: kernel_header_def)
  then have "\<forall>w \<in> set (pad (kernel_header v6) # rows 0). newline \<notin> set w"
    using assms kernel_row_no_newline
    by (auto simp: rows_def pad_def blanks_def in_set_enumerate_eq)
  ultimately have "drop 1 (Lines (kernel_table v6 socks)) = rows 0 @ [[]]" by (simp only: Lines_lines) simp
  moreover have "parse_tcp_line v6 f [] = None" for f
    by (simp add: parse_tcp_line_def TrimSpace_def trim_left.simps trim_right.simps trail_space_def lead_space_def)
  moreover have "\<exists>m. pad (kernel_row v6 i sk) = kernel_row v6 i sk @ blanks m" for i sk
    by (cases v6) (auto simp: pad_def blanks_def intro: exI [of _ 0])
  then have row: "parse_tcp_line v6 (if v6 then 10 else 2) (pad (kernel_row v6 i sk)) =
      (if skState sk = 10 \<or> ip_text v6 (skDst sk) \<in> set unspecific_ips then None else Some (sock_entry v6 sk))"
    if "kernel_sock v6 sk" for i sk using parse_kernel_row [OF that] by metis
  have "List.map_filter (parse_tcp_line v6 (if v6 then 10 else 2)) (rows k) =
    map (sock_entry v6) (filter (\<lambda>sk. skState sk \<noteq> 10 \<and> ip_text v6 (skDst sk) \<notin> set unspecific_ips) socks)" for k
    using assms unfolding rows_def by (induction socks arbitrary: k) (simp_all add: map_filter_simps row)
  ultimately show ?thesis by (simp add: map_filter_def)
qed


definition sample_sock :: tcp_sock where
  "sample_sock = \<lparr>skSrc = map char_of [10::nat, 0, 0, 5], skSport = 40000, skDst = map char_of [93::nat, 184, 216, 34],
     skDport = 443, skState = 1, skTx = 7, skRx = 9, skTimer = 0, skWhen = 0, skRetrans = 0, skUid = 1000, skProbes = 0,
     skInode = 31337, skMore = [''1'', ''0000000000000000'', ''20'']\<rparr>"

definition sample_listener :: tcp_sock where
  "sample_listener = sample_sock\<lparr>skDst := map char_of [0::nat, 0, 0, 0], skDport := 0, skState := 10\<rparr>"

definition sample_local :: tcp_sock where
  "sample_local = sample_sock\<lparr>skDst := map char_of [127::nat, 0, 0, 1]\<rparr>"

definition sample_conn :: tcpEntry where
  "sample_conn = sock_entry False sample_sock"

definition sample_net :: procfs where
  "sample_net = \<lparr>readFile = (\<lambda>p. if p = pid_path ''/proc'' 42 ''net/tcp''
       then Some (kernel_table False [sample_listener, sample_sock, sample_local]) else None),
     readLink = (\<lambda>_. None), readDir = (\<lambda>_. None)\<rparr>"

lemma sample_remote: "dotted [char_of (93::nat), char_of (184::nat), char_of (216::nat), char_of (34::nat)] = ''93.184.216.34''"
  by (simp add: dotted_def go_strings)

lemma sample_dst: "ip_text False (skDst sample_sock) = ''93.184.216.34''" "ip_text False (skDst sample_local) = ''127.0.0.1''"
  by (simp_all add: sample_sock_def sample_local_def ip_text_def sample_remote dotted_def go_strings)

lemma sample_socks: "\<forall>sk \<in> set [sample_listener, sample_sock, sample_local]. kernel_sock False sk"
  by (simp add: sample_sock_def sample_listener_def sample_local_def kernel_sock_def go_strings)

lemma sample_states: "skState sample_sock = 1" "skState sample_listener = 10"
  by (simp_all add: sample_sock_def sample_listener_def)


lemma sample_parsed: "parseProcNetTCP sample_net ''/proc'' 42 False = [sample_conn]"
  using parse_kernel_table [OF sample_socks]
  by (simp add: parseProcNetTCP_def sample_net_def sample_dst sample_states sample_conn_def unspecific_ips_def)

lemma sample_conn_fields:
  "sample_conn = \<lparr>LocalIP = dotted (map char_of [10::nat, 0, 0, 5]), LocalPort = 40000, RemoteIP = ''93.184.216.34'',
     RemotePort = 443, State = 1, TxQueue = 7, RxQueue = 9, TcpFamily = 2\<rparr>"
  using sample_dst(1) by (simp add: sample_conn_def sock_entry_def) (simp add: sample_sock_def ip_text_def)

text \<open>the connection an observed connect is attributed to.\<close>

theorem enrichConnect_choice:
  assumes "es = parseProcNetTCP fs pp pid False @ parseProcNetTCP fs pp pid True" and "es \<noteq> []"
  shows "\<exists>b \<in> set es. \<exists>dom. fst (enrichConnect fs dns cache pp pid) =
      Some \<lparr>IP = RemoteIP b, Port = RemotePort b, Domain = dom, BytesSent = TxQueue b,
            BytesRecv = RxQueue b, Family = TcpFamily b, UnixSocket = []\<rparr>
    \<and> (if \<exists>e \<in> set es. State e = 1 then Some b = find (\<lambda>e. State e = 1) es
       else if \<exists>e \<in> set es. State e = 2 then Some b = find (\<lambda>e. State e = 2) es
       else b = last es)"
proof -
  let ?b = "case pick_best None es of None \<Rightarrow> last es | Some b \<Rightarrow> b"
  have "fst (enrichConnect fs dns cache pp pid) =
      Some \<lparr>IP = RemoteIP ?b, Port = RemotePort ?b,
            Domain = fst (reverseDNS dns cache (RemoteIP ?b)), BytesSent = TxQueue ?b,
            BytesRecv = RxQueue ?b, Family = TcpFamily ?b, UnixSocket = []\<rparr>"
    using assms(2) by (simp add: enrichConnect_def assms(1) [symmetric] Let_def split: prod.splits)
  moreover have "?b \<in> set es"
    using assms(2) by (auto simp: pick_best_None find_Some_iff split: option.splits)
  moreover have "if \<exists>e \<in> set es. State e = 1 then Some ?b = find (\<lambda>e. State e = 1) es
       else if \<exists>e \<in> set es. State e = 2 then Some ?b = find (\<lambda>e. State e = 2) es
       else ?b = last es"
    by (auto simp: pick_best_None find_None_iff split: option.splits dest: find_SomeD)
  ultimately show ?thesis by blast
qed

lemma enrichConnect_choice_witness:
  "\<exists>dom. fst (enrichConnect sample_net (\<lambda>_. None) [] ''/proc'' 42) =
      Some \<lparr>IP = ''93.184.216.34'', Port = 443, Domain = dom, BytesSent = 7,
            BytesRecv = 9, Family = 2, UnixSocket = []\<rparr>"
proof -
  have six: "parseProcNetTCP sample_net ''/proc'' 42 True = []"
    by (simp add: parseProcNetTCP_def sample_net_def pid_path_def)
  have "parseProcNetTCP sample_net ''/proc'' 42 False = [sample_conn]"
    using sample_parsed .
  with enrichConnect_choice [OF refl, of sample_net "''/proc''" 42 "\<lambda>_. None" "[]"] six
  show ?thesis by (auto simp: sample_conn_fields)
qed

end
