(* ===== verification/Handlers.thy ===== *)
theory Handlers
  imports Enrichment
begin

text \<open>
  The event handlers of the process tree (\<^verbatim>\<open>context/handlers.go\<close>). Each handler runs under the
  tree's mutex, so it is one atomic step on the tree. \<^verbatim>\<open>time.Now()\<close> is read several times in a
  handler: \<open>now i\<close> is the reading at the i-th program point. Where a function releases the mutex
  to read \<^verbatim>\<open>/proc\<close>, \<open>gap\<close> is what the other goroutines do to the tree meanwhile.
\<close>

section \<open>Construction\<close>

record tree_config =
  cfgMaxEffects :: int
  cfgCaptureNetwork :: bool
  cfgCaptureFileIO :: bool
  cfgIgnored :: "string list"
  cfgProcPath :: string
  cfgSysPath :: string
  cfgStracePath :: string

definition NewProcessTree :: "tree_config \<Rightarrow> ProcessTree" where
  "NewProcessTree cfg =
     \<lparr>ByPID = [], Ghosts = [], MaxEffectsPerProcess = cfgMaxEffects cfg,
      CaptureNetwork = cfgCaptureNetwork cfg, CaptureFileIO = cfgCaptureFileIO cfg,
      IgnoredProcesses = fold (\<lambda>p m. go_put p () m) (cfgIgnored cfg) [],
      ProcPath = cfgProcPath cfg, SysPath = cfgSysPath cfg, StracePath = cfgStracePath cfg\<rparr>"

lemma NewProcessTree_ignored:
  "map_of (IgnoredProcesses (NewProcessTree cfg)) p \<noteq> None \<longleftrightarrow> p \<in> set (cfgIgnored cfg)"
proof -
  have "map_of (fold (\<lambda>p m. go_put p () m) ps m) p \<noteq> None \<longleftrightarrow> p \<in> set ps \<or> map_of m p \<noteq> None"
    for ps m by (induction ps arbitrary: m) auto
  then show ?thesis by (simp add: NewProcessTree_def)
qed

text \<open>Writes through the pointer that an entry of the map holds.\<close>

definition setProc :: "u32 \<Rightarrow> ProcessNode \<Rightarrow> ProcessTree \<Rightarrow> ProcessTree" where
  "setProc pid p t = t\<lparr>ByPID := go_put pid p (ByPID t)\<rparr>"

definition setGhost :: "u32 \<Rightarrow> ProcessNode \<Rightarrow> ProcessTree \<Rightarrow> ProcessTree" where
  "setGhost pid p t = t\<lparr>Ghosts := go_put pid p (Ghosts t)\<rparr>"

section \<open>The four handlers\<close>

definition getOrCreateProc :: "(nat \<Rightarrow> gotime) \<Rightarrow> Event \<Rightarrow> ProcessTree \<Rightarrow> ProcessTree \<times> ProcessNode" where
  "getOrCreateProc now e t =
     (case map_of (ByPID t) (Pid e) of
        Some proc \<Rightarrow> (t, proc)
      | None \<Rightarrow> (let proc = newNode (Pid e) [] (CommStr e) (now 0)
                 in (setProc (Pid e) proc t, proc)))"

definition handleExec :: "(nat \<Rightarrow> gotime) \<Rightarrow> Event \<Rightarrow> ProcessTree \<Rightarrow> ProcessTree" where
  "handleExec now e t =
     (let comm = CommStr e in
      if map_of (IgnoredProcesses t) comm \<noteq> None then t
      else setProc (Pid e) (newNode (Pid e) (PathStr e) comm (now 0)) t)"

definition handleOpen :: "(nat \<Rightarrow> gotime) \<Rightarrow> Event \<Rightarrow> ProcessTree \<Rightarrow> ProcessTree" where
  "handleOpen now e t =
     (let (t1, proc) = getOrCreateProc now e t; path = PathStr e in
      case map_of (Effects proc) path of
        Some eff \<Rightarrow>
          setProc (Pid e)
            (proc\<lparr>Effects := go_put path (eff\<lparr>Count := Count eff + 1, Last := now 1\<rparr>) (Effects proc)\<rparr>) t1
      | None \<Rightarrow>
          if MaxEffectsPerProcess t1 \<le> int (length (Effects proc)) then t1
          else setProc (Pid e)
            (proc\<lparr>Effects := go_put path
               \<lparr>Kind = EffectOpen, Target = path, Count = 1, First = now 1, Last = now 2,
                Detail = Some (OpenDetail 0)\<rparr> (Effects proc)\<rparr>) t1)"

definition handleExit :: "(nat \<Rightarrow> gotime) \<Rightarrow> Event \<Rightarrow> ProcessTree \<Rightarrow> ProcessTree" where
  "handleExit now e t =
     (case map_of (ByPID t) (Pid e) of
        None \<Rightarrow> t
      | Some proc \<Rightarrow>
          t\<lparr>Ghosts := go_put (Pid e) (proc\<lparr>EndTimestamp := now 0\<rparr>) (Ghosts t),
            ByPID := go_del (Pid e) (ByPID t)\<rparr>)"

definition connect_key :: "u32 \<Rightarrow> gotime \<Rightarrow> string" where
  "connect_key pid t = ''connect:'' @ dec (unat pid) @ '':'' @ dec_int t"

definition handleConnect :: "(nat \<Rightarrow> gotime) \<Rightarrow> Event \<Rightarrow> ProcessTree \<Rightarrow> ProcessTree" where
  "handleConnect now e t =
     (let (t1, proc) = getOrCreateProc now e t; key = connect_key (Pid e) (now 1) in
      if MaxEffectsPerProcess t1 \<le> int (length (Effects proc)) then t1
      else setProc (Pid e)
        (proc\<lparr>Effects := go_put key
           \<lparr>Kind = EffectConnect, Target = key, Count = 1, First = now 2, Last = now 3,
            Detail = Some (ConnDetail emptyConnect)\<rparr> (Effects proc)\<rparr>) t1)"

fun HandleEvent :: "(nat \<Rightarrow> gotime) \<Rightarrow> Event \<Rightarrow> ProcessTree \<Rightarrow> ProcessTree" where
  "HandleEvent now e t =
     (case Type e of
        EventExec \<Rightarrow> handleExec now e t
      | EventOpen \<Rightarrow> if CaptureFileIO t then handleOpen now e t else t
      | EventExit \<Rightarrow> handleExit now e t
      | EventConnect \<Rightarrow> if CaptureNetwork t then handleConnect now e t else t
      | EventOther _ \<Rightarrow> t)"

section \<open>Ghost eviction\<close>

text \<open>
  One tick of \<^verbatim>\<open>EvictGhosts\<close>: the loop body deletes the entry it visits, so every visiting order
  gives this filter. \<open>now pid\<close> is the clock when the ghost \<open>pid\<close> is visited.
\<close>

definition evictGhosts :: "(u32 \<Rightarrow> gotime) \<Rightarrow> duration \<Rightarrow> ProcessTree \<Rightarrow> ProcessTree" where
  "evictGhosts now maxAge t =
     t\<lparr>Ghosts := filter (\<lambda>(pid, proc). \<not> maxAge < timeSub (now pid) (EndTimestamp proc)) (Ghosts t)\<rparr>"

section \<open>Readers of \<^verbatim>\<open>/proc\<close>\<close>

definition readBinaryPath :: "procfs \<Rightarrow> string \<Rightarrow> u32 \<Rightarrow> string" where
  "readBinaryPath fs procPath pid =
     (case readLink fs (pid_path procPath pid ''exe'') of None \<Rightarrow> [] | Some target \<Rightarrow> target)"

definition readCmdline :: "procfs \<Rightarrow> string \<Rightarrow> u32 \<Rightarrow> string \<Rightarrow> string" where
  "readCmdline fs procPath pid fallback =
     (case readFile fs (pid_path procPath pid ''cmdline'') of
        None \<Rightarrow> fallback
      | Some bs \<Rightarrow>
          if bs = [] then fallback
          else (let cmdline = TrimSpace (map (\<lambda>c. if c = CHR 0x00 then CHR '' '' else c) bs)
                in if cmdline = [] then fallback else cmdline))"

fun ppid_of_lines :: "string list \<Rightarrow> u32" where
  "ppid_of_lines [] = 0"
| "ppid_of_lines (line # ls) =
     (if HasPrefix line ''PPid:'' \<and> length (Fields line) = 2
      then of_nat (ScanUint 10 32 (Fields line ! 1))
      else ppid_of_lines ls)"

definition readPPID :: "procfs \<Rightarrow> string \<Rightarrow> u32 \<Rightarrow> u32" where
  "readPPID fs procPath pid =
     (case readFile fs (pid_path procPath pid ''status'') of
        None \<Rightarrow> 0
      | Some dat \<Rightarrow> ppid_of_lines (Lines dat))"

section \<open>Enrichment of processes and connections\<close>

text \<open>\<^verbatim>\<open>parent.ChildrenPID = append(parent.ChildrenPID, pid)\<close> unless it is there already.\<close>

definition linkChild :: "u32 \<Rightarrow> u32 \<Rightarrow> ProcessTree \<Rightarrow> ProcessTree" where
  "linkChild ppid pid t =
     (if 0 < ppid then
        (case map_of (ByPID t) ppid of
           None \<Rightarrow> t
         | Some parent \<Rightarrow>
             if pid \<in> set (ChildrenPID parent) then t
             else setProc ppid (parent\<lparr>ChildrenPID := ChildrenPID parent @ [pid]\<rparr>) t)
      else t)"

text \<open>The second critical section: the node is looked up again after the reads.\<close>

definition applyMetadata :: "u32 \<Rightarrow> string \<Rightarrow> u32 \<Rightarrow> string \<Rightarrow> ProcessTree \<Rightarrow> ProcessTree" where
  "applyMetadata pid comm ppid bin t =
     (case map_of (ByPID t) pid of
        None \<Rightarrow> t
      | Some proc \<Rightarrow>
          linkChild ppid pid
            (setProc pid (proc\<lparr>Comm := comm, PPID := ppid, BinaryPath := bin\<rparr>) t))"

definition EnrichProcessMetadata ::
  "procfs \<Rightarrow> (ProcessTree \<Rightarrow> ProcessTree) \<Rightarrow> u32 \<Rightarrow> ProcessTree \<Rightarrow> ProcessTree" where
  "EnrichProcessMetadata fs gap pid t =
     (case map_of (ByPID t) pid of
        None \<Rightarrow> t
      | Some proc \<Rightarrow>
          (let comm = readCmdline fs (ProcPath t) pid (Comm proc);
               ppid = readPPID fs (ProcPath t) pid;
               bin = readBinaryPath fs (ProcPath t) pid
           in applyMetadata pid comm ppid bin (gap t)))"

text \<open>The effect with its detail replaced, byte counts added to those captured before.\<close>

definition merge_detail :: "ConnectDetail \<Rightarrow> Effect \<Rightarrow> Effect" where
  "merge_detail detail eff =
     (case Detail eff of
        Some (ConnDetail d) \<Rightarrow>
          eff\<lparr>Detail := Some (ConnDetail (detail\<lparr>BytesSent := BytesSent detail + BytesSent d,
                                               BytesRecv := BytesRecv detail + BytesRecv d\<rparr>))\<rparr>
      | _ \<Rightarrow> eff\<lparr>Detail := Some (ConnDetail detail)\<rparr>)"

definition enriched_key :: "ConnectDetail \<Rightarrow> string" where
  "enriched_key detail =
     (let k = IP detail @ '':'' @ dec (unat (Port detail)) in
      if Domain detail \<noteq> [] then k @ '' ('' @ Domain detail @ '')'' else k)"

definition enrichEffect :: "string \<Rightarrow> ConnectDetail \<Rightarrow> ProcessNode \<Rightarrow> ProcessNode" where
  "enrichEffect key detail proc =
     (case map_of (Effects proc) key of
        None \<Rightarrow> proc
      | Some eff0 \<Rightarrow>
          (let eff = merge_detail detail eff0 in
           if HasPrefix key ''connect:'' \<and> IP detail \<noteq> [] then
             (let newKey = enriched_key detail in
              proc\<lparr>Effects := go_put newKey (eff\<lparr>Target := newKey\<rparr>) (go_del key (Effects proc))\<rparr>)
           else proc\<lparr>Effects := go_put key eff (Effects proc)\<rparr>))"

definition applyConnection :: "u32 \<Rightarrow> string \<Rightarrow> ConnectDetail \<Rightarrow> ProcessTree \<Rightarrow> ProcessTree" where
  "applyConnection pid key detail t =
     (case map_of (ByPID t) pid of
        Some proc \<Rightarrow> setProc pid (enrichEffect key detail proc) t
      | None \<Rightarrow>
          (case map_of (Ghosts t) pid of
             Some proc \<Rightarrow> setGhost pid (enrichEffect key detail proc) t
           | None \<Rightarrow> t))"

definition EnrichConnectionMetadata ::
  "procfs \<Rightarrow> (string \<Rightarrow> string list option) \<Rightarrow> (ProcessTree \<Rightarrow> ProcessTree) \<Rightarrow> u32 \<Rightarrow> string \<Rightarrow>
   ConnectDetail option \<Rightarrow> ProcessTree \<times> (string, string) gomap \<Rightarrow>
   ProcessTree \<times> (string, string) gomap" where
  "EnrichConnectionMetadata fs dns gap pid key bpfDetail = (\<lambda>(t, cache).
     (let (detail, cache1) =
            (case bpfDetail of
               Some b \<Rightarrow>
                 if IP b \<noteq> [] then (let (dom, c) = reverseDNS dns cache (IP b) in (Some (b\<lparr>Domain := dom\<rparr>), c))
                 else enrichConnect fs dns cache (ProcPath t) pid
             | None \<Rightarrow> enrichConnect fs dns cache (ProcPath t) pid)
      in case detail of
           None \<Rightarrow> (gap t, cache1)
         | Some d \<Rightarrow> (applyConnection pid key d (gap t), cache1)))"

section \<open>The sweep of \<^verbatim>\<open>/proc\<close>\<close>

text \<open>
  \<^verbatim>\<open>DiscoverExistingProcesses\<close> runs before the other goroutines start. \<open>now pid\<close> is the clock
  when the entry of \<open>pid\<close> is added.
\<close>

definition discover_comm :: "procfs \<Rightarrow> string \<Rightarrow> u32 \<Rightarrow> string" where
  "discover_comm fs procPath pid =
     (let c1 = readCmdline fs procPath pid [];
          c2 = (if c1 = [] then TrimSpace (case readFile fs (pid_path procPath pid ''comm'') of
                                             None \<Rightarrow> [] | Some bs \<Rightarrow> bs) else c1)
      in if c2 = [] then ''pid:'' @ dec (unat pid) else c2)"

definition discoverEntry ::
  "procfs \<Rightarrow> (u32 \<Rightarrow> gotime) \<Rightarrow> string \<times> bool \<Rightarrow> ProcessTree \<Rightarrow> ProcessTree" where
  "discoverEntry fs now = (\<lambda>(name, isDir) t.
     (if \<not> isDir then t
      else case Atoi name of
             (_, Some _) \<Rightarrow> t
           | (pidInt, None) \<Rightarrow>
               (let pid = of_int pidInt in
                if map_of (ByPID t) pid \<noteq> None then t
                else
                  let comm = discover_comm fs (ProcPath t) pid;
                      ppid = readPPID fs (ProcPath t) pid;
                      bin = readBinaryPath fs (ProcPath t) pid
                  in linkChild ppid pid
                       (setProc pid ((newNode pid bin comm (now pid))\<lparr>PPID := ppid, IsEnriched := True\<rparr>) t))))"

definition DiscoverExistingProcesses :: "procfs \<Rightarrow> (u32 \<Rightarrow> gotime) \<Rightarrow> ProcessTree \<Rightarrow> ProcessTree" where
  "DiscoverExistingProcesses fs now t =
     (case readDir fs (ProcPath t) of
        None \<Rightarrow> t
      | Some entries \<Rightarrow> fold (discoverEntry fs now) entries t)"

end
