(* ===== verification/Metrics.thy ===== *)
theory Metrics
  imports Handlers
begin

text \<open>
  The metrics poller (\<^verbatim>\<open>context/metrics.go\<close>): parsing of \<^verbatim>\<open>/proc/<pid>/stat\<close> and
  \<^verbatim>\<open>/proc/<pid>/status\<close>, and one tick of \<^verbatim>\<open>RefreshMetrics\<close> over the active processes with its
  table of previous samples. Tick counters are 64-bit words, so their differences wrap; every
  floating-point operation is the exact one followed by the rounding \<open>rnd\<close>.
\<close>

record prevCPU =
  utime :: u64
  stime :: u64
  sample :: gotime

definition parse_stat :: "string \<Rightarrow> (u64 \<times> u64) option" where
  "parse_stat s =
     (case LastIndexByte s (CHR '')'') of
        None \<Rightarrow> None
      | Some closeParen \<Rightarrow>
          if length s \<le> closeParen + 2 then None
          else
            let flds = Fields (drop (closeParen + 2) s) in
            if length flds < 13 then None
            else case (ParseUint 10 64 (flds ! 11), ParseUint 10 64 (flds ! 12)) of
                   (Inr u, Inr v) \<Rightarrow> Some (of_nat u, of_nat v)
                 | _ \<Rightarrow> None)"

definition readCPUTicks :: "procfs \<Rightarrow> string \<Rightarrow> u32 \<Rightarrow> gotime \<Rightarrow> prevCPU option" where
  "readCPUTicks fs procPath pid now =
     (case readFile fs (pid_path procPath pid ''stat'') of
        None \<Rightarrow> None
      | Some dat \<Rightarrow>
          map_option (\<lambda>(u, v). \<lparr>utime = u, stime = v, sample = now\<rparr>) (parse_stat dat))"

fun rss_of_lines :: "string list \<Rightarrow> u64" where
  "rss_of_lines [] = 0"
| "rss_of_lines (line # ls) =
     (if HasPrefix line ''VmRSS:'' \<and> 2 \<le> length (Fields line)
      then (case ParseUint 10 64 (Fields line ! 1) of
              Inr v \<Rightarrow> of_nat v
            | Inl _ \<Rightarrow> rss_of_lines ls)
      else rss_of_lines ls)"

definition readMemoryRSS :: "procfs \<Rightarrow> string \<Rightarrow> u32 \<Rightarrow> u64" where
  "readMemoryRSS fs procPath pid =
     (case readFile fs (pid_path procPath pid ''status'') of
        None \<Rightarrow> 0
      | Some dat \<Rightarrow> rss_of_lines (Lines dat))"

text \<open>\<^verbatim>\<open>Duration.Seconds()\<close>; Go's integer division and remainder truncate towards zero.\<close>

definition quot :: "int \<Rightarrow> int \<Rightarrow> int" where
  "quot a b = sgn a * sgn b * (\<bar>a\<bar> div \<bar>b\<bar>)"

definition Seconds :: "(rat \<Rightarrow> rat) \<Rightarrow> duration \<Rightarrow> float64" where
  "Seconds rnd d =
     (let s = quot d second; n = d - s * second in
      rnd (rnd (of_int s) + rnd (rnd (of_int n) / 1000000000)))"

definition tickDelta :: "prevCPU \<Rightarrow> prevCPU \<Rightarrow> u64" where
  "tickDelta p cpu = (utime cpu - utime p) + (stime cpu - stime p)"

definition cpu_percent :: "(rat \<Rightarrow> rat) \<Rightarrow> u64 \<Rightarrow> float64 \<Rightarrow> float64" where
  "cpu_percent rnd delta dt = rnd (rnd (rnd (rnd (of_nat (unat delta)) / 100) / dt) * 100)"

text \<open>
  The loop body for one process: \<open>now 0\<close> is the time of the sample, \<open>now 1\<close> the reading of
  \<^verbatim>\<open>time.Since\<close>. It writes the node and, when the sample could be read, the previous-sample table.
\<close>

definition refreshProc ::
  "(rat \<Rightarrow> rat) \<Rightarrow> procfs \<Rightarrow> string \<Rightarrow> (nat \<Rightarrow> gotime) \<Rightarrow> (u32, prevCPU) gomap \<Rightarrow> u32 \<Rightarrow> ProcessNode \<Rightarrow>
   ProcessNode \<times> (u32, prevCPU) gomap" where
  "refreshProc rnd fs procPath now prev pid proc =
     (let p1 = proc\<lparr>MemoryUsage := readMemoryRSS fs procPath pid\<rparr> in
      case readCPUTicks fs procPath pid (now 0) of
        None \<Rightarrow> (p1, prev)
      | Some cpu \<Rightarrow>
          (case map_of prev pid of
             None \<Rightarrow> (p1, go_put pid cpu prev)
           | Some p \<Rightarrow>
               (let dt = Seconds rnd (timeSub (now 1) (sample p)) in
                (if 0 < dt then p1\<lparr>CpuUsage := cpu_percent rnd (tickDelta p cpu) dt\<rparr> else p1,
                 go_put pid cpu prev))))"

fun refreshAll ::
  "(rat \<Rightarrow> rat) \<Rightarrow> procfs \<Rightarrow> string \<Rightarrow> (u32 \<Rightarrow> nat \<Rightarrow> gotime) \<Rightarrow> (u32, ProcessNode) gomap \<Rightarrow>
   (u32, prevCPU) gomap \<Rightarrow> (u32, ProcessNode) gomap \<times> (u32, prevCPU) gomap" where
  "refreshAll rnd fs procPath now [] prev = ([], prev)"
| "refreshAll rnd fs procPath now ((pid, proc) # ps) prev =
     (let (proc', prev1) = refreshProc rnd fs procPath (now pid) prev pid proc;
          (ps', prev2) = refreshAll rnd fs procPath now ps prev1
      in ((pid, proc') # ps', prev2))"

text \<open>One tick: all processes, then the samples of processes no longer tracked are dropped.\<close>

definition RefreshMetrics ::
  "(rat \<Rightarrow> rat) \<Rightarrow> procfs \<Rightarrow> (u32 \<Rightarrow> nat \<Rightarrow> gotime) \<Rightarrow> ProcessTree \<times> (u32, prevCPU) gomap \<Rightarrow>
   ProcessTree \<times> (u32, prevCPU) gomap" where
  "RefreshMetrics rnd fs now = (\<lambda>(t, prev).
     (let (procs, prev1) = refreshAll rnd fs (ProcPath t) now (ByPID t) prev in
      (t\<lparr>ByPID := procs\<rparr>, filter (\<lambda>(pid, _). map_of procs pid \<noteq> None) prev1)))"

section \<open>Parsing\<close>

text \<open>
  The kernel writes the command name between parentheses, and the name may itself contain
  blanks and parentheses: only the last closing parenthesis ends it.
\<close>

text \<open>\<^verbatim>\<open>/proc/<pid>/stat\<close> is read correctly whatever bytes the command name holds.\<close>

theorem parse_stat_any_comm:
  assumes "\<forall>w \<in> set ws. list_all plain_char w \<and> w \<noteq> [] \<and> CHR '')'' \<notin> set w"
    and "13 \<le> length ws"
    and "ws ! 11 = dec u" and "ws ! 12 = dec v" and "u < 2 ^ 64" and "v < 2 ^ 64"
  shows "parse_stat (dec pid @ '' ('' @ comm @ '') '' @ Join ws '' '') = Some (of_nat u, of_nat v)"
proof -
  let ?rest = "CHR '' '' # Join ws '' ''"
  let ?pre = "dec pid @ '' ('' @ comm"
  have "CHR '')'' \<notin> set (Join ws '' '')"
    using assms(1)
  proof (induction ws)
    case (Cons w ws)
    then show ?case by (cases ws) auto
  qed simp
  moreover define S where "S = ?pre @ CHR '')'' # ?rest"
  ultimately have idx: "LastIndexByte S (CHR '')'') = Some (length ?pre)"
    unfolding S_def by (intro LastIndexByte_append) simp
  have drp: "drop (length ?pre + 2) S = Join ws '' ''"
  proof -
    have eq: "S = (?pre @ '') '') @ Join ws '' ''" by (simp add: S_def)
    have len: "length ?pre + 2 = length (?pre @ '') '')" by simp
    have drop_app: "drop (length u) (u @ v) = v" for u v :: string by simp
    show ?thesis unfolding eq len by (rule drop_app)
  qed
  have "Join ws '' '' \<noteq> []"
    using assms(1,2) Join_ends [of ws "'' ''"] by (cases ws) auto
  then have len: "\<not> length S \<le> length ?pre + 2" by (simp add: S_def)
  have flds: "Fields (Join ws '' '') = ws" using assms(1) by (intro Fields_Join) auto
  have num: "ParseUint 10 64 (dec u) = Inr u" "ParseUint 10 64 (dec v) = Inr v"
    unfolding dec_def using assms(5,6) by (simp_all add: ParseUint_show del: power_numeral)
  have "parse_stat S = Some (of_nat u, of_nat v)"
    unfolding parse_stat_def Let_def idx option.case drp flds if_not_P [OF len]
    using assms(2,3,4) num by simp
  then show ?thesis by (simp add: S_def)
qed

lemma parse_stat_any_comm_witness:
  "parse_stat (dec 42 @ '' ('' @ ''a) (b'' @ '') '' @
     Join [''S'', ''1'', ''1'', ''1'', ''0'', ''-1'', ''0'', ''0'', ''0'', ''0'', ''0'', dec 12, dec 34] '' '')
   = Some (12, 34)"
proof -
  let ?ws = "[''S'', ''1'', ''1'', ''1'', ''0'', ''-1'', ''0'', ''0'', ''0'', ''0'', ''0'', dec 12, dec 34]"
  have "\<forall>w \<in> set ?ws. list_all plain_char w \<and> w \<noteq> [] \<and> CHR '')'' \<notin> set w" by code_simp
  from parse_stat_any_comm [OF this, of 12 34 42 "''a) (b''"] show ?thesis by simp
qed

section \<open>A tick keeps everything but the metrics\<close>

definition same_but_metrics :: "ProcessNode \<Rightarrow> ProcessNode \<Rightarrow> bool" where
  "same_but_metrics p p' \<longleftrightarrow> p' = p\<lparr>MemoryUsage := MemoryUsage p', CpuUsage := CpuUsage p'\<rparr>"

definition entry_but_metrics :: "u32 \<times> ProcessNode \<Rightarrow> u32 \<times> ProcessNode \<Rightarrow> bool" where
  "entry_but_metrics x y \<longleftrightarrow> fst y = fst x \<and> same_but_metrics (snd x) (snd y)"

lemma refreshProc_frame:
  "refreshProc rnd fs pp now prev pid proc = (proc', prev') \<Longrightarrow>
   same_but_metrics proc proc' \<and> MemoryUsage proc' = readMemoryRSS fs pp pid"
  by (auto simp: refreshProc_def Let_def same_but_metrics_def split: option.splits if_splits)

lemma refreshAll_keys: "refreshAll rnd fs pp now ps prev = (ps', prev') \<Longrightarrow> map fst ps' = map fst ps"
  by (induction ps arbitrary: prev ps' prev') (auto simp: Let_def split: prod.splits)

lemma refreshAll_frame:
  "refreshAll rnd fs pp now ps prev = (ps', prev') \<Longrightarrow>
   list_all2 entry_but_metrics ps ps'"
proof (induction ps arbitrary: prev ps' prev')
  case (Cons a ps)
  then show ?case
    by (cases a) (auto simp: Let_def entry_but_metrics_def split: prod.splits
        dest!: refreshProc_frame)
qed simp

lemma refreshProc_prev_wf:
  "refreshProc rnd fs pp now prev pid proc = (proc', prev') \<Longrightarrow> wf_map prev \<Longrightarrow> wf_map prev'"
  by (auto simp: refreshProc_def Let_def split: option.splits)

lemma refreshAll_prev_wf:
  "refreshAll rnd fs pp now ps prev = (ps', prev') \<Longrightarrow> wf_map prev \<Longrightarrow> wf_map prev'"
proof (induction ps arbitrary: prev ps' prev')
  case (Cons a ps)
  then show ?case
    by (cases a) (auto simp: Let_def split: prod.splits dest: refreshProc_prev_wf)
qed simp

text \<open>after a tick the sample table holds tracked processes only, and no other field moved.\<close>

theorem RefreshMetrics_tracks:
  assumes "RefreshMetrics rnd fs now (t, prev) = (t', prev')"
  shows "set (go_keys prev') \<subseteq> set (go_keys (ByPID t))
    \<and> go_keys (ByPID t') = go_keys (ByPID t) \<and> Ghosts t' = Ghosts t
    \<and> list_all2 entry_but_metrics (ByPID t) (ByPID t')"
proof -
  obtain procs prev1 where r: "refreshAll rnd fs (ProcPath t) now (ByPID t) prev = (procs, prev1)"
    by (cases "refreshAll rnd fs (ProcPath t) now (ByPID t) prev")
  with assms have t': "t' = t\<lparr>ByPID := procs\<rparr>"
    and prev': "prev' = filter (\<lambda>(pid, _). map_of procs pid \<noteq> None) prev1"
    by (auto simp: RefreshMetrics_def)
  note keys = refreshAll_keys [OF r]
  have "set (go_keys prev') \<subseteq> set (go_keys (ByPID t))"
  proof
    fix k
    assume "k \<in> set (go_keys prev')"
    then obtain v where "(k, v) \<in> set prev'" by auto
    then have "map_of procs k \<noteq> None" using prev' by simp
    then show "k \<in> set (go_keys (ByPID t))"
      using keys by (metis map_of_eq_None_iff list.set_map)
  qed
  then show ?thesis using t' keys refreshAll_frame [OF r] by simp
qed

definition sample_cfg :: tree_config where
  "sample_cfg = \<lparr>cfgMaxEffects = 5, cfgCaptureNetwork = True, cfgCaptureFileIO = True,
     cfgIgnored = [''sh''], cfgProcPath = ''/proc'', cfgSysPath = ''/sys'', cfgStracePath = ''strace''\<rparr>"

definition sample_stat :: procfs where
  "sample_stat = \<lparr>readFile = (\<lambda>p. if p = ''/proc/42/stat''
       then Some ''42 (sh) S 1 1 1 0 -1 0 0 0 0 0 12 34'' else None),
     readLink = (\<lambda>_. None), readDir = (\<lambda>_. None)\<rparr>"

definition sample_tree :: ProcessTree where
  "sample_tree = setProc 42 (newNode 42 ''/bin/sh'' ''sh'' 0) (NewProcessTree sample_cfg)"

lemma RefreshMetrics_tracks_witness:
  defines "r \<equiv> RefreshMetrics id sample_stat (\<lambda>_ _. second) (sample_tree, [])"
  shows "set (go_keys (snd r)) \<subseteq> {42} \<and> go_keys (ByPID (fst r)) = [42]"
proof -
  have "go_keys (ByPID sample_tree) = [42]"
    by (simp add: sample_tree_def setProc_def NewProcessTree_def)
  moreover obtain t' prev' where r: "r = (t', prev')" by (cases r)
  ultimately show ?thesis
    using RefreshMetrics_tracks [OF r [unfolded r_def]] r by simp
qed

section \<open>PID reuse\<close>

lemma quot_second: "0 \<le> d \<Longrightarrow> quot (d * second) second = d"
  by (simp add: quot_def second_def millisecond_def sgn_if)

text \<open>
  the previous sample is found by PID alone. When a PID is reused within a tick and the new
  process has used less CPU than the old one, the unsigned difference of the tick counts wraps around
  and the stored usage exceeds ten to the seventeen per cent.
\<close>

theorem cpu_usage_after_pid_reuse:
  assumes "readCPUTicks fs pp pid (now 0) = Some cpu" and "map_of prev pid = Some old"
    and "utime cpu + 1 = utime old" and "stime cpu = stime old"
    and "now 1 = sample old + second"
  shows "10 ^ 17 < CpuUsage (fst (refreshProc id fs pp now prev pid proc))"
proof -
  have "timeSub (now 1) (sample old) = second"
    using assms(5) by (subst timeSub_eq) (simp_all add: second_def millisecond_def)
  moreover have "quot second second = 1" using quot_second [of 1] by simp
  ultimately have dt: "Seconds id (timeSub (now 1) (sample old)) = 1"
    by (simp add: Seconds_def Let_def)
  have "utime cpu - utime old = - 1" using assms(3) by (metis add_diff_cancel_left' minus_diff_eq diff_add_cancel add.commute uminus_add_conv_diff)
  then have "tickDelta old cpu = - 1" using assms(4) by (simp add: tickDelta_def)
  then have "unat (tickDelta old cpu) = 2 ^ 64 - 1" by (simp add: unsigned_minus_1_eq_mask mask_eq_exp_minus_1)
  then show ?thesis using assms(1,2) dt
    by (simp add: refreshProc_def Let_def cpu_percent_def)
qed

lemma cpu_usage_after_pid_reuse_witness:
  "10 ^ 17 < CpuUsage (fst (refreshProc id sample_stat ''/proc'' (\<lambda>i. int i * second)
     [(42, \<lparr>utime = 13, stime = 34, sample = 0\<rparr>)] 42 (newNode 42 ''/bin/sh'' ''sh'' 0)))"
proof -
  have "readCPUTicks sample_stat ''/proc'' 42 (int 0 * second) = Some \<lparr>utime = 12, stime = 34, sample = 0\<rparr>"
    by (simp add: readCPUTicks_def sample_stat_def pid_path_def parse_stat_def ParseUint_def
        is_digit_def digits_val_def digit_of_def go_strings)
  from cpu_usage_after_pid_reuse [where now = "\<lambda>i. int i * second", OF this]
  show ?thesis by simp
qed

end
