(* ===== verification/TreeInv.thy ===== *)
theory TreeInv
  imports Metrics
begin

text \<open>
  What the process tree promises. Every atomic step of the goroutines that share the tree is an
  operation of \<open>tree_op\<close>; the representation invariant \<open>tree_ok\<close> holds after any interleaving of
  them. The abstract specification of the tree is a family of independent machines, one per PID,
  whose state is what the two maps hold for that PID (\<open>view\<close>); \<open>HandleEvent\<close> refines it.
\<close>

section \<open>The invariant\<close>

definition node_ok :: "int \<Rightarrow> u32 \<Rightarrow> ProcessNode \<Rightarrow> bool" where
  "node_ok cap pid p \<longleftrightarrow>
     PID p = pid \<and> wf_map (Effects p) \<and> (\<forall>(k, e) \<in> set (Effects p). Target e = k)
     \<and> int (length (Effects p)) \<le> max 0 cap \<and> distinct (ChildrenPID p)"

definition table_ok :: "int \<Rightarrow> (u32, ProcessNode) gomap \<Rightarrow> bool" where
  "table_ok cap m \<longleftrightarrow> wf_map m \<and> (\<forall>(pid, p) \<in> set m. node_ok cap pid p)"

definition tree_ok :: "ProcessTree \<Rightarrow> bool" where
  "tree_ok t \<longleftrightarrow> table_ok (MaxEffectsPerProcess t) (ByPID t)
     \<and> table_ok (MaxEffectsPerProcess t) (Ghosts t)"

lemma table_ok_get: "table_ok cap m \<Longrightarrow> map_of m pid = Some p \<Longrightarrow> node_ok cap pid p"
  by (auto simp: table_ok_def dest: map_of_SomeD)

lemma set_go_put: "wf_map m \<Longrightarrow> x \<in> set (go_put k v m) \<Longrightarrow> x = (k, v) \<or> x \<in> set m"
  by (cases x) (auto simp: wf_map_in_set split: if_splits)

lemma set_go_del: "x \<in> set (go_del k m) \<Longrightarrow> x \<in> set m \<and> fst x \<noteq> k"
  by (auto simp: AList.delete_eq)

lemma table_ok_put: "table_ok cap m \<Longrightarrow> node_ok cap pid p \<Longrightarrow> table_ok cap (go_put pid p m)"
  by (auto simp: table_ok_def dest!: set_go_put)

lemma table_ok_del: "table_ok cap m \<Longrightarrow> table_ok cap (go_del pid m)"
  by (auto simp: table_ok_def dest!: set_go_del)

lemma table_ok_filter: "table_ok cap m \<Longrightarrow> table_ok cap (filter P m)"
  by (auto simp: table_ok_def)

lemma table_ok_Nil [simp]: "table_ok cap []"
  by (simp add: table_ok_def)

lemma node_ok_new [simp]: "node_ok cap pid (newNode pid bin comm start)"
  by (simp add: node_ok_def newNode_def)

lemma node_ok_put_effect:
  assumes "node_ok cap pid p" and "Target e = k"
    and "map_of (Effects p) k \<noteq> None \<or> int (length (Effects p)) < cap"
  shows "node_ok cap pid (p\<lparr>Effects := go_put k e (Effects p)\<rparr>)"
proof -
  have wf: "wf_map (Effects p)" and tgt: "\<forall>(k, e) \<in> set (Effects p). Target e = k"
    and len: "int (length (Effects p)) \<le> max 0 cap"
    using assms(1) by (auto simp: node_ok_def)
  have "Target e' = k'" if "(k', e') \<in> set (go_put k e (Effects p))" for k' e'
    using set_go_put [OF wf that] tgt assms(2) by auto
  moreover have "int (length (go_put k e (Effects p))) \<le> max 0 cap"
    using assms(3) len by (auto simp: length_go_put)
  ultimately show ?thesis using assms(1) wf by (auto simp: node_ok_def)
qed

lemma target_of: "node_ok cap pid p \<Longrightarrow> map_of (Effects p) k = Some e \<Longrightarrow> Target e = k"
  by (auto simp: node_ok_def dest: map_of_SomeD)

lemma merge_detail_fields [simp]:
  "Target (merge_detail d e) = Target e" "Count (merge_detail d e) = Count e"
  "Kind (merge_detail d e) = Kind e" "First (merge_detail d e) = First e"
  "Last (merge_detail d e) = Last e"
  by (auto simp: merge_detail_def split: option.splits EffectDetail.splits)

lemma node_ok_enrichEffect:
  assumes "node_ok cap pid p"
  shows "node_ok cap pid (enrichEffect key d p)"
proof (cases "map_of (Effects p) key")
  case None
  with assms show ?thesis by (simp add: enrichEffect_def)
next
  case (Some e)
  let ?m = "go_del key (Effects p)"
  have wf: "wf_map (Effects p)" and len: "int (length (Effects p)) \<le> max 0 cap"
    and tgt: "\<forall>(k, e) \<in> set (Effects p). Target e = k"
    using assms by (auto simp: node_ok_def)
  have "length (go_put k v ?m) \<le> length (Effects p)" for k v
    using gm.rekey_card [OF wf, of key k v] Some by simp
  then have "int (length (go_put k v ?m)) \<le> max 0 cap" for k v
    using len by (rule order_trans [OF iffD2 [OF of_nat_le_iff]])
  moreover have "Target e = k" if "(k, e) \<in> set (go_put k' (v\<lparr>Target := k'\<rparr>) ?m)" for k e k' v
    using tgt set_go_put [OF wf_map_go_del [OF wf] that] by (auto dest!: set_go_del)
  moreover have "node_ok cap pid (p\<lparr>Effects := go_put key (merge_detail d e) (Effects p)\<rparr>)"
    using assms Some target_of [OF assms Some] by (intro node_ok_put_effect) auto
  ultimately show ?thesis using assms Some wf
    by (auto simp: enrichEffect_def Let_def node_ok_def)
qed

section \<open>Every step keeps it\<close>

datatype tree_op =
  OpEvent "nat \<Rightarrow> gotime" Event
| OpEvict "u32 \<Rightarrow> gotime" duration
| OpMetadata u32 string u32 string
| OpConnection u32 string ConnectDetail
| OpMarkEnriched u32
| OpMetrics "rat \<Rightarrow> rat" procfs "u32 \<Rightarrow> nat \<Rightarrow> gotime" "(u32, prevCPU) gomap"
| OpDiscover procfs "u32 \<Rightarrow> gotime"

text \<open>\<^verbatim>\<open>n.IsEnriched = true\<close> on the entry of a PID (the marking in \<^verbatim>\<open>TakeSnapshot\<close>).\<close>

definition markEnriched :: "u32 \<Rightarrow> ProcessTree \<Rightarrow> ProcessTree" where
  "markEnriched pid t =
     (case map_of (ByPID t) pid of
        None \<Rightarrow> t
      | Some n \<Rightarrow> setProc pid (n\<lparr>IsEnriched := True\<rparr>) t)"

fun apply_op :: "tree_op \<Rightarrow> ProcessTree \<Rightarrow> ProcessTree" where
  "apply_op (OpEvent now e) t = HandleEvent now e t"
| "apply_op (OpEvict now maxAge) t = evictGhosts now maxAge t"
| "apply_op (OpMetadata pid comm ppid bin) t = applyMetadata pid comm ppid bin t"
| "apply_op (OpConnection pid key d) t = applyConnection pid key d t"
| "apply_op (OpMarkEnriched pid) t = markEnriched pid t"
| "apply_op (OpMetrics rnd fs now prev) t = fst (RefreshMetrics rnd fs now (t, prev))"
| "apply_op (OpDiscover fs now) t = DiscoverExistingProcesses fs now t"

lemma tree_ok_setProc:
  "tree_ok t \<Longrightarrow> node_ok (MaxEffectsPerProcess t) pid p \<Longrightarrow> tree_ok (setProc pid p t)"
  by (simp add: tree_ok_def setProc_def table_ok_put)

lemma tree_ok_setGhost:
  "tree_ok t \<Longrightarrow> node_ok (MaxEffectsPerProcess t) pid p \<Longrightarrow> tree_ok (setGhost pid p t)"
  by (simp add: tree_ok_def setGhost_def table_ok_put)

lemma tree_ok_getProc:
  "tree_ok t \<Longrightarrow> map_of (ByPID t) pid = Some p \<Longrightarrow> node_ok (MaxEffectsPerProcess t) pid p"
  by (auto simp: tree_ok_def dest: table_ok_get)

lemma tree_ok_getGhost:
  "tree_ok t \<Longrightarrow> map_of (Ghosts t) pid = Some p \<Longrightarrow> node_ok (MaxEffectsPerProcess t) pid p"
  by (auto simp: tree_ok_def dest: table_ok_get)

lemma setProc_cap [simp]: "MaxEffectsPerProcess (setProc pid p t) = MaxEffectsPerProcess t"
  by (simp add: setProc_def)

lemma setProc_lookup [simp]:
  "map_of (ByPID (setProc pid p t)) = (map_of (ByPID t))(pid \<mapsto> p)"
  "Ghosts (setProc pid p t) = Ghosts t"
  "ProcPath (setProc pid p t) = ProcPath t"
  "CaptureFileIO (setProc pid p t) = CaptureFileIO t"
  "CaptureNetwork (setProc pid p t) = CaptureNetwork t"
  "IgnoredProcesses (setProc pid p t) = IgnoredProcesses t"
  by (simp_all add: setProc_def)

lemmas tree_get_set = tree_ok_setProc tree_ok_setGhost tree_ok_getProc tree_ok_getGhost

lemma getOrCreateProc_ok:
  "tree_ok t \<Longrightarrow> getOrCreateProc now e t = (t1, proc) \<Longrightarrow>
   tree_ok t1 \<and> node_ok (MaxEffectsPerProcess t1) (Pid e) proc"
  by (auto simp: getOrCreateProc_def Let_def intro: tree_get_set split: option.splits)

lemma handleExec_ok: "tree_ok t \<Longrightarrow> tree_ok (handleExec now e t)"
  by (auto simp: handleExec_def Let_def intro: tree_get_set)

lemma handleOpen_ok: "tree_ok t \<Longrightarrow> tree_ok (handleOpen now e t)"
proof -
  assume t: "tree_ok t"
  obtain t1 proc where g: "getOrCreateProc now e t = (t1, proc)"
    by (cases "getOrCreateProc now e t")
  note ok = getOrCreateProc_ok [OF t g]
  show ?thesis using ok g
    by (auto simp: handleOpen_def Let_def target_of intro!: tree_ok_setProc node_ok_put_effect
        split: option.splits)
qed

lemma handleExit_ok: "tree_ok t \<Longrightarrow> tree_ok (handleExit now e t)"
proof (cases "map_of (ByPID t) (Pid e)")
  case (Some p)
  assume t: "tree_ok t"
  have "node_ok (MaxEffectsPerProcess t) (Pid e) (p\<lparr>EndTimestamp := now 0\<rparr>)"
    using tree_ok_getProc [OF t Some] by (simp add: node_ok_def)
  with t Some show ?thesis by (simp add: handleExit_def tree_ok_def table_ok_put table_ok_del)
qed (simp add: handleExit_def)

lemma handleConnect_ok: "tree_ok t \<Longrightarrow> tree_ok (handleConnect now e t)"
proof -
  assume t: "tree_ok t"
  obtain t1 proc where g: "getOrCreateProc now e t = (t1, proc)"
    by (cases "getOrCreateProc now e t")
  note ok = getOrCreateProc_ok [OF t g]
  show ?thesis using ok g
    by (auto simp: handleConnect_def Let_def intro!: tree_ok_setProc node_ok_put_effect)
qed

lemma HandleEvent_ok: "tree_ok t \<Longrightarrow> tree_ok (HandleEvent now e t)"
  by (auto simp: handleExec_ok handleOpen_ok handleExit_ok handleConnect_ok
      split: EventKind.splits)

declare HandleEvent.simps [simp del]

lemma evictGhosts_ok: "tree_ok t \<Longrightarrow> tree_ok (evictGhosts now maxAge t)"
  by (simp add: tree_ok_def evictGhosts_def table_ok_filter)

lemma linkChild_ok: "tree_ok t \<Longrightarrow> tree_ok (linkChild ppid pid t)"
proof -
  assume t: "tree_ok t"
  have "node_ok cap ppid (p\<lparr>ChildrenPID := ChildrenPID p @ [pid]\<rparr>)"
    if "node_ok cap ppid p" "pid \<notin> set (ChildrenPID p)" for cap p
    using that by (simp add: node_ok_def)
  with t show ?thesis
    by (auto simp: linkChild_def intro!: tree_ok_setProc dest: tree_ok_getProc split: option.splits)
qed

lemma node_ok_fields [simp]:
  "node_ok cap pid (p\<lparr>Comm := a\<rparr>) = node_ok cap pid p"
  "node_ok cap pid (p\<lparr>PPID := b\<rparr>) = node_ok cap pid p"
  "node_ok cap pid (p\<lparr>BinaryPath := c\<rparr>) = node_ok cap pid p"
  "node_ok cap pid (p\<lparr>IsEnriched := f\<rparr>) = node_ok cap pid p"
  "node_ok cap pid (p\<lparr>MemoryUsage := m\<rparr>) = node_ok cap pid p"
  "node_ok cap pid (p\<lparr>CpuUsage := u\<rparr>) = node_ok cap pid p"
  by (simp_all add: node_ok_def)

lemma applyMetadata_ok: "tree_ok t \<Longrightarrow> tree_ok (applyMetadata pid comm ppid bin t)"
  by (auto simp: applyMetadata_def intro!: linkChild_ok tree_ok_setProc dest: tree_ok_getProc
      split: option.splits)

lemma applyConnection_ok: "tree_ok t \<Longrightarrow> tree_ok (applyConnection pid key d t)"
  by (auto simp: applyConnection_def intro!: tree_ok_setProc tree_ok_setGhost node_ok_enrichEffect
      dest: tree_ok_getProc tree_ok_getGhost split: option.splits)

lemma markEnriched_ok: "tree_ok t \<Longrightarrow> tree_ok (markEnriched pid t)"
  by (auto simp: markEnriched_def intro!: tree_ok_setProc dest: tree_ok_getProc split: option.splits)

lemma node_ok_same_but_metrics: "same_but_metrics p p' \<Longrightarrow> node_ok cap pid p' = node_ok cap pid p"
  unfolding same_but_metrics_def by (metis node_ok_fields(5,6))

lemma RefreshMetrics_ok: "tree_ok t \<Longrightarrow> tree_ok (fst (RefreshMetrics rnd fs now (t, prev)))"
proof -
  assume t: "tree_ok t"
  obtain t' prev' where r: "RefreshMetrics rnd fs now (t, prev) = (t', prev')"
    by (cases "RefreshMetrics rnd fs now (t, prev)")
  then have frame: "MaxEffectsPerProcess t' = MaxEffectsPerProcess t" "Ghosts t' = Ghosts t"
    by (auto simp: RefreshMetrics_def Let_def split: prod.splits)
  obtain procs prev1 where a: "refreshAll rnd fs (ProcPath t) now (ByPID t) prev = (procs, prev1)"
    by (cases "refreshAll rnd fs (ProcPath t) now (ByPID t) prev")
  with r have b: "ByPID t' = procs" by (auto simp: RefreshMetrics_def)
  note keys = refreshAll_keys [OF a]
  have l: "list_all2 entry_but_metrics (ByPID t) procs" by (rule refreshAll_frame [OF a])
  have "node_ok (MaxEffectsPerProcess t) pid p'" if "(pid, p') \<in> set procs" for pid p'
  proof -
    from that l obtain p where "(pid, p) \<in> set (ByPID t)" and "same_but_metrics p p'"
      by (force simp: list_all2_conv_all_nth in_set_conv_nth entry_but_metrics_def)
    with t show ?thesis
      by (auto simp: tree_ok_def table_ok_def node_ok_same_but_metrics)
  qed
  with t keys b frame r show ?thesis by (auto simp: tree_ok_def table_ok_def wf_map_def)
qed

lemma discoverEntry_ok: "tree_ok t \<Longrightarrow> tree_ok (discoverEntry fs now x t)"
  by (cases x) (auto simp: discoverEntry_def Let_def intro!: linkChild_ok tree_ok_setProc
      split: prod.splits option.splits)

lemma DiscoverExistingProcesses_ok: "tree_ok t \<Longrightarrow> tree_ok (DiscoverExistingProcesses fs now t)"
proof -
  have "tree_ok t \<Longrightarrow> tree_ok (fold (discoverEntry fs now) es t)" for es t
    by (induction es arbitrary: t) (auto intro: discoverEntry_ok)
  then show "tree_ok t \<Longrightarrow> tree_ok (DiscoverExistingProcesses fs now t)"
    by (auto simp: DiscoverExistingProcesses_def split: option.splits)
qed

lemmas tree_ops_ok = HandleEvent_ok evictGhosts_ok applyMetadata_ok applyConnection_ok
  markEnriched_ok RefreshMetrics_ok DiscoverExistingProcesses_ok

interpretation tree: invariant_system apply_op tree_ok
proof
  fix t op
  assume "tree_ok t"
  then show "tree_ok (apply_op op t)" by (cases op) (simp_all add: tree_ops_ok)
qed

lemma NewProcessTree_ok: "tree_ok (NewProcessTree cfg)"
  by (simp add: tree_ok_def NewProcessTree_def)

lemma apply_op_cap [simp]: "MaxEffectsPerProcess (apply_op op t) = MaxEffectsPerProcess t"
proof -
  have link: "MaxEffectsPerProcess (linkChild a b t) = MaxEffectsPerProcess t" for a b t
    by (simp add: linkChild_def split: option.splits)
  have get: "getOrCreateProc now e t = (t1, p) \<Longrightarrow> MaxEffectsPerProcess t1 = MaxEffectsPerProcess t"
    for now e t1 p
    by (auto simp: getOrCreateProc_def Let_def split: option.splits)
  have disc: "MaxEffectsPerProcess (discoverEntry fs now x t) = MaxEffectsPerProcess t" for fs now x t
    by (cases x) (auto simp: discoverEntry_def Let_def link split: prod.splits option.splits)
  have discs: "MaxEffectsPerProcess (fold (discoverEntry fs now) es t) = MaxEffectsPerProcess t"
    for fs now es t by (induction es arbitrary: t) (auto simp: disc)
  show ?thesis
    by (cases op)
      (auto simp: HandleEvent.simps handleExec_def handleOpen_def handleExit_def handleConnect_def
        evictGhosts_def applyMetadata_def applyConnection_def markEnriched_def RefreshMetrics_def
        DiscoverExistingProcesses_def Let_def link discs setGhost_def
        split: EventKind.splits option.splits prod.splits dest: get)
qed

lemma fold_apply_op_cap [simp]:
  "MaxEffectsPerProcess (fold apply_op ops t) = MaxEffectsPerProcess t"
  by (induction ops arbitrary: t) auto

text \<open>C2: after any interleaving of the goroutines' steps the tree is well formed.\<close>

theorem reachable_tree_ok: "tree_ok (fold apply_op ops (NewProcessTree cfg))"
  by (rule tree.run_inv [OF NewProcessTree_ok])

text \<open>C7: no process ever holds more effects than the configured limit.\<close>

theorem effects_never_exceed_limit:
  assumes "map_of (ByPID (fold apply_op ops (NewProcessTree cfg))) pid = Some p
    \<or> map_of (Ghosts (fold apply_op ops (NewProcessTree cfg))) pid = Some p"
  shows "int (length (Effects p)) \<le> max 0 (cfgMaxEffects cfg)"
proof -
  let ?t = "fold apply_op ops (NewProcessTree cfg)"
  have "tree_ok ?t" by (rule tree.run_inv [OF NewProcessTree_ok])
  with assms have "node_ok (MaxEffectsPerProcess ?t) pid p"
    by (auto dest: tree_ok_getProc tree_ok_getGhost)
  then show ?thesis by (simp add: node_ok_def NewProcessTree_def)
qed

lemma effects_never_exceed_limit_witness:
  "int (length (Effects (newNode 42 (PathStr (sample_event EventExec 42 ''/bin/sh''))
     (CommStr (sample_event EventExec 42 ''/bin/sh'')) 7))) \<le> max 0 5"
proof -
  let ?e = "sample_event EventExec 42 ''/bin/sh''" and ?cfg = "sample_cfg\<lparr>cfgIgnored := []\<rparr>"
  have "map_of (ByPID (fold apply_op [OpEvent (\<lambda>_. 7) ?e] (NewProcessTree ?cfg))) 42
      = Some (newNode 42 (PathStr ?e) (CommStr ?e) 7)"
    by (simp add: HandleEvent.simps handleExec_def NewProcessTree_def)
  from effects_never_exceed_limit [OF disjI1, OF this] show ?thesis by (simp add: sample_cfg_def)
qed

end
