(* ===== verification/Lifecycle.thy ===== *)
theory Lifecycle
  imports TreeInv
begin

text \<open>
  The life of one process in the tree. The abstract specification of the tree is a family of
  independent machines, one per PID: the state of a machine is what \<^verbatim>\<open>ByPID\<close> and \<^verbatim>\<open>Ghosts\<close> hold
  for its PID, and its steps are the kernel events of that PID. \<open>HandleEvent\<close> refines the family.
\<close>

section \<open>The machine of one PID\<close>

type_synonym pid_state = "ProcessNode option \<times> ProcessNode option"

definition view :: "u32 \<Rightarrow> ProcessTree \<Rightarrow> pid_state" where
  "view pid t = (map_of (ByPID t) pid, map_of (Ghosts t) pid)"

text \<open>The part of the tree that no handler changes.\<close>

record settings =
  maxEffects :: int
  netOn :: bool
  fileOn :: bool
  ignores :: "string \<Rightarrow> bool"

definition settings_of :: "ProcessTree \<Rightarrow> settings" where
  "settings_of t = \<lparr>maxEffects = MaxEffectsPerProcess t, netOn = CaptureNetwork t,
     fileOn = CaptureFileIO t, ignores = (\<lambda>c. map_of (IgnoredProcesses t) c \<noteq> None)\<rparr>"

text \<open>The effect is recorded unless the process is at its limit.\<close>

definition record_effect :: "int \<Rightarrow> string \<Rightarrow> Effect \<Rightarrow> ProcessNode \<Rightarrow> ProcessNode" where
  "record_effect cap k eff p =
     (if int (length (Effects p)) < cap then p\<lparr>Effects := go_put k eff (Effects p)\<rparr> else p)"

definition touch_file :: "int \<Rightarrow> (nat \<Rightarrow> gotime) \<Rightarrow> string \<Rightarrow> ProcessNode \<Rightarrow> ProcessNode" where
  "touch_file cap now path p =
     (case map_of (Effects p) path of
        Some eff \<Rightarrow> p\<lparr>Effects := go_put path (eff\<lparr>Count := Count eff + 1, Last := now 1\<rparr>) (Effects p)\<rparr>
      | None \<Rightarrow> record_effect cap path
          \<lparr>Kind = EffectOpen, Target = path, Count = 1, First = now 1, Last = now 2,
           Detail = Some (OpenDetail 0)\<rparr> p)"

definition touch_socket :: "int \<Rightarrow> (nat \<Rightarrow> gotime) \<Rightarrow> ProcessNode \<Rightarrow> ProcessNode" where
  "touch_socket cap now p =
     (let key = connect_key (PID p) (now 1) in
      record_effect cap key
        \<lparr>Kind = EffectConnect, Target = key, Count = 1, First = now 2, Last = now 3,
         Detail = Some (ConnDetail emptyConnect)\<rparr> p)"

definition live_or_new :: "(nat \<Rightarrow> gotime) \<Rightarrow> Event \<Rightarrow> pid_state \<Rightarrow> ProcessNode" where
  "live_or_new now e s = (case fst s of Some p \<Rightarrow> p | None \<Rightarrow> newNode (Pid e) [] (CommStr e) (now 0))"

fun pid_step :: "settings \<Rightarrow> (nat \<Rightarrow> gotime) \<Rightarrow> Event \<Rightarrow> pid_state \<Rightarrow> pid_state" where
  "pid_step c now e s =
     (case Type e of
        EventExec \<Rightarrow>
          if ignores c (CommStr e) then s
          else (Some (newNode (Pid e) (PathStr e) (CommStr e) (now 0)), snd s)
      | EventOpen \<Rightarrow>
          if fileOn c then (Some (touch_file (maxEffects c) now (PathStr e) (live_or_new now e s)), snd s)
          else s
      | EventExit \<Rightarrow>
          (case fst s of None \<Rightarrow> s | Some p \<Rightarrow> (None, Some (p\<lparr>EndTimestamp := now 0\<rparr>)))
      | EventConnect \<Rightarrow>
          if netOn c then (Some (touch_socket (maxEffects c) now (live_or_new now e s)), snd s) else s
      | EventOther _ \<Rightarrow> s)"

lemma settings_HandleEvent [simp]: "settings_of (HandleEvent now e t) = settings_of t"
  by (auto simp: settings_of_def HandleEvent.simps handleExec_def handleOpen_def handleExit_def
      handleConnect_def getOrCreateProc_def setProc_def Let_def
      split: EventKind.splits option.splits prod.splits)

lemma view_setProc: "view pid (setProc q p t) = (if pid = q then (Some p, snd (view pid t)) else view pid t)"
  by (simp add: view_def)

lemma view_getOrCreateProc:
  assumes "getOrCreateProc now e t = (t1, p)"
  shows "p = live_or_new now e (view (Pid e) t)"
    and "view pid t1 = (if pid = Pid e then (Some p, snd (view pid t)) else view pid t)"
    and "settings_of t1 = settings_of t"
  using assms
  by (auto simp: getOrCreateProc_def live_or_new_def view_def settings_of_def Let_def
      split: option.splits)

lemma view_handleOpen:
  "view pid (handleOpen now e t) =
   (if pid = Pid e
    then (Some (touch_file (MaxEffectsPerProcess t) now (PathStr e) (live_or_new now e (view pid t))),
          snd (view pid t))
    else view pid t)"
proof -
  obtain t1 p where g: "getOrCreateProc now e t = (t1, p)" by (cases "getOrCreateProc now e t")
  note v = view_getOrCreateProc [OF g]
  have "MaxEffectsPerProcess t1 = MaxEffectsPerProcess t"
    using v(3) by (simp add: settings_of_def)
  with g v(1,2) show ?thesis
    by (auto simp: handleOpen_def Let_def view_setProc touch_file_def record_effect_def
        split: option.splits)
qed

lemma PID_live_or_new:
  "tree_ok t \<Longrightarrow> PID (live_or_new now e (view (Pid e) t)) = Pid e"
  by (auto simp: live_or_new_def view_def newNode_def node_ok_def dest: tree_ok_getProc
      split: option.splits)

lemma view_handleConnect:
  assumes "tree_ok t"
  shows "view pid (handleConnect now e t) =
   (if pid = Pid e
    then (Some (touch_socket (MaxEffectsPerProcess t) now (live_or_new now e (view pid t))),
          snd (view pid t))
    else view pid t)"
proof -
  obtain t1 p where g: "getOrCreateProc now e t = (t1, p)" by (cases "getOrCreateProc now e t")
  note v = view_getOrCreateProc [OF g]
  have "MaxEffectsPerProcess t1 = MaxEffectsPerProcess t"
    using v(3) by (simp add: settings_of_def)
  moreover have "PID p = Pid e" using PID_live_or_new [OF assms] v(1) by simp
  ultimately show ?thesis using g v(1,2)
    by (auto simp: handleConnect_def Let_def view_setProc touch_socket_def record_effect_def)
qed

lemma view_HandleEvent:
  assumes "tree_ok t"
  shows "view pid (HandleEvent now e t) =
    (if pid = Pid e then pid_step (settings_of t) now e (view pid t) else view pid t)"
proof (cases "Type e")
  case EventExec
  then show ?thesis
    by (simp add: HandleEvent.simps handleExec_def Let_def view_setProc settings_of_def)
next
  case EventOpen
  then show ?thesis by (simp add: HandleEvent.simps view_handleOpen settings_of_def)
next
  case EventExit
  then show ?thesis
    by (auto simp: HandleEvent.simps handleExit_def view_def split: option.splits)
next
  case EventConnect
  then show ?thesis by (simp add: HandleEvent.simps view_handleConnect [OF assms] settings_of_def)
qed (simp add: HandleEvent.simps)

definition HandleAll :: "((nat \<Rightarrow> gotime) \<times> Event) list \<Rightarrow> ProcessTree \<Rightarrow> ProcessTree" where
  "HandleAll = fold (\<lambda>(now, e). HandleEvent now e)"

lemma HandleAll_simps [simp]:
  "HandleAll [] t = t" "HandleAll ((now, e) # es) t = HandleAll es (HandleEvent now e t)"
  by (simp_all add: HandleAll_def)

lemma HandleAll_append [simp]: "HandleAll (es @ es') t = HandleAll es' (HandleAll es t)"
  by (simp add: HandleAll_def)

lemma HandleAll_ok: "tree_ok t \<Longrightarrow> tree_ok (HandleAll es t)"
  by (induction es arbitrary: t) (auto simp: HandleEvent_ok)

lemma settings_HandleAll [simp]: "settings_of (HandleAll es t) = settings_of t"
  by (induction es arbitrary: t) auto

lemma view_HandleAll:
  "tree_ok t \<Longrightarrow> view pid (HandleAll es t) =
   fold (\<lambda>(now, e). pid_step (settings_of t) now e) (filter (\<lambda>(_, e). Pid e = pid) es) (view pid t)"
proof (induction es arbitrary: t)
  case (Cons x es)
  obtain now e where x: "x = (now, e)" by (cases x)
  show ?case
    using Cons.IH [OF HandleEvent_ok [OF Cons.prems], of now e] view_HandleEvent [OF Cons.prems, of pid now e]
    by (simp add: x del: pid_step.simps)
qed simp

text \<open>
  C1: what the tree holds for a PID after any sequence of kernel events is what the machine of that PID
  computes from its own events; the events of other processes, and how they interleave, do not matter.
\<close>

theorem HandleEvent_refines_pid_machines:
  "view pid (HandleAll es (NewProcessTree cfg)) =
   fold (\<lambda>(now, e). pid_step (settings_of (NewProcessTree cfg)) now e)
     (filter (\<lambda>(_, e). Pid e = pid) es) (None, None)"
  using view_HandleAll [OF NewProcessTree_ok, of pid es cfg]
  by (simp add: view_def NewProcessTree_def)


section \<open>Counting file accesses\<close>

text \<open>The opens of a path by a process; the process neither execs nor exits meanwhile.\<close>

definition opens :: "u32 \<Rightarrow> string \<Rightarrow> Event \<Rightarrow> bool" where
  "opens pid path e \<longleftrightarrow> Pid e = pid \<and> Type e = EventOpen \<and> PathStr e = path"

definition keeps_running :: "u32 \<Rightarrow> Event \<Rightarrow> bool" where
  "keeps_running pid e \<longleftrightarrow> Pid e = pid \<longrightarrow> Type e \<noteq> EventExec \<and> Type e \<noteq> EventExit"

definition has_effect :: "string \<Rightarrow> u64 \<Rightarrow> gotime \<Rightarrow> pid_state \<Rightarrow> bool" where
  "has_effect path n t0 s \<longleftrightarrow> (\<exists>p eff. fst s = Some p \<and> map_of (Effects p) path = Some eff
      \<and> Count eff = n \<and> First eff = t0)"

lemma connect_key_prefix: "HasPrefix (connect_key pid t) ''connect:''"
  by (simp add: connect_key_def HasPrefix_def)

lemma pid_step_count:
  assumes "has_effect path n t0 s" and "\<not> HasPrefix path ''connect:''" and "fileOn c"
    and "Pid e = pid" and "keeps_running pid e"
  shows "has_effect path (if opens pid path e then n + 1 else n) t0 (pid_step c now e s)"
proof -
  obtain p eff where p: "fst s = Some p" and eff: "map_of (Effects p) path = Some eff"
      "Count eff = n" "First eff = t0"
    using assms(1) by (auto simp: has_effect_def)
  have nk: "connect_key q t \<noteq> path" for q t
    using connect_key_prefix [of q t] assms(2) by auto
  show ?thesis
  proof (cases "Type e")
    case EventOpen
    then show ?thesis using p eff assms
      by (auto simp: has_effect_def opens_def live_or_new_def touch_file_def record_effect_def
          split: option.splits)
  next
    case EventConnect
    then show ?thesis using p eff assms nk [of "PID p" "now 1"]
      by (auto simp: has_effect_def opens_def live_or_new_def touch_socket_def record_effect_def Let_def)
  qed (use p eff assms in \<open>auto simp: has_effect_def opens_def keeps_running_def\<close>)
qed

lemma pid_steps_count:
  assumes "\<not> HasPrefix path ''connect:''" and "fileOn c"
  shows "has_effect path n t0 s \<Longrightarrow> \<forall>(_, e) \<in> set es. Pid e = pid \<and> keeps_running pid e \<Longrightarrow>
    has_effect path (n + of_nat (length (filter (\<lambda>(_, e). opens pid path e) es))) t0
      (fold (\<lambda>(now, e). pid_step c now e) es s)"
proof (induction es arbitrary: n s)
  case (Cons x es)
  obtain now e where x: "x = (now, e)" by (cases x)
  have "has_effect path (if opens pid path e then n + 1 else n) t0 (pid_step c now e s)"
    using Cons.prems assms x by (intro pid_step_count) auto
  from Cons.IH [OF this] Cons.prems(2) show ?case
    by (auto simp: x algebra_simps simp del: pid_step.simps)
qed simp

text \<open>
  once a file is among the effects of a running process, its count grows by exactly one with each
  open of that path by that process (modulo 2^64) and its first-seen time stays, however the events
  of other processes and other paths interleave.
\<close>

theorem opens_counted:
  assumes "map_of (ByPID (HandleAll es0 (NewProcessTree cfg))) pid = Some p"
    and "map_of (Effects p) path = Some eff"
    and "\<not> HasPrefix path ''connect:''" and "cfgCaptureFileIO cfg"
    and "\<forall>(_, e) \<in> set es. keeps_running pid e"
  shows "\<exists>p' eff'. map_of (ByPID (HandleAll (es0 @ es) (NewProcessTree cfg))) pid = Some p'
    \<and> map_of (Effects p') path = Some eff' \<and> First eff' = First eff
    \<and> Count eff' = Count eff + of_nat (length (filter (\<lambda>(_, e). opens pid path e) es))"
proof -
  let ?t = "HandleAll es0 (NewProcessTree cfg)" and ?es = "filter (\<lambda>(_, e). Pid e = pid) es"
  have ok: "tree_ok ?t" by (rule HandleAll_ok [OF NewProcessTree_ok])
  have on: "fileOn (settings_of ?t)"
    unfolding settings_HandleAll using assms(4) by (simp add: settings_of_def NewProcessTree_def)
  have "has_effect path (Count eff) (First eff) (view pid ?t)"
    using assms(1,2) by (auto simp: has_effect_def view_def)
  then have "has_effect path (Count eff + of_nat (length (filter (\<lambda>(_, e). opens pid path e) ?es)))
      (First eff) (view pid (HandleAll es ?t))"
    unfolding view_HandleAll [OF ok] using assms(3,5) on by (intro pid_steps_count) auto
  moreover have "filter (\<lambda>(_, e). opens pid path e) ?es = filter (\<lambda>(_, e). opens pid path e) es"
    by (auto simp: opens_def intro: filter_cong)
  ultimately show ?thesis by (auto simp: has_effect_def view_def)
qed

definition open_cfg :: tree_config where
  "open_cfg = sample_cfg\<lparr>cfgIgnored := []\<rparr>"

abbreviation open_ev :: "u32 \<Rightarrow> Event" where
  "open_ev pid \<equiv> sample_event EventOpen pid ''/etc/hosts''"

definition hosts_effect :: Effect where
  "hosts_effect = \<lparr>Kind = EffectOpen, Target = PathStr (open_ev 42), Count = 1, First = 5, Last = 5,
     Detail = Some (OpenDetail 0)\<rparr>"

lemma first_open:
  "map_of (ByPID (HandleAll [(\<lambda>_. 5, open_ev 42)] (NewProcessTree open_cfg))) 42 =
   Some ((newNode 42 [] (CommStr (open_ev 42)) 5)\<lparr>Effects := [(''/etc/hosts'', hosts_effect)]\<rparr>)"
  by (simp add: HandleEvent.simps handleOpen_def getOrCreateProc_def NewProcessTree_def open_cfg_def
      sample_cfg_def newNode_def hosts_effect_def Let_def)

lemma opens_counted_witness:
  "\<exists>p' eff'. map_of (ByPID (HandleAll ([(\<lambda>_. 5, open_ev 42)] @
      [(\<lambda>_. 6, open_ev 42), (\<lambda>_. 7, open_ev 43), (\<lambda>_. 8, open_ev 42)]) (NewProcessTree open_cfg))) 42 = Some p'
    \<and> map_of (Effects p') ''/etc/hosts'' = Some eff' \<and> First eff' = 5 \<and> Count eff' = 3"
  using opens_counted [OF first_open, of "''/etc/hosts''" hosts_effect
      "[(\<lambda>_. 6, open_ev 42), (\<lambda>_. 7, open_ev 43), (\<lambda>_. 8, open_ev 42)]"]
  by (simp add: hosts_effect_def open_cfg_def sample_cfg_def keeps_running_def opens_def)

section \<open>Exit and eviction\<close>

text \<open>Another exit of the same PID, and an eviction tick that finds a ghost of that end too old.\<close>

fun exits_again :: "u32 \<Rightarrow> tree_op \<Rightarrow> bool" where
  "exits_again pid (OpEvent now e) \<longleftrightarrow> Type e = EventExit \<and> Pid e = pid"
| "exits_again pid _ \<longleftrightarrow> False"

fun expires :: "u32 \<Rightarrow> gotime \<Rightarrow> tree_op \<Rightarrow> bool" where
  "expires pid ended (OpEvict clk maxAge) \<longleftrightarrow> maxAge < timeSub (clk pid) ended"
| "expires pid ended _ \<longleftrightarrow> False"

text \<open>Only enrichment changes a ghost, and of it only the effects.\<close>

definition same_ghost :: "ProcessNode \<Rightarrow> ProcessNode \<Rightarrow> bool" where
  "same_ghost g g' \<longleftrightarrow> g'\<lparr>Effects := Effects g\<rparr> = g"

lemma same_ghost_refl [simp]: "same_ghost g g"
  by (simp add: same_ghost_def)

lemma same_ghost_trans: "same_ghost g g' \<Longrightarrow> same_ghost g' g'' \<Longrightarrow> same_ghost g g''"
  by (cases g; cases g'; cases g'') (simp add: same_ghost_def)

lemma same_ghost_end: "same_ghost g g' \<Longrightarrow> EndTimestamp g' = EndTimestamp g"
  by (cases g; cases g') (simp add: same_ghost_def)

lemma same_ghost_enrich: "same_ghost g (enrichEffect key d g)"
  by (simp add: same_ghost_def enrichEffect_def Let_def split: option.splits)

lemma Ghosts_simps [simp]:
  "Ghosts (setProc pid p t) = Ghosts t" "Ghosts (linkChild a b t) = Ghosts t" "Ghosts (markEnriched pid t) = Ghosts t"
  "Ghosts (applyMetadata pid c q bin t) = Ghosts t" "Ghosts (fst (getOrCreateProc now e t)) = Ghosts t"
  by (simp_all add: setProc_def linkChild_def markEnriched_def applyMetadata_def getOrCreateProc_def Let_def split: option.splits)

lemma Ghosts_discover [simp]: "Ghosts (DiscoverExistingProcesses fs now t) = Ghosts t"
proof -
  have "Ghosts (discoverEntry fs now x t) = Ghosts t" for x t
    by (cases x) (simp add: discoverEntry_def Let_def split: prod.splits option.splits)
  then have "Ghosts (fold (discoverEntry fs now) es t) = Ghosts t" for es t
    by (induction es arbitrary: t) simp_all
  then show ?thesis by (simp add: DiscoverExistingProcesses_def split: option.splits)
qed

lemma Ghosts_event:
  "Ghosts (HandleEvent now e t) =
    (if Type e = EventExit then
       case map_of (ByPID t) (Pid e) of None \<Rightarrow> Ghosts t | Some p \<Rightarrow> go_put (Pid e) (p\<lparr>EndTimestamp := now 0\<rparr>) (Ghosts t)
     else Ghosts t)"
proof -
  obtain t1 p where g: "getOrCreateProc now e t = (t1, p)" by (metis prod.exhaust)
  have "Ghosts t1 = Ghosts t" using Ghosts_simps(5) [of now e t] unfolding g by simp
  with g show ?thesis
    by (auto simp: HandleEvent.simps handleExec_def handleOpen_def handleExit_def handleConnect_def Let_def
        split: EventKind.splits option.splits)
qed

lemma ghost_step:
  assumes "tree_ok t" and "\<not> exits_again pid op"
  shows "case map_of (Ghosts t) pid of
      None \<Rightarrow> map_of (Ghosts (apply_op op t)) pid = None
    | Some g \<Rightarrow> (if expires pid (EndTimestamp g) op then map_of (Ghosts (apply_op op t)) pid = None
        else \<exists>g'. map_of (Ghosts (apply_op op t)) pid = Some g' \<and> same_ghost g g')"
proof (cases op)
  case (OpEvent now e)
  with assms(2) show ?thesis by (auto simp: Ghosts_event simp del: HandleEvent.simps split: option.splits)
next
  case (OpEvict clk maxAge)
  have "wf_map (Ghosts t)" using assms(1) by (simp add: tree_ok_def table_ok_def)
  with OpEvict show ?thesis by (auto simp: evictGhosts_def map_of_filter_eq split: option.splits)
next
  case (OpConnection q key d)
  then show ?thesis
    by (auto simp: applyConnection_def setGhost_def same_ghost_enrich split: option.splits)
qed (auto simp: RefreshMetrics_def Let_def split: option.splits prod.splits)



section \<open>Enrichment of connections\<close>

definition sent :: "Effect \<Rightarrow> u64" where
  "sent e = (case Detail e of Some (ConnDetail d) \<Rightarrow> BytesSent d | _ \<Rightarrow> 0)"

definition total_sent :: "ProcessNode \<Rightarrow> u64" where
  "total_sent p = sum_list (map (sent \<circ> snd) (Effects p))"

lemma sum_go_put_new: "map_of m k = None \<Longrightarrow>
    sum_list (map f (go_put k v m)) = sum_list (map f m) + (f (k, v) :: u64)"
  by (induction m) (auto simp: algebra_simps)

lemma sum_go_put_old: "wf_map m \<Longrightarrow> map_of m k = Some w \<Longrightarrow>
    sum_list (map f (go_put k v m)) = sum_list (map f m) - f (k, w) + (f (k, v) :: u64)"
  by (induction m) (auto simp: wf_map_def algebra_simps split: if_splits)

lemma sum_go_del: "wf_map m \<Longrightarrow> map_of m k = Some w \<Longrightarrow>
    sum_list (map f (go_del k m)) = sum_list (map f m) - (f (k, w) :: u64)"
proof (induction m)
  case (Cons x m)
  have "fst x = k \<Longrightarrow> go_del k m = m"
    using Cons.prems(1) unfolding wf_map_def by (auto intro!: delete_id)
  with Cons show ?case by (auto simp: wf_map_def algebra_simps split: if_splits)
qed simp

lemma sent_merge: "sent (merge_detail d e) = sent e + BytesSent d"
  by (auto simp: sent_def merge_detail_def split: option.splits EffectDetail.splits)

lemma sent_target [simp]: "sent (e\<lparr>Target := k\<rparr>) = sent e"
  by (simp add: sent_def)

text \<open>
  enriching a connection adds its bytes to what the process has sent and loses none of the bytes
  seen before, whether the entry is moved to its address or stays, as long as no other entry has that
  address already.
\<close>

theorem enrichEffect_conserves_bytes:
  assumes "node_ok cap pid p" and "map_of (Effects p) key = Some e"
    and "enriched_key d = key \<or> map_of (Effects p) (enriched_key d) = None"
  shows "total_sent (enrichEffect key d p) = total_sent p + BytesSent d"
proof -
  have wf: "wf_map (Effects p)" using assms(1) by (simp add: node_ok_def)
  have gone: "map_of (go_del key (Effects p)) (enriched_key d) = None"
    using assms(3) by auto
  show ?thesis
    using assms(2) gone wf
    by (simp add: enrichEffect_def Let_def total_sent_def sum_go_put_new sum_go_del sum_go_put_old
        sent_merge)
qed

definition pending :: "string \<Rightarrow> u64 \<Rightarrow> Effect" where
  "pending k n = \<lparr>Kind = EffectConnect, Target = k, Count = n, First = 1, Last = 2,
     Detail = Some (ConnDetail emptyConnect)\<rparr>"

definition web :: ConnectDetail where
  "web = emptyConnect\<lparr>IP := ''93.184.216.34'', Port := 443, BytesSent := 7\<rparr>"

definition curl :: ProcessNode where
  "curl = (newNode 42 ''/bin/curl'' ''curl'' 0)\<lparr>Effects :=
     [(''connect:42:1'', pending ''connect:42:1'' 1), (''connect:42:2'', pending ''connect:42:2'' 1)]\<rparr>"

lemma enriched_key_web: "enriched_key web = ''93.184.216.34:443''"
  by (simp add: enriched_key_def web_def emptyConnect_def Let_def go_strings)

lemma enrichEffect_conserves_bytes_witness:
  "total_sent (enrichEffect ''connect:42:1'' web curl) = 7"
proof -
  have "node_ok 5 42 curl"
    by (simp add: node_ok_def curl_def newNode_def pending_def wf_map_def)
  moreover have "map_of (Effects curl) ''connect:42:1'' = Some (pending ''connect:42:1'' 1)"
    by (simp add: curl_def)
  ultimately have "total_sent (enrichEffect ''connect:42:1'' web curl) = total_sent curl + BytesSent web"
    by (rule enrichEffect_conserves_bytes) (simp add: enriched_key_web curl_def)
  then show ?thesis
    by (simp add: total_sent_def curl_def sent_def pending_def emptyConnect_def web_def)
qed

text \<open>
  when a process has two captured connections to one address, moving the second to its address
  overwrites the first: its count and its bytes are gone.
\<close>

theorem second_connection_replaces_first:
  assumes "wf_map (Effects p)" and "k1 \<noteq> k2" and "HasPrefix k1 ''connect:''" "HasPrefix k2 ''connect:''"
    and "enriched_key d \<notin> {k1, k2}" and "IP d \<noteq> []"
    and "map_of (Effects p) k1 = Some e1" and "map_of (Effects p) k2 = Some e2"
  defines "p' \<equiv> enrichEffect k2 d (enrichEffect k1 d p)"
  shows "map_of (Effects p') =
    (map_of (Effects p))(k1 := None, k2 := None,
       enriched_key d \<mapsto> (merge_detail d e2)\<lparr>Target := enriched_key d\<rparr>)"
  using assms by (auto simp: enrichEffect_def Let_def fun_eq_iff)

lemma second_connection_replaces_first_witness:
  "map_of (Effects (enrichEffect ''connect:42:2'' web (enrichEffect ''connect:42:1'' web curl)))
     ''93.184.216.34:443''
   = Some ((merge_detail web (pending ''connect:42:2'' 1))\<lparr>Target := ''93.184.216.34:443''\<rparr>)"
proof -
  have "wf_map (Effects curl)" by (simp add: curl_def wf_map_def)
  moreover have "map_of (Effects curl) ''connect:42:1'' = Some (pending ''connect:42:1'' 1)"
    "map_of (Effects curl) ''connect:42:2'' = Some (pending ''connect:42:2'' 1)" "IP web \<noteq> []"
    by (simp_all add: curl_def web_def)
  ultimately show ?thesis
    using second_connection_replaces_first [of curl "''connect:42:1''" "''connect:42:2''" web
      "pending ''connect:42:1'' 1" "pending ''connect:42:2'' 1"]
    by (simp add: enriched_key_web)
qed

section \<open>Enrichment of processes\<close>

lemma linkChild_lookup:
  assumes "tree_ok t"
  shows "map_of (ByPID (linkChild ppid pid t)) q =
    (case map_of (ByPID t) q of None \<Rightarrow> None
     | Some p \<Rightarrow> Some (if q = ppid \<and> 0 < ppid \<and> pid \<notin> set (ChildrenPID p)
                         then p\<lparr>ChildrenPID := ChildrenPID p @ [pid]\<rparr> else p))"
  by (auto simp: linkChild_def split: option.splits)

text \<open>
  C21: enriching a process stores what \<^verbatim>\<open>/proc\<close> says of it, keeps its effects and its times, and
  lists it exactly once among the children of its parent, whatever the other goroutines did to the
  tree while \<^verbatim>\<open>/proc\<close> was read, as long as the process is still there.
\<close>

theorem EnrichProcessMetadata_result:
  fixes fs :: procfs
  assumes "tree_ok (gap t)" and "map_of (ByPID t) pid = Some p" and "map_of (ByPID (gap t)) pid = Some q"
  defines "t' \<equiv> EnrichProcessMetadata fs gap pid t"
  shows "\<exists>q'. map_of (ByPID t') pid = Some q' \<and> Comm q' = readCmdline fs (ProcPath t) pid (Comm p)
    \<and> PPID q' = readPPID fs (ProcPath t) pid \<and> BinaryPath q' = readBinaryPath fs (ProcPath t) pid
    \<and> Effects q' = Effects q \<and> StartTimestamp q' = StartTimestamp q
    \<and> (0 < PPID q' \<longrightarrow> (\<forall>par. map_of (ByPID t') (PPID q') = Some par \<longrightarrow>
          count_list (ChildrenPID par) pid = 1))"
proof -
  let ?comm = "readCmdline fs (ProcPath t) pid (Comm p)" and ?ppid = "readPPID fs (ProcPath t) pid"
    and ?bin = "readBinaryPath fs (ProcPath t) pid"
  let ?q = "q\<lparr>Comm := ?comm, PPID := ?ppid, BinaryPath := ?bin\<rparr>"
  let ?t1 = "setProc pid ?q (gap t)"
  have ok: "tree_ok ?t1"
    using assms(1,3) by (intro tree_ok_setProc) (auto dest: tree_ok_getProc)
  have t': "t' = linkChild ?ppid pid ?t1"
    using assms(2,3) by (simp add: t'_def EnrichProcessMetadata_def applyMetadata_def Let_def)
  have once: "distinct cs \<Longrightarrow> pid \<in> set cs \<Longrightarrow> count_list cs pid = 1" for cs
    by (simp add: count_list_eq_length_filter distinct_length_filter)
  have kids: "count_list (ChildrenPID par) pid = 1"
    if "0 < ?ppid" "map_of (ByPID t') ?ppid = Some par" for par
  proof (rule once)
    have "tree_ok t'" unfolding t' by (rule linkChild_ok [OF ok])
    then show "distinct (ChildrenPID par)"
      using that(2) by (auto simp: node_ok_def dest: tree_ok_getProc)
    show "pid \<in> set (ChildrenPID par)"
      using that unfolding t' linkChild_lookup [OF ok] by (auto split: option.splits if_splits)
  qed
  let ?q' = "if pid = ?ppid \<and> 0 < ?ppid \<and> pid \<notin> set (ChildrenPID ?q)
             then ?q\<lparr>ChildrenPID := ChildrenPID ?q @ [pid]\<rparr> else ?q"
  have "map_of (ByPID t') pid = Some ?q'" unfolding t' linkChild_lookup [OF ok] by simp
  moreover have "PPID ?q' = ?ppid" "Comm ?q' = ?comm" "BinaryPath ?q' = ?bin"
    "Effects ?q' = Effects q" "StartTimestamp ?q' = StartTimestamp q" by simp_all
  ultimately show ?thesis using kids by metis
qed

definition status_fs :: procfs where
  "status_fs = \<lparr>readFile = (\<lambda>p. if p = ''/proc/42/status'' then Some ''PPid: 42'' else None),
     readLink = (\<lambda>_. None), readDir = (\<lambda>_. None)\<rparr>"

lemma EnrichProcessMetadata_result_witness:
  "\<exists>q'. map_of (ByPID (EnrichProcessMetadata status_fs id 42 sample_tree)) 42 = Some q'
    \<and> PPID q' = readPPID status_fs ''/proc'' 42 \<and> Comm q' = ''sh''"
proof -
  have t: "tree_ok (id sample_tree)"
    unfolding sample_tree_def id_apply by (intro tree_ok_setProc NewProcessTree_ok) simp
  have p: "map_of (ByPID sample_tree) 42 = Some (newNode 42 ''/bin/sh'' ''sh'' 0)"
    by (simp add: sample_tree_def)
  have q: "map_of (ByPID (id sample_tree)) 42 = Some (newNode 42 ''/bin/sh'' ''sh'' 0)"
    using p by simp
  have "ProcPath sample_tree = ''/proc''"
    by (simp add: sample_tree_def NewProcessTree_def sample_cfg_def)
  moreover have "readCmdline status_fs ''/proc'' 42 ''sh'' = ''sh''"
    by (simp add: readCmdline_def status_fs_def pid_path_def go_strings)
  ultimately show ?thesis
    using EnrichProcessMetadata_result [where gap = id, OF t p q, of status_fs] by (auto simp: newNode_def)
qed

section \<open>Processes the configuration ignores\<close>

text \<open>
  the list of ignored processes is checked on exec only: an open or a connect of an ignored
  command enters the process in the tree all the same.
\<close>

theorem ignored_process_tracked_on_open:
  assumes "CommStr e \<in> set (cfgIgnored cfg)" and "Type e = EventOpen" and "cfgCaptureFileIO cfg"
  shows "\<exists>p. map_of (ByPID (HandleEvent now e (NewProcessTree cfg))) (Pid e) = Some p
    \<and> Comm p = CommStr e"
proof -
  have "view (Pid e) (NewProcessTree cfg) = (None, None)"
    by (simp add: view_def NewProcessTree_def)
  moreover have "CaptureFileIO (NewProcessTree cfg)" using assms(3) by (simp add: NewProcessTree_def)
  ultimately show ?thesis
    using view_HandleEvent [OF NewProcessTree_ok, of "Pid e" now e cfg] assms(2)
    by (auto simp: settings_of_def live_or_new_def touch_file_def record_effect_def newNode_def
        view_def split: option.splits)
qed

lemma ignored_process_tracked_on_open_witness:
  "\<exists>p. map_of (ByPID (HandleEvent (\<lambda>_. 5) (open_ev 42) (NewProcessTree sample_cfg))) 42 = Some p
    \<and> Comm p = ''sh''"
proof -
  show ?thesis
    using ignored_process_tracked_on_open [of "open_ev 42" sample_cfg "\<lambda>_. 5"]
    by (simp add: sample_cfg_def)
qed

end
