(* ===== verification/Frozen.thy ===== *)
theory Frozen
  imports Lifecycle
begin

text \<open>
  \<^verbatim>\<open>TakeSnapshot\<close> (\<^verbatim>\<open>context/query.go\<close>): the copy of the live tree that all queries read. For a
  process not enriched yet it releases the lock, enriches the process and its connections, and
  takes the lock again: the other goroutines step in between. A \<open>visit\<close> is one iteration of
  the range over \<^verbatim>\<open>ByPID\<close>: the PID, the connection keys that the inner range over its effects
  delivers, in order, what the others do at each point where the lock is free, and whether the inner range,
  which holds no lock, advances while another goroutine is writing to the same map. That is fatal in Go: the
  runtime stops the whole program, which is the outcome \<open>None\<close>.
\<close>

record FrozenSnapshot =
  Timestamp :: gotime
  FByPID :: "(u32, ProcessNode) gomap"
  FGhosts :: "(u32, ProcessNode) gomap"
  FStracePath :: string

record visit =
  vPid :: u32
  vKeys :: "string list"
  vGap :: "nat \<Rightarrow> ProcessTree \<Rightarrow> ProcessTree"
  vClash :: "nat \<Rightarrow> bool"

type_synonym dns = "string \<Rightarrow> string list option"

text \<open>\<open>clash i\<close>: the range meets a writer on its way to the connection \<open>i\<close>, or after the last one to the end.\<close>

fun enrich_keys ::
  "procfs \<Rightarrow> dns \<Rightarrow> (nat \<Rightarrow> bool) \<Rightarrow> (nat \<Rightarrow> ProcessTree \<Rightarrow> ProcessTree) \<Rightarrow> u32 \<Rightarrow> string list \<Rightarrow>
   ProcessTree \<times> (string, string) gomap \<Rightarrow> (ProcessTree \<times> (string, string) gomap) option" where
  "enrich_keys fs dns clash gap pid [] s = (if clash 0 then None else Some s)"
| "enrich_keys fs dns clash gap pid (key # keys) s =
     (if clash 0 then None
      else enrich_keys fs dns (\<lambda>i. clash (Suc i)) (\<lambda>i. gap (Suc i)) pid keys
             (EnrichConnectionMetadata fs dns (gap 0) pid key None s))"

definition clone_node :: "ProcessNode \<Rightarrow> ProcessNode" where
  "clone_node n = (case Node_Clone (Some n) of Some c \<Rightarrow> c | None \<Rightarrow> n)"

type_synonym snap_state =
  "(ProcessTree \<times> (string, string) gomap) \<times> (u32, ProcessNode) gomap"

text \<open>One iteration: the enrichment of a process that is not enriched yet; then the copy, if the process is still there.\<close>

definition visited :: "procfs \<Rightarrow> dns \<Rightarrow> visit \<Rightarrow> ProcessTree \<times> (string, string) gomap \<Rightarrow> (ProcessTree \<times> (string, string) gomap) option" where
  "visited fs dns v = (\<lambda>(t, cache).
     case map_of (ByPID t) (vPid v) of
       None \<Rightarrow> Some (t, cache)
     | Some node \<Rightarrow>
         if IsEnriched node then Some (t, cache)
         else map_option (\<lambda>(t2, c2). (markEnriched (vPid v) t2, c2))
                (enrich_keys fs dns (vClash v) (\<lambda>i. vGap v (i + 2)) (vPid v) (vKeys v)
                   (EnrichProcessMetadata fs (vGap v 1) (vPid v) (vGap v 0 t), cache)))"

definition snap_visit :: "procfs \<Rightarrow> dns \<Rightarrow> visit \<Rightarrow> snap_state \<Rightarrow> snap_state option" where
  "snap_visit fs dns v = (\<lambda>(st, frozen).
     map_option
       (\<lambda>(t, cache).
          case map_of (ByPID t) (vPid v) of
            None \<Rightarrow> ((t, cache), frozen)
          | Some n \<Rightarrow> ((t, cache), go_put (vPid v) (clone_node n) frozen))
       (visited fs dns v st))"

fun snap_visits :: "procfs \<Rightarrow> dns \<Rightarrow> visit list \<Rightarrow> snap_state \<Rightarrow> snap_state option" where
  "snap_visits fs dns [] st = Some st"
| "snap_visits fs dns (v # vs) st = Option.bind (snap_visit fs dns v st) (snap_visits fs dns vs)"

definition TakeSnapshot ::
  "procfs \<Rightarrow> dns \<Rightarrow> gotime \<Rightarrow> visit list \<Rightarrow> ProcessTree \<times> (string, string) gomap \<Rightarrow>
   (FrozenSnapshot \<times> ProcessTree \<times> (string, string) gomap) option" where
  "TakeSnapshot fs dns now visits s =
     map_option
       (\<lambda>((t, cache), frozen).
          (\<lparr>Timestamp = now, FByPID = frozen,
            FGhosts = map (\<lambda>(pid, node). (pid, clone_node node)) (Ghosts t),
            FStracePath = StracePath t\<rparr>, t, cache))
       (snap_visits fs dns visits (s, []))"

section \<open>The snapshot is well formed\<close>

lemma clone_node_id: "wf_map (Effects n) \<Longrightarrow> clone_node n = n"
  by (simp add: clone_node_def Node_Clone_id)

lemma clone_node_ok: "node_ok cap pid n \<Longrightarrow> clone_node n = n"
  by (simp add: clone_node_id node_ok_def)

definition harmless :: "(ProcessTree \<Rightarrow> ProcessTree) \<Rightarrow> bool" where
  "harmless g \<longleftrightarrow> (\<forall>t. tree_ok t \<longrightarrow> tree_ok (g t) \<and> MaxEffectsPerProcess (g t) = MaxEffectsPerProcess t)"

lemma harmless_ops: "harmless (fold apply_op ops)"
  by (simp add: harmless_def tree.run_inv)

lemma harmless_id [simp]: "harmless id" "harmless (\<lambda>t. t)"
  by (simp_all add: harmless_def)

definition kept :: "int \<Rightarrow> ProcessTree \<Rightarrow> bool" where
  "kept cap t \<longleftrightarrow> tree_ok t \<and> MaxEffectsPerProcess t = cap"

lemma kept_harmless: "harmless g \<Longrightarrow> kept cap t \<Longrightarrow> kept cap (g t)"
  by (auto simp: harmless_def kept_def)

lemma kept_op: "kept cap t \<Longrightarrow> kept cap (apply_op op t)"
  by (simp add: kept_def tree.step_inv)

lemma kept_metadata: "harmless g \<Longrightarrow> kept cap t \<Longrightarrow> kept cap (EnrichProcessMetadata fs g pid t)"
  using kept_op [of cap "g t" "OpMetadata pid c p b" for c p b]
  by (auto simp: EnrichProcessMetadata_def Let_def dest: kept_harmless split: option.splits)

lemma kept_connection:
  "harmless g \<Longrightarrow> kept cap t \<Longrightarrow> kept cap (fst (EnrichConnectionMetadata fs dns g pid key d (t, cache)))"
  using kept_op [of cap "g t" "OpConnection pid key x" for x]
  by (auto simp: EnrichConnectionMetadata_def Let_def dest: kept_harmless
      split: option.splits prod.splits)

lemma kept_enrich_keys:
  "\<forall>i. harmless (gap i) \<Longrightarrow> kept cap t \<Longrightarrow> enrich_keys fs dns clash gap pid keys (t, cache) = Some (t', cache') \<Longrightarrow> kept cap t'"
proof (induction keys arbitrary: clash gap t cache)
  case (Cons key keys)
  obtain t1 c1 where s: "EnrichConnectionMetadata fs dns (gap 0) pid key None (t, cache) = (t1, c1)"
    by (cases "EnrichConnectionMetadata fs dns (gap 0) pid key None (t, cache)")
  have k: "kept cap t1" using kept_connection [of "gap 0" cap t fs dns pid key None cache] Cons.prems s by simp
  have r: "enrich_keys fs dns (\<lambda>i. clash (Suc i)) (\<lambda>i. gap (Suc i)) pid keys (t1, c1) = Some (t', cache')"
    using Cons.prems(3) s by (simp split: if_splits)
  show ?case using Cons.prems(1) by (intro Cons.IH [OF _ k r]) simp
qed (simp split: if_splits)

definition visit_ok :: "visit \<Rightarrow> bool" where
  "visit_ok v \<longleftrightarrow> (\<forall>i. harmless (vGap v i))"

lemma snap_visit_visited:
  "snap_visit fs dns v (st, frozen) =
     map_option (\<lambda>(t, cache). ((t, cache), case map_of (ByPID t) (vPid v) of
        None \<Rightarrow> frozen | Some n \<Rightarrow> go_put (vPid v) (clone_node n) frozen)) (visited fs dns v st)"
  by (cases "visited fs dns v st") (auto simp: snap_visit_def split: option.splits)

lemma visited_kept:
  assumes "visit_ok v" and "kept cap t" and "visited fs dns v (t, cache) = Some (t', cache')"
  shows "kept cap t'"
proof -
  have gaps: "harmless (vGap v i)" for i using assms(1) by (simp add: visit_ok_def)
  have "kept cap (EnrichProcessMetadata fs (vGap v 1) (vPid v) (vGap v 0 t))"
    by (intro kept_metadata kept_harmless [of "vGap v 0"] gaps assms(2))
  then have "kept cap t2"
    if "enrich_keys fs dns (vClash v) (\<lambda>i. vGap v (i + 2)) (vPid v) (vKeys v)
          (EnrichProcessMetadata fs (vGap v 1) (vPid v) (vGap v 0 t), cache) = Some (t2, c2)" for t2 c2
    using gaps by (intro kept_enrich_keys [OF _ _ that]) simp_all
  then show ?thesis
    using assms(2,3) kept_op [of cap _ "OpMarkEnriched (vPid v)"]
    by (auto simp: visited_def split: option.splits if_splits)
qed

lemma snap_visit_kept:
  assumes "visit_ok v" and "kept cap t" and "table_ok cap frozen"
    and "snap_visit fs dns v ((t, cache), frozen) = Some ((t', cache'), frozen')"
  shows "kept cap t' \<and> table_ok cap frozen'"
proof -
  from assms(4) have v: "visited fs dns v (t, cache) = Some (t', cache')"
    and f: "frozen' = (case map_of (ByPID t') (vPid v) of None \<Rightarrow> frozen | Some n \<Rightarrow> go_put (vPid v) (clone_node n) frozen)"
    by (auto simp: snap_visit_visited)
  have k: "kept cap t'" by (rule visited_kept [OF assms(1,2) v])
  then have "node_ok cap (vPid v) n" if "map_of (ByPID t') (vPid v) = Some n" for n
    using tree_ok_getProc [OF _ that] by (auto simp: kept_def)
  then show ?thesis using k assms(3) by (auto simp: f clone_node_ok table_ok_put split: option.splits)
qed

lemma snap_visits_kept:
  "\<forall>v \<in> set visits. visit_ok v \<Longrightarrow> kept cap t \<Longrightarrow> table_ok cap frozen \<Longrightarrow>
   snap_visits fs dns visits ((t, cache), frozen) = Some ((t', cache'), frozen') \<Longrightarrow>
   kept cap t' \<and> table_ok cap frozen'"
proof (induction visits arbitrary: t cache frozen)
  case (Cons v visits)
  then obtain t1 c1 f1 where s: "snap_visit fs dns v ((t, cache), frozen) = Some ((t1, c1), f1)"
    and rest: "snap_visits fs dns visits ((t1, c1), f1) = Some ((t', cache'), frozen')"
    by (auto split: bind_splits)
  have "kept cap t1 \<and> table_ok cap f1"
    using Cons.prems(1) by (intro snap_visit_kept [OF _ Cons.prems(2,3) s]) simp
  with Cons.IH [OF _ _ _ rest] Cons.prems(1) show ?case by simp
qed simp

lemma map_clone_ok:
  "table_ok cap m \<Longrightarrow> map (\<lambda>(pid, node). (pid, clone_node node)) m = m"
  by (auto simp: table_ok_def clone_node_ok intro!: map_idI)

definition interleaved :: "visit list \<Rightarrow> bool" where
  "interleaved visits \<longleftrightarrow> (\<forall>v \<in> set visits. \<forall>i. \<exists>ops. vGap v i = fold apply_op ops)"

lemma TakeSnapshot_kept:
  assumes "interleaved visits" and "kept cap (fst s)" and "TakeSnapshot fs dns now visits s = Some (snap, t)"
  shows "kept cap (fst t) \<and> table_ok cap (FByPID snap) \<and> table_ok cap (FGhosts snap) \<and> FGhosts snap = Ghosts (fst t)"
proof -
  have vis: "\<forall>v \<in> set visits. visit_ok v"
    using assms(1) harmless_ops unfolding interleaved_def visit_ok_def by metis
  obtain t0 c0 where s: "s = (t0, c0)" by (cases s)
  from assms(3) obtain t1 c1 f1 where f: "snap_visits fs dns visits ((t0, c0), []) = Some ((t1, c1), f1)"
    by (auto simp: TakeSnapshot_def s)
  then have "kept cap t1 \<and> table_ok cap f1"
    using assms(2) s by (intro snap_visits_kept [OF vis _ _ f]) simp_all
  moreover have "t = (t1, c1)" "FByPID snap = f1"
    "FGhosts snap = map (\<lambda>(pid, node). (pid, clone_node node)) (Ghosts t1)"
    using assms(3) f s by (auto simp: TakeSnapshot_def)
  ultimately show ?thesis by (auto simp: kept_def tree_ok_def map_clone_ok)
qed

text \<open>
  C9: whatever the other goroutines do while a snapshot is taken, if the runtime does not stop the program in the
  middle of it, the snapshot is well formed (each node under its own PID, each effect under its own target, the
  limit on effects kept) and so is the tree it leaves.
\<close>

theorem TakeSnapshot_well_formed:
  assumes "tree_ok t" and "\<forall>v \<in> set visits. \<forall>i. \<exists>ops. vGap v i = fold apply_op ops"
    and "TakeSnapshot fs dns now visits (t, cache) = Some (snap, t', cache')"
  shows "tree_ok t' \<and> table_ok (MaxEffectsPerProcess t) (FByPID snap)
    \<and> table_ok (MaxEffectsPerProcess t) (FGhosts snap) \<and> FGhosts snap = Ghosts t'"
  using TakeSnapshot_kept [of visits "MaxEffectsPerProcess t" "(t, cache)" fs dns now snap "(t', cache')"] assms
  by (fastforce simp: interleaved_def kept_def)

lemma sample_tree_ok: "tree_ok sample_tree"
  unfolding sample_tree_def by (intro tree_ok_setProc NewProcessTree_ok) simp

definition sample_visit :: visit where
  "sample_visit = \<lparr>vPid = 42, vKeys = [], vGap = \<lambda>_. id, vClash = \<lambda>_. False\<rparr>"

lemma sample_snapshot: "\<exists>snap t' c. TakeSnapshot fs dns now [sample_visit] (t, cache) = Some (snap, t', c)"
proof -
  have "\<exists>st. visited fs dns sample_visit (t, cache) = Some st"
    by (simp add: visited_def sample_visit_def split: option.split)
  then obtain t1 c1 where "visited fs dns sample_visit (t, cache) = Some (t1, c1)" by (metis prod.exhaust)
  then show ?thesis by (simp add: TakeSnapshot_def snap_visit_visited)
qed

lemma TakeSnapshot_well_formed_witness:
  "\<exists>snap t' c. TakeSnapshot status_fs (\<lambda>_. None) 9 [sample_visit] (sample_tree, []) = Some (snap, t', c) \<and> tree_ok t'"
proof -
  obtain snap t' c where s: "TakeSnapshot status_fs (\<lambda>_. None) 9 [sample_visit] (sample_tree, []) = Some (snap, t', c)"
    using sample_snapshot by blast
  have "\<forall>v \<in> set [sample_visit]. \<forall>i. \<exists>ops. vGap v i = fold apply_op ops"
    by (auto simp: sample_visit_def intro!: exI [of _ "[]"])
  from TakeSnapshot_well_formed [OF sample_tree_ok this s] s show ?thesis by blast
qed

text \<open>The runtime stops the program when a writer is met: no snapshot is taken, and none will be.\<close>

lemma snapshot_met_by_writer:
  assumes "map_of (ByPID t) (vPid v) = Some p" and "\<not> IsEnriched p" and "vClash v 0"
  shows "TakeSnapshot fs dns now (v # visits) (t, cache) = None"
proof -
  have "enrich_keys fs dns (vClash v) gap pid keys st = None" for gap pid keys st
    using assms(3) by (cases keys) simp_all
  then show ?thesis using assms(1,2) by (simp add: TakeSnapshot_def snap_visit_visited visited_def)
qed

section \<open>A snapshot of a quiet tree is complete\<close>

definition frame :: "ProcessTree \<Rightarrow> ProcessTree \<Rightarrow> bool" where
  "frame t t' \<longleftrightarrow> dom (map_of (ByPID t')) = dom (map_of (ByPID t)) \<and> Ghosts t' = Ghosts t"

lemma frame_refl [simp]: "frame t t"
  by (simp add: frame_def)

lemma frame_trans: "frame t t' \<Longrightarrow> frame t' t'' \<Longrightarrow> frame t t''"
  by (simp add: frame_def)

lemma frame_setProc: "map_of (ByPID t) pid \<noteq> None \<Longrightarrow> frame t (setProc pid p t)"
  by (auto simp: frame_def dom_def)

lemma frame_linkChild: "frame t (linkChild ppid pid t)"
  by (auto simp: linkChild_def intro: frame_setProc split: option.splits)

lemma frame_metadata: "frame t (EnrichProcessMetadata fs id pid t)"
  by (auto simp: EnrichProcessMetadata_def applyMetadata_def Let_def
      intro: frame_trans [OF frame_setProc frame_linkChild] split: option.splits)

lemma frame_connection:
  "map_of (ByPID t) pid \<noteq> None \<Longrightarrow> frame t (fst (EnrichConnectionMetadata fs dns id pid key d (t, cache)))"
  by (auto simp: EnrichConnectionMetadata_def applyConnection_def Let_def
      intro: frame_setProc split: option.splits prod.splits)

lemma frame_enrich_keys:
  "map_of (ByPID t) pid \<noteq> None \<Longrightarrow>
   \<exists>t' c'. enrich_keys fs dns (\<lambda>_. False) (\<lambda>_. id) pid keys (t, cache) = Some (t', c') \<and> frame t t'"
proof (induction keys arbitrary: t cache)
  case (Cons key keys)
  obtain t1 c1 where s: "EnrichConnectionMetadata fs dns id pid key None (t, cache) = (t1, c1)"
    by (cases "EnrichConnectionMetadata fs dns id pid key None (t, cache)")
  have f: "frame t t1" using frame_connection [OF Cons.prems, of fs dns key None cache] s by simp
  then have "map_of (ByPID t1) pid \<noteq> None" using Cons.prems by (auto simp: frame_def)
  from Cons.IH [OF this, of c1] obtain t' c'
    where "enrich_keys fs dns (\<lambda>_. False) (\<lambda>_. id) pid keys (t1, c1) = Some (t', c')" "frame t1 t'" by blast
  moreover have "enrich_keys fs dns (\<lambda>_. False) (\<lambda>_. id) pid (key # keys) (t, cache) =
      enrich_keys fs dns (\<lambda>_. False) (\<lambda>_. id) pid keys (t1, c1)" by (simp add: s)
  ultimately show ?case using frame_trans [OF f] by metis
qed simp

definition quiet :: "visit \<Rightarrow> bool" where
  "quiet v \<longleftrightarrow> vGap v = (\<lambda>_. id) \<and> vClash v = (\<lambda>_. False)"

lemma visited_quiet:
  assumes "quiet v" and "map_of (ByPID t) (vPid v) \<noteq> None"
  shows "\<exists>t' c' n. visited fs dns v (t, cache) = Some (t', c') \<and> frame t t'
    \<and> map_of (ByPID t') (vPid v) = Some n \<and> IsEnriched n"
proof -
  obtain node where node: "map_of (ByPID t) (vPid v) = Some node" using assms(2) by auto
  show ?thesis
  proof (cases "IsEnriched node")
    case True
    then show ?thesis using node by (auto simp: visited_def)
  next
    case False
    let ?t1 = "EnrichProcessMetadata fs id (vPid v) t"
    have f1: "frame t ?t1" by (rule frame_metadata)
    then have "map_of (ByPID ?t1) (vPid v) \<noteq> None" using assms(2) by (auto simp: frame_def)
    from frame_enrich_keys [OF this, of fs dns "vKeys v" cache] obtain t2 c2
      where s: "enrich_keys fs dns (\<lambda>_. False) (\<lambda>_. id) (vPid v) (vKeys v) (?t1, cache) = Some (t2, c2)" "frame ?t1 t2"
      by blast
    have f: "frame t t2" by (rule frame_trans [OF f1 s(2)])
    then obtain n2 where n2: "map_of (ByPID t2) (vPid v) = Some n2"
      using assms(2) by (auto simp: frame_def)
    then have "frame t2 (markEnriched (vPid v) t2)"
      by (auto simp: markEnriched_def intro: frame_setProc)
    with f n2 have "frame t (markEnriched (vPid v) t2)"
      "map_of (ByPID (markEnriched (vPid v) t2)) (vPid v) = Some (n2\<lparr>IsEnriched := True\<rparr>)"
      by (auto simp: markEnriched_def intro: frame_trans)
    with assms(1) node False s(1) show ?thesis by (auto simp: visited_def quiet_def)
  qed
qed

lemma snap_visits_quiet:
  assumes "\<forall>v \<in> set visits. quiet v \<and> map_of (ByPID t) (vPid v) \<noteq> None"
    and "\<forall>pid n. map_of frozen pid = Some n \<longrightarrow> IsEnriched n"
  shows "\<exists>t' c' frozen'. snap_visits fs dns visits ((t, cache), frozen) = Some ((t', c'), frozen')
    \<and> frame t t' \<and> dom (map_of frozen') = dom (map_of frozen) \<union> vPid ` set visits
    \<and> (\<forall>pid n. map_of frozen' pid = Some n \<longrightarrow> IsEnriched n)"
  using assms
proof (induction visits arbitrary: t cache frozen)
  case (Cons v visits)
  have v: "quiet v" "map_of (ByPID t) (vPid v) \<noteq> None" using Cons.prems(1) by simp_all
  from visited_quiet [OF v, of fs dns cache] obtain t1 c1 n where s: "visited fs dns v (t, cache) = Some (t1, c1)"
    and f: "frame t t1" and n: "map_of (ByPID t1) (vPid v) = Some n" "IsEnriched n" by blast
  let ?f1 = "go_put (vPid v) (clone_node n) frozen"
  have "IsEnriched (clone_node n)" using n(2) by (simp add: clone_node_def Node_Clone_def)
  then have f1: "\<forall>pid n. map_of ?f1 pid = Some n \<longrightarrow> IsEnriched n" using Cons.prems(2) by auto
  have "\<forall>v \<in> set visits. quiet v \<and> map_of (ByPID t1) (vPid v) \<noteq> None"
    using Cons.prems(1) f by (auto simp: frame_def)
  from Cons.IH [OF this f1, of c1] obtain t' c' frozen'
    where "snap_visits fs dns visits ((t1, c1), ?f1) = Some ((t', c'), frozen')" "frame t1 t'"
      "dom (map_of frozen') = dom (map_of ?f1) \<union> vPid ` set visits" "\<forall>pid n. map_of frozen' pid = Some n \<longrightarrow> IsEnriched n"
    by blast
  moreover have "snap_visits fs dns (v # visits) ((t, cache), frozen) = snap_visits fs dns visits ((t1, c1), ?f1)"
    using n(1) by (simp add: snap_visit_visited s)
  ultimately show ?case using f by (auto intro: frame_trans)
qed auto

text \<open>
  C10: a snapshot taken while nothing else happens is taken to its end, and holds exactly the active processes and
  the ghosts of the tree, and every active process in it is enriched.
\<close>

theorem TakeSnapshot_quiet_complete:
  assumes "tree_ok t" and "\<forall>v \<in> set visits. quiet v"
    and "vPid ` set visits = set (go_keys (ByPID t))"
  shows "\<exists>snap t' cache'. TakeSnapshot fs dns now visits (t, cache) = Some (snap, t', cache')
    \<and> set (go_keys (FByPID snap)) = set (go_keys (ByPID t)) \<and> FGhosts snap = Ghosts t
    \<and> (\<forall>pid n. map_of (FByPID snap) pid = Some n \<longrightarrow> IsEnriched n)"
proof -
  have "map_of (ByPID t) (vPid v) \<noteq> None" if "v \<in> set visits" for v
    using that assms(3) by (auto simp: map_of_eq_None_iff)
  then have "\<forall>v \<in> set visits. quiet v \<and> map_of (ByPID t) (vPid v) \<noteq> None"
    using assms(2) by blast
  from snap_visits_quiet [OF this, of "[]" fs dns cache] obtain t1 c1 f1
    where f: "snap_visits fs dns visits ((t, cache), []) = Some ((t1, c1), f1)"
      and r: "frame t t1" "dom (map_of f1) = vPid ` set visits" "\<forall>pid n. map_of f1 pid = Some n \<longrightarrow> IsEnriched n"
    by auto
  define snap where "snap = \<lparr>Timestamp = now, FByPID = f1,
    FGhosts = map (\<lambda>(pid, node). (pid, clone_node node)) (Ghosts t1), FStracePath = StracePath t1\<rparr>"
  have "FGhosts snap = Ghosts t"
    using r(1) assms(1) by (simp add: snap_def frame_def tree_ok_def map_clone_ok [of "MaxEffectsPerProcess t"])
  moreover have "set (go_keys f1) = set (go_keys (ByPID t))"
    using r(2) assms(3) by (simp add: dom_map_of_conv_image_fst)
  moreover have "TakeSnapshot fs dns now visits (t, cache) = Some (snap, t1, c1)"
    by (simp add: TakeSnapshot_def f snap_def)
  ultimately show ?thesis using r(3) by (simp add: snap_def)
qed

lemma TakeSnapshot_quiet_complete_witness:
  "\<exists>snap t' c. TakeSnapshot status_fs (\<lambda>_. None) 9 [sample_visit] (sample_tree, []) = Some (snap, t', c)
    \<and> set (go_keys (FByPID snap)) = {42}"
proof -
  have q: "\<forall>v \<in> set [sample_visit]. quiet v"
    by (auto simp: sample_visit_def quiet_def)
  have k: "go_keys (ByPID sample_tree) = [42]"
    by (simp add: sample_tree_def setProc_def NewProcessTree_def)
  have "vPid ` set [sample_visit] = set (go_keys (ByPID sample_tree))"
    unfolding k by (simp add: sample_visit_def)
  from TakeSnapshot_quiet_complete [OF sample_tree_ok q this, of status_fs "\<lambda>_. None" 9 "[]"] show ?thesis
    unfolding k by auto
qed

section \<open>Interleavings\<close>

text \<open>
  C18: the lock is released while a process is enriched. A process copied before that and exiting
  meanwhile is reported twice: as active and as exited.
\<close>

theorem snapshot_lists_process_twice:
  assumes "map_of (ByPID t) a = Some p" and "IsEnriched p"
    and "map_of (ByPID t) b = Some q" and "\<not> IsEnriched q" and "a \<noteq> b"
    and "Type e = EventExit" and "Pid e = a"
    and "vs = [\<lparr>vPid = a, vKeys = [], vGap = \<lambda>_. id, vClash = \<lambda>_. False\<rparr>,
               \<lparr>vPid = b, vKeys = [], vGap = (\<lambda>_. id)(0 := HandleEvent clk e), vClash = \<lambda>_. False\<rparr>]"
  shows "\<exists>snap t' cache'. TakeSnapshot fs dns now vs (t, cache) = Some (snap, t', cache')
    \<and> map_of (FByPID snap) a \<noteq> None \<and> map_of (FGhosts snap) a \<noteq> None"
proof -
  let ?t1 = "HandleEvent clk e t"
  let ?t2 = "EnrichProcessMetadata fs id b ?t1"
  obtain g where g: "map_of (Ghosts ?t1) a = Some g"
    using assms(1,6,7) by (simp add: HandleEvent.simps handleExit_def)
  have "Ghosts ?t2 = Ghosts ?t1" using frame_metadata [of ?t1 fs b] by (simp add: frame_def)
  moreover have "Ghosts (markEnriched b ?t2) = Ghosts ?t2"
    by (simp add: markEnriched_def split: option.splits)
  ultimately have g': "map_of (Ghosts (markEnriched b ?t2)) a \<noteq> None" using g by simp
  have ghost: "map_of m k \<noteq> None \<Longrightarrow> map_of (map (\<lambda>(pid, n). (pid, clone_node n)) m) k \<noteq> None"
    for m :: "(u32, ProcessNode) gomap" and k by (induction m) auto
  let ?va = "\<lparr>vPid = a, vKeys = [], vGap = \<lambda>_. id, vClash = \<lambda>_. False\<rparr>"
  let ?vb = "\<lparr>vPid = b, vKeys = [], vGap = (\<lambda>_. id)(0 := HandleEvent clk e), vClash = \<lambda>_. False\<rparr>"
  have "visited fs dns ?va (t, cache) = Some (t, cache)" using assms(1,2) by (simp add: visited_def)
  moreover have "visited fs dns ?vb (t, cache) = Some (markEnriched b ?t2, cache)"
    using assms(3,4) by (simp add: visited_def)
  ultimately obtain f1 where "snap_visits fs dns vs ((t, cache), []) = Some ((markEnriched b ?t2, cache), f1)"
    and "map_of f1 a \<noteq> None"
    using assms(1,5,8) by (cases "map_of (ByPID (markEnriched b ?t2)) b") (simp_all add: snap_visit_visited)
  then show ?thesis using ghost [OF g'] by (auto simp: TakeSnapshot_def)
qed

lemma snapshot_lists_process_twice_witness:
  "\<exists>snap t' cache'. TakeSnapshot status_fs (\<lambda>_. None) 9
      [\<lparr>vPid = 7, vKeys = [], vGap = \<lambda>_. id, vClash = \<lambda>_. False\<rparr>,
       \<lparr>vPid = 42, vKeys = [], vGap = (\<lambda>_. id)(0 := HandleEvent (\<lambda>_. 8) (sample_event EventExit 7 [])), vClash = \<lambda>_. False\<rparr>]
      (setProc 7 ((newNode 7 ''/bin/a'' ''a'' 0)\<lparr>IsEnriched := True\<rparr>) sample_tree, []) = Some (snap, t', cache')
    \<and> map_of (FByPID snap) 7 \<noteq> None \<and> map_of (FGhosts snap) 7 \<noteq> None"
  by (rule snapshot_lists_process_twice [where b = 42 and e = "sample_event EventExit 7 []"
        and p = "(newNode 7 ''/bin/a'' ''a'' 0)\<lparr>IsEnriched := True\<rparr>" and q = "newNode 42 ''/bin/sh'' ''sh'' 0"])
    (simp_all add: sample_tree_def newNode_def)

text \<open>
  re-keying a connection puts a new entry into the map that the snapshot is ranging over. When the
  range delivers that entry too, the connection is enriched again and its bytes count twice.
\<close>

theorem reranged_connection_counted_twice:
  assumes "map_of (ByPID t) pid = Some p" and "map_of (Effects p) key = Some eff"
    and "HasPrefix key ''connect:''" and "Detail eff = Some (ConnDetail emptyConnect)"
    and "enrichConnect fs dns cache (ProcPath t) pid = (Some d, cache')" and "IP d \<noteq> []"
    and "enrichConnect fs dns cache' (ProcPath t) pid = (Some d, cache')"
    and "\<not> HasPrefix (enriched_key d) ''connect:''"
  shows "\<exists>t' c' p' eff'. enrich_keys fs dns (\<lambda>_. False) (\<lambda>_. id) pid [key, enriched_key d] (t, cache) = Some (t', c')
    \<and> map_of (ByPID t') pid = Some p' \<and> map_of (Effects p') (enriched_key d) = Some eff' \<and> sent eff' = 2 * BytesSent d"
  using assms
  by (auto simp: EnrichConnectionMetadata_def applyConnection_def enrichEffect_def Let_def
      merge_detail_def sent_def emptyConnect_def)

lemma reranged_connection_counted_twice_witness:
  "\<exists>t' c' p' eff'. enrich_keys sample_net (\<lambda>_. None) (\<lambda>_. False) (\<lambda>_. id) 42
      [''connect:42:1'', ''93.184.216.34:443''] (setProc 42 curl (NewProcessTree sample_cfg), []) = Some (t', c')
    \<and> map_of (ByPID t') 42 = Some p'
    \<and> map_of (Effects p') ''93.184.216.34:443'' = Some eff' \<and> sent eff' = 14"
proof -
  define d where "d = \<lparr>IP = ''93.184.216.34'', Port = 443, Domain = [], BytesSent = 7, BytesRecv = 9,
    Family = 2, UnixSocket = []\<rparr>"
  have six: "parseProcNetTCP sample_net ''/proc'' 42 True = []"
    by (simp add: parseProcNetTCP_def sample_net_def pid_path_def)
  have e: "enrichConnect sample_net (\<lambda>_. None) [] ''/proc'' 42 = (Some d, [(''93.184.216.34'', [])])"
    "enrichConnect sample_net (\<lambda>_. None) [(''93.184.216.34'', [])] ''/proc'' 42 = (Some d, [(''93.184.216.34'', [])])"
    by (simp_all add: enrichConnect_def sample_parsed six sample_conn_fields reverseDNS_def d_def
        preferred_def)
  have k: "enriched_key d = ''93.184.216.34:443''"
    by (simp add: enriched_key_def d_def Let_def go_strings)
  let ?t = "setProc 42 curl (NewProcessTree sample_cfg)"
  have p: "ProcPath ?t = ''/proc''" by (simp add: NewProcessTree_def sample_cfg_def)
  from reranged_connection_counted_twice [of ?t 42 curl "''connect:42:1''" "pending ''connect:42:1'' 1"
      sample_net "\<lambda>_. None" "[]" d "[(''93.184.216.34'', [])]"]
  show ?thesis unfolding p e k
    by (simp add: curl_def pending_def d_def)
qed

end
