(* ===== verification/Regexp.thy ===== *)
theory Regexp
  imports GoUtf8
begin

text \<open>
  Go's \<^verbatim>\<open>regexp\<close> for the patterns of the sources: the leftmost match, and among the matches that
  start there the one a backtracking search finds first. A class consumes one character, which
  for a negated class or a dot may be a multi-byte one (an invalid byte counts as a character).
  A position is the text before it, reversed, and the text after it.
\<close>

section \<open>Patterns\<close>

datatype re =
  Eps
| Chr "char \<Rightarrow> bool"
| NotChr "char \<Rightarrow> bool"
| Cat re re
| Alt re re
| Rep re
| AtEnd
| WordBoundary
| Raw char

type_synonym re_pos = "string \<times> string"

definition word_char :: "char \<Rightarrow> bool" where
  "word_char c \<longleftrightarrow> is_digit 36 c \<or> c = CHR ''_''"

definition digit_char_class :: "char \<Rightarrow> bool" where
  "digit_char_class = is_digit 10"

definition space_class :: "char \<Rightarrow> bool" where
  "space_class c \<longleftrightarrow> c \<in> {CHR '' '', CHR 0x09, CHR 0x0A, CHR 0x0C, CHR 0x0D}"

definition advance :: "nat \<Rightarrow> re_pos \<Rightarrow> re_pos" where
  "advance n p = (rev (take n (snd p)) @ fst p, drop n (snd p))"

definition at_word_boundary :: "re_pos \<Rightarrow> bool" where
  "at_word_boundary p \<longleftrightarrow>
     (fst p \<noteq> [] \<and> word_char (hd (fst p))) \<noteq> (snd p \<noteq> [] \<and> word_char (hd (snd p)))"

text \<open>
  The positions where a match from a position can end, in the order in which the search tries
  them. An iteration of a star that consumes nothing ends the star.
\<close>

fun star_ends :: "(re_pos \<Rightarrow> re_pos list) \<Rightarrow> nat \<Rightarrow> re_pos \<Rightarrow> re_pos list" where
  "star_ends step 0 p = [p]"
| "star_ends step (Suc n) p =
     concat (map (star_ends step n) (filter (\<lambda>q. length (snd q) < length (snd p)) (step p))) @ [p]"

fun ends :: "re \<Rightarrow> re_pos \<Rightarrow> re_pos list" where
  "ends Eps p = [p]"
| "ends (Chr P) p =
     (case snd p of c # _ \<Rightarrow> if is_ascii c \<and> P c then [advance 1 p] else [] | [] \<Rightarrow> [])"
| "ends (NotChr P) p =
     (case snd p of
        c # _ \<Rightarrow> if is_ascii c \<and> P c then [] else [advance (max 1 (rune_width (snd p))) p]
      | [] \<Rightarrow> [])"
| "ends (Cat r s) p = concat (map (ends s) (ends r p))"
| "ends (Alt r s) p = ends r p @ ends s p"
| "ends (Rep r) p = star_ends (ends r) (length (snd p)) p"
| "ends AtEnd p = (if snd p = [] then [p] else [])"
| "ends WordBoundary p = (if at_word_boundary p then [p] else [])"
| "ends (Raw b) p = (case snd p of c # _ \<Rightarrow> if c = b then [advance 1 p] else [] | [] \<Rightarrow> [])"

definition re_lit :: "string \<Rightarrow> re" where
  "re_lit s = foldr (\<lambda>c r. Cat (Chr (\<lambda>d. d = c)) r) s Eps"

definition re_dot :: re where
  "re_dot = NotChr (\<lambda>c. c = newline)"

definition re_plus :: "re \<Rightarrow> re" where
  "re_plus r = Cat r (Rep r)"

definition re_opt :: "re \<Rightarrow> re" where
  "re_opt r = Alt r Eps"

fun re_times :: "nat \<Rightarrow> re \<Rightarrow> re" where
  "re_times 0 r = Eps"
| "re_times (Suc n) r = Cat r (re_times n r)"

fun re_upto :: "nat \<Rightarrow> re \<Rightarrow> re" where
  "re_upto 0 r = Eps"
| "re_upto (Suc n) r = re_opt (Cat r (re_upto n r))"

text \<open>\<^verbatim>\<open>r{m,n}\<close> and \<^verbatim>\<open>r{m,}\<close>.\<close>

definition re_between :: "nat \<Rightarrow> nat \<Rightarrow> re \<Rightarrow> re" where
  "re_between m n r = Cat (re_times m r) (re_upto (n - m) r)"

definition re_at_least :: "nat \<Rightarrow> re \<Rightarrow> re" where
  "re_at_least m r = Cat (re_times m r) (Rep r)"

fun re_alts :: "re list \<Rightarrow> re" where
  "re_alts [] = Chr (\<lambda>_. False)"
| "re_alts [r] = r"
| "re_alts (r # rs) = Alt r (re_alts rs)"

definition re_seq :: "re list \<Rightarrow> re" where
  "re_seq rs = foldr Cat rs Eps"

section \<open>Searching\<close>

text \<open>The leftmost match from a position on: where it starts and where it ends.\<close>

fun find_from :: "re \<Rightarrow> string \<Rightarrow> string \<Rightarrow> (re_pos \<times> re_pos) option" where
  "find_from r b [] = (case ends r (b, []) of [] \<Rightarrow> None | q # _ \<Rightarrow> Some ((b, []), q))"
| "find_from r b (c # s) =
     (case ends r (b, c # s) of
        q # _ \<Rightarrow> Some ((b, c # s), q)
      | [] \<Rightarrow> find_from r (c # b) s)"

definition MatchString :: "re \<Rightarrow> string \<Rightarrow> bool" where
  "MatchString r s \<longleftrightarrow> find_from r [] s \<noteq> None"

lemma ends_shorter: "q \<in> set (ends r p) \<Longrightarrow> length (snd q) \<le> length (snd p)"
proof (induction r arbitrary: p q)
  case (Rep r)
  have "q \<in> set (star_ends (ends r) n p) \<Longrightarrow> length (snd q) \<le> length (snd p)" for n p
    by (induction n arbitrary: p) (auto, fastforce)
  with Rep.prems show ?case by simp
next
  case (Cat r s)
  from Cat.prems obtain m where "m \<in> set (ends r p)" "q \<in> set (ends s m)" by auto
  then show ?case using Cat.IH by (meson order_trans)
qed (auto simp: advance_def split: list.splits if_splits)

lemma find_from_shorter:
  "find_from r b s = Some (p, q) \<Longrightarrow> length (snd q) \<le> length (snd p) \<and> length (snd p) \<le> length s"
proof (induction r b s rule: find_from.induct)
  case (1 r b)
  then show ?case using ends_shorter [of q r "(b, [])"] by (auto split: list.splits)
next
  case (2 r b c s)
  show ?case
  proof (cases "ends r (b, c # s)")
    case Nil
    with 2 show ?thesis by auto
  next
    case (Cons x xs)
    with "2.prems" have "p = (b, c # s)" "q = x" by auto
    moreover have "length (snd x) \<le> length (snd (b, c # s))"
      by (rule ends_shorter [of _ r]) (simp add: Cons)
    ultimately show ?thesis by simp
  qed
qed

text \<open>
  \<^verbatim>\<open>FindAllString\<close> and \<^verbatim>\<open>ReplaceAllString\<close> for patterns that match no empty string, which
  all patterns of the sources are: the matches in order, and what is between them.
\<close>

function find_all :: "re \<Rightarrow> string \<Rightarrow> string \<Rightarrow> (string \<times> string) list \<times> string" where
  "find_all r b s =
     (case find_from r b s of
        None \<Rightarrow> ([], s)
      | Some (p, q) \<Rightarrow>
          if length s \<le> length (snd q) then ([], s)
          else let gap = take (length s - length (snd p)) s;
                   m = take (length (snd p) - length (snd q)) (snd p);
                   (ms, rest) = find_all r (fst q) (snd q)
               in ((gap, m) # ms, rest))"
  by pat_completeness auto
termination by (relation "measure (\<lambda>(_, _, s). length s)") auto

declare find_all.simps [simp del]

definition FindAllString :: "re \<Rightarrow> string \<Rightarrow> string list" where
  "FindAllString r s = map snd (fst (find_all r [] s))"

definition ReplaceAllFunc :: "re \<Rightarrow> (string \<Rightarrow> string) \<Rightarrow> string \<Rightarrow> string" where
  "ReplaceAllFunc r f s =
     (let (ms, rest) = find_all r [] s in concat (map (\<lambda>(gap, m). gap @ f m) ms) @ rest)"

text \<open>\<^verbatim>\<open>FindAllStringIndex\<close>: each match with its offset.\<close>

fun with_offsets :: "nat \<Rightarrow> (string \<times> string) list \<Rightarrow> (nat \<times> string) list" where
  "with_offsets n [] = []"
| "with_offsets n ((gap, m) # ms) = (n + length gap, m) # with_offsets (n + length gap + length m) ms"

definition FindAllIndex :: "re \<Rightarrow> string \<Rightarrow> (nat \<times> string) list" where
  "FindAllIndex r s = with_offsets 0 (fst (find_all r [] s))"

section \<open>Case folding\<close>

text \<open>
  Under \<^verbatim>\<open>(?i)\<close> a letter matches both its cases; besides, \<^verbatim>\<open>k\<close> matches the Kelvin sign
  (U+212A) and \<^verbatim>\<open>s\<close> the long s (U+017F), which fold to them.
\<close>

definition lower_byte :: "char \<Rightarrow> char" where
  "lower_byte c = (if 65 \<le> (of_char c :: nat) \<and> (of_char c :: nat) \<le> 90 then char_of (of_char c + 32 :: nat) else c)"

definition re_kelvin :: re where
  "re_kelvin = re_seq [Raw (CHR 0xE2), Raw (CHR 0x84), Raw (CHR 0xAA)]"

definition re_long_s :: re where
  "re_long_s = re_seq [Raw (CHR 0xC5), Raw (CHR 0xBF)]"

definition re_fold_chr :: "(char \<Rightarrow> bool) \<Rightarrow> re" where
  "re_fold_chr P =
     (let base = Chr (\<lambda>c. P c \<or> P (lower_byte c));
          k = (if P (CHR ''k'') then [re_kelvin] else []);
          s = (if P (CHR ''s'') then [re_long_s] else [])
      in re_alts (base # k @ s))"

definition re_fold_lit :: "string \<Rightarrow> re" where
  "re_fold_lit l = re_seq (map (\<lambda>c. re_fold_chr (\<lambda>d. d = c)) l)"

section \<open>Literal patterns\<close>

lemma ends_lit:
  "list_all is_ascii l \<Longrightarrow> ends (re_lit l) (b, s) = (if HasPrefix s l then [(rev l @ b, drop (length l) s)] else [])"
proof (induction l arbitrary: b s)
  case Nil
  then show ?case by (simp add: re_lit_def)
next
  case (Cons c l)
  have "re_lit (c # l) = Cat (Chr (\<lambda>d. d = c)) (re_lit l)" by (simp add: re_lit_def)
  with Cons show ?case by (cases s) (auto simp: advance_def)
qed

lemma MatchString_lit: "list_all is_ascii l \<Longrightarrow> MatchString (re_lit l) s \<longleftrightarrow> Contains s l"
proof -
  assume l: "list_all is_ascii l"
  have "find_from (re_lit l) b s \<noteq> None \<longleftrightarrow> Contains s l" for b s
    by (induction s arbitrary: b) (auto simp: ends_lit [OF l] split: list.splits)
  then show ?thesis by (simp add: MatchString_def)
qed

end
