(* ===== verification/GoFormat.thy ===== *)
theory GoFormat
  imports GoUtf8
begin

text \<open>
  What the reports use of \<^verbatim>\<open>fmt\<close> and \<^verbatim>\<open>time\<close>: \<^verbatim>\<open>%.1f\<close>, \<^verbatim>\<open>%q\<close>, \<^verbatim>\<open>Duration.Round\<close> and
  \<^verbatim>\<open>Duration.String\<close>, and \<^verbatim>\<open>Time.Format\<close> with the layouts of the sources. The local time
  zone is a parameter: \<open>zone t\<close> is its offset from UTC in seconds at \<open>t\<close>.
\<close>

section \<open>Decimal fractions\<close>

definition round_half_even :: "rat \<Rightarrow> int" where
  "round_half_even x =
     (let f = \<lfloor>x\<rfloor>; d = x - of_int f in
      if d < 1/2 then f else if 1/2 < d then f + 1 else if even f then f else f + 1)"

definition pad_left :: "char \<Rightarrow> nat \<Rightarrow> string \<Rightarrow> string" where
  "pad_left c n s = replicate (n - length s) c @ s"

text \<open>\<^verbatim>\<open>%.kf\<close> of a finite number.\<close>

definition fmt_fixed :: "nat \<Rightarrow> float64 \<Rightarrow> string" where
  "fmt_fixed k x =
     (let n = nat (round_half_even (\<bar>x\<bar> * 10 ^ k));
          digits = pad_left (CHR ''0'') (Suc k) (dec n);
          i = length digits - k
      in (if x < 0 then ''-'' else []) @ take i digits @ (if k = 0 then [] else ''.'' @ drop i digits))"

section \<open>Durations\<close>

text \<open>\<^verbatim>\<open>Duration.Round(m)\<close>: to the nearest multiple, halves away from zero, saturating.\<close>

definition Duration_Round :: "duration \<Rightarrow> duration \<Rightarrow> duration" where
  "Duration_Round d m =
     (if m \<le> 0 then d
      else let r = \<bar>d\<bar> mod m in
           if r + r < m then sgn d * (\<bar>d\<bar> - r)
           else clamp64 (sgn d * (\<bar>d\<bar> + m - r)))"

definition micro_sign :: string where
  "micro_sign = [CHR 0xC2, CHR 0xB5]"

text \<open>The fraction \<open>v / 10^k\<close> without trailing zeros, and without the point when it is zero.\<close>

definition frac_str :: "nat \<Rightarrow> nat \<Rightarrow> string" where
  "frac_str v k =
     (let ds = rev (dropWhile (\<lambda>c. c = CHR ''0'') (rev (pad_left (CHR ''0'') k (dec (v mod 10 ^ k)))))
      in if ds = [] then [] else ''.'' @ ds)"

definition Duration_String :: "duration \<Rightarrow> string" where
  "Duration_String d =
     (let u = nat \<bar>d\<bar>; s = u div 10 ^ 9;
          body = (if u = 0 then ''0s''
                  else if u < 1000 then dec u @ ''ns''
                  else if u < 10 ^ 6 then dec (u div 1000) @ frac_str u 3 @ micro_sign @ ''s''
                  else if u < 10 ^ 9 then dec (u div 10 ^ 6) @ frac_str u 6 @ ''ms''
                  else (if 60 \<le> s then (if 3600 \<le> s then dec (s div 3600) @ ''h'' else [])
                          @ dec (s div 60 mod 60) @ ''m'' else [])
                       @ dec (s mod 60) @ frac_str u 9 @ ''s'')
      in (if d < 0 then ''-'' else []) @ body)"

lemma clamp64_id: "\<bar>x\<bar> < 2 ^ 63 \<Longrightarrow> clamp64 x = x"
  by (simp add: clamp64_def abs_less_iff max_def min_def)

lemma Duration_Round_near:
  assumes "0 < m" and "\<bar>d\<bar> + m < 2 ^ 63"
  shows "m dvd Duration_Round d m \<and> 2 * \<bar>Duration_Round d m - d\<bar> \<le> m"
proof -
  let ?r = "\<bar>d\<bar> mod m"
  have r: "0 \<le> ?r" "?r < m" using assms(1) by simp_all
  have le: "?r \<le> \<bar>d\<bar>" by (simp add: assms(1) zmod_le_nonneg_dividend)
  have dvd: "m dvd \<bar>d\<bar> - ?r" by (simp add: minus_mod_eq_mult_div)
  have d: "d = sgn d * \<bar>d\<bar>" by (simp add: sgn_mult_abs)
  have s: "\<bar>sgn d\<bar> \<le> 1" by (simp add: sgn_if)
  show ?thesis
  proof (cases "?r + ?r < m")
    case True
    then have e: "Duration_Round d m = sgn d * (\<bar>d\<bar> - ?r)"
      using assms(1) by (simp add: Duration_Round_def)
    have "Duration_Round d m - d = sgn d * (- ?r)"
      unfolding e by (subst (4) d) (simp add: algebra_simps)
    then have "\<bar>Duration_Round d m - d\<bar> \<le> ?r" using r by (simp add: abs_mult sgn_if)
    with True e dvd show ?thesis by simp
  next
    case False
    have "\<bar>sgn d * (\<bar>d\<bar> + m - ?r)\<bar> < 2 ^ 63"
      using assms r le by (auto simp: abs_mult sgn_if)
    then have e: "Duration_Round d m = sgn d * (\<bar>d\<bar> + m - ?r)"
      using False assms(1) by (simp add: Duration_Round_def clamp64_id)
    have "Duration_Round d m - d = sgn d * (m - ?r)"
      unfolding e by (subst (4) d) (simp add: algebra_simps)
    then have "\<bar>Duration_Round d m - d\<bar> \<le> m - ?r" using r by (simp add: abs_mult sgn_if)
    moreover have "m dvd \<bar>d\<bar> + m - ?r" using dvd by (metis add_diff_eq dvd_add_right_iff dvd_refl add.commute)
    ultimately show ?thesis using False e by simp
  qed
qed

section \<open>Points in time\<close>

text \<open>Days since 1 January 1970 to year, month and day of the Gregorian calendar.\<close>

definition civil_of_days :: "int \<Rightarrow> int \<times> nat \<times> nat" where
  "civil_of_days days =
     (let z = days + 719468; era = z div 146097; doe = z mod 146097;
          yoe = (doe - doe div 1460 + doe div 36524 - doe div 146096) div 365;
          doy = doe - (365 * yoe + yoe div 4 - yoe div 100);
          mp = (5 * doy + 2) div 153; d = doy - (153 * mp + 2) div 5 + 1;
          m = (if mp < 10 then mp + 3 else mp - 9);
          y = yoe + era * 400 + (if m \<le> 2 then 1 else 0)
      in (y, nat m, nat d))"

definition two :: "nat \<Rightarrow> string" where
  "two n = pad_left (CHR ''0'') 2 (dec n)"

definition local_secs :: "(gotime \<Rightarrow> int) \<Rightarrow> gotime \<Rightarrow> int" where
  "local_secs zone t = t div second + zone t"

definition clock_of_secs :: "int \<Rightarrow> string" where
  "clock_of_secs s =
     (let n = nat (s mod 86400) in two (n div 3600) @ '':'' @ two (n div 60 mod 60) @ '':'' @ two (n mod 60))"

text \<open>Layouts \<^verbatim>\<open>15:04:05\<close> and \<^verbatim>\<open>15:04:05.000\<close>.\<close>

definition fmt_clock :: "(gotime \<Rightarrow> int) \<Rightarrow> gotime \<Rightarrow> string" where
  "fmt_clock zone t = clock_of_secs (local_secs zone t)"

definition fmt_clock_ms :: "(gotime \<Rightarrow> int) \<Rightarrow> gotime \<Rightarrow> string" where
  "fmt_clock_ms zone t =
     fmt_clock zone t @ ''.'' @ pad_left (CHR ''0'') 3 (dec (nat (t mod second div millisecond)))"

definition fmt_date :: "(gotime \<Rightarrow> int) \<Rightarrow> gotime \<Rightarrow> string" where
  "fmt_date zone t =
     (let (y, m, d) = civil_of_days (local_secs zone t div 86400) in
      (if y < 0 then ''-'' else []) @ pad_left (CHR ''0'') 4 (dec (nat \<bar>y\<bar>)) @ ''-'' @ two m @ ''-'' @ two d)"

text \<open>Layout \<^verbatim>\<open>time.RFC3339\<close>.\<close>

definition fmt_zone :: "int \<Rightarrow> string" where
  "fmt_zone off =
     (if off = 0 then ''Z''
      else let n = nat \<bar>off\<bar> in
           (if off < 0 then ''-'' else ''+'') @ two (n div 3600) @ '':'' @ two (n div 60 mod 60))"

definition fmt_rfc3339 :: "(gotime \<Rightarrow> int) \<Rightarrow> gotime \<Rightarrow> string" where
  "fmt_rfc3339 zone t = fmt_date zone t @ ''T'' @ fmt_clock zone t @ fmt_zone (zone t)"

section \<open>\<^verbatim>\<open>%q\<close>\<close>

text \<open>
  A quoted string. Characters outside ASCII are printed as they are when the predicate
  \<open>printable\<close> (\<^verbatim>\<open>unicode.IsPrint\<close> of their encoding) holds, otherwise by code point.
\<close>

definition hex_digits :: "nat \<Rightarrow> nat \<Rightarrow> string" where
  "hex_digits k n = pad_left (CHR ''0'') k (hex n)"

definition quote_ascii :: "char \<Rightarrow> string" where
  "quote_ascii c =
     (let n = of_char c in
      if c = CHR 0x22 then [CHR 0x5C, CHR 0x22]
      else if c = CHR 0x5C then [CHR 0x5C, CHR 0x5C]
      else if 32 \<le> n \<and> n < (127 :: nat) then [c]
      else if n = 7 then [CHR 0x5C, CHR ''a'']
      else if n = 8 then [CHR 0x5C, CHR ''b'']
      else if n = 12 then [CHR 0x5C, CHR ''f'']
      else if n = 10 then [CHR 0x5C, CHR ''n'']
      else if n = 13 then [CHR 0x5C, CHR ''r'']
      else if n = 9 then [CHR 0x5C, CHR ''t'']
      else if n = 11 then [CHR 0x5C, CHR ''v'']
      else [CHR 0x5C, CHR ''x''] @ hex_digits 2 n)"

definition code_point :: "string \<Rightarrow> nat" where
  "code_point cs =
     (case cs of
        [] \<Rightarrow> 0
      | c # r \<Rightarrow>
          foldl (\<lambda>acc b. acc * 64 + of_char b mod 64)
            (of_char c mod (if r = [] then 128 else if length r = 1 then 32 else if length r = 2 then 16 else 8)) r)"

function quote_body :: "(string \<Rightarrow> bool) \<Rightarrow> string \<Rightarrow> string" where
  "quote_body printable [] = []"
| "quote_body printable (c # s) =
     (let w = rune_width (c # s); r = take w (c # s) in
      (if w = 0 then [CHR 0x5C, CHR ''x''] @ hex_digits 2 (of_char c)
       else if w = 1 then quote_ascii c
       else if printable r then r
       else if code_point r < 65536 then [CHR 0x5C, CHR ''u''] @ hex_digits 4 (code_point r)
       else [CHR 0x5C, CHR ''U''] @ hex_digits 8 (code_point r))
      @ quote_body printable (drop (w - 1) s))"
  by pat_completeness auto
termination by (relation "measure (\<lambda>(_, s). length s)") auto

definition fmt_q :: "(string \<Rightarrow> bool) \<Rightarrow> string \<Rightarrow> string" where
  "fmt_q printable s = [CHR 0x22] @ quote_body printable s @ [CHR 0x22]"

end
