(* ===== verification/Collapse.thy ===== *)
theory Collapse
  imports Frozen Regexp GoFormat
begin

text \<open>
  The compression of a process's effects into a few labelled lines (\<^verbatim>\<open>context/snapshot.go\<close>): the
  noise filter, the semantic labels, the grouping of similar targets, and the grouping of
  ghosts by binary.
\<close>

section \<open>Noise\<close>

definition noisePrefixes :: "string list" where
  "noisePrefixes =
     [''/etc/ld.so'', ''/usr/lib/libc.so'', ''/usr/lib/libm.so'', ''/usr/lib/libdl.so'',
      ''/usr/lib/libpthread.so'', ''/usr/lib/librt.so'', ''/usr/lib/libreadline.so'',
      ''/usr/lib/libncursesw.so'', ''/usr/lib/libacl.so'', ''/usr/lib/locale/'',
      ''/usr/lib/gconv/'', ''/usr/share/locale/'', ''/proc/self/'']"

definition noiseSuffixes :: "string list" where
  "noiseSuffixes =
     [''.so'', ''ld.so.cache'', ''locale-archive'', ''gconv-modules.cache'', ''locale.alias'']"

definition isNoise :: "string \<Rightarrow> bool" where
  "isNoise path \<longleftrightarrow>
     (if path \<in> set [[], ''stat'', ''status'', ''environ'', ''cmdline'', ''maps'', ''fd''] then True
      else if list_ex (HasPrefix path) noisePrefixes then True
      else if list_ex (HasSuffix path) noiseSuffixes then True
      else Contains path ''.so.'')"

section \<open>Semantic labels\<close>

definition numericSegment :: re where
  "numericSegment = re_seq [re_lit ''/'', re_plus (Chr digit_char_class), re_lit ''/'']"

definition re_slash_any_slash :: re where
  "re_slash_any_slash = re_seq [re_lit ''/'', Rep re_dot, re_lit ''/'']"

record semanticRule =
  rule_pattern :: re
  rule_label :: string
  rule_kind :: EffectKind

abbreviation open_rule :: "re \<Rightarrow> string \<Rightarrow> semanticRule" where
  "open_rule r l \<equiv> \<lparr>rule_pattern = r, rule_label = l, rule_kind = EffectOpen\<rparr>"

abbreviation connect_rule :: "string \<Rightarrow> string \<Rightarrow> semanticRule" where
  "connect_rule p l \<equiv> \<lparr>rule_pattern = Cat (re_lit p) WordBoundary, rule_label = l, rule_kind = EffectConnect\<rparr>"

definition basicSemanticRules :: "semanticRule list" where
  "basicSemanticRules =
     [open_rule (re_seq [re_slash_any_slash, re_lit ''stat'', AtEnd]) ''process monitoring'',
      open_rule (re_seq [re_slash_any_slash, re_lit ''status'', AtEnd]) ''process monitoring'',
      open_rule (Cat re_slash_any_slash (re_lit ''cmdline'')) ''process monitoring'',
      open_rule (Cat (re_lit ''/stat'') AtEnd) ''system CPU stats'',
      open_rule (re_lit ''/meminfo'') ''memory monitoring'',
      open_rule (re_lit ''/cpuinfo'') ''CPU info polling'',
      open_rule (re_seq [re_lit ''/devices/system/cpu/'', Rep re_dot, re_lit ''/cpufreq'']) ''CPU frequency polling'',
      open_rule (re_lit ''/class/power_supply'') ''battery monitoring'',
      open_rule (re_lit ''/dev/shm/.org.chromium'') ''Chromium shared memory IPC'',
      open_rule (re_lit ''/dev/shm/.com.google.Chrome'') ''Chrome shared memory IPC'',
      open_rule (re_lit ''.indexeddb.'') ''IndexedDB storage'',
      open_rule (re_lit ''.gemini/antigravity'') ''Antigravity workspace'',
      connect_rule '':443'' ''HTTPS'',
      connect_rule '':80'' ''HTTP'',
      connect_rule '':53'' ''DNS query'']"

definition semanticLabel :: "string \<Rightarrow> EffectKind \<Rightarrow> string" where
  "semanticLabel path kind =
     (case find (\<lambda>r. rule_kind r = kind \<and> MatchString (rule_pattern r) path) basicSemanticRules of
        Some r \<Rightarrow> rule_label r
      | None \<Rightarrow> [])"

section \<open>Collapsing\<close>

record collapsed =
  cLabel :: string
  cPattern :: string
  cOriginal :: string
  cCount :: u64
  cKind :: EffectKind
  cUnique :: nat

text \<open>The key, the label and the original target of an effect.\<close>

definition collapse_key :: "Effect \<Rightarrow> string \<times> string \<times> string" where
  "collapse_key eff =
     (if Kind eff = EffectConnect then
        (let label = semanticLabel (Target eff) EffectConnect in
         if label \<noteq> [] then (label, label, Target eff) else (Target eff, Target eff, Target eff))
      else
        (let normalized = ReplaceAllFunc numericSegment (\<lambda>_. ''/*/'') (Target eff);
             label = semanticLabel normalized EffectOpen
         in if label \<noteq> [] then (label, label, Target eff) else (normalized, normalized, normalized)))"

definition skipped :: "Effect \<Rightarrow> bool" where
  "skipped eff \<longleftrightarrow> Kind eff = EffectOpen \<and> isNoise (Target eff)"

definition collapse_one :: "Effect \<Rightarrow> (string, collapsed) gomap \<Rightarrow> (string, collapsed) gomap" where
  "collapse_one eff groups =
     (if skipped eff then groups
      else let (key, label, original) = collapse_key eff in
           case map_of groups key of
             Some g \<Rightarrow> go_put key (g\<lparr>cCount := cCount g + Count eff, cUnique := cUnique g + 1,
                                    cOriginal := original\<rparr>) groups
           | None \<Rightarrow> go_put key \<lparr>cLabel = label, cPattern = key, cOriginal = original,
                                cCount = Count eff, cKind = Kind eff, cUnique = 1\<rparr> groups)"

definition collapse_groups :: "(string, Effect) gomap \<Rightarrow> (string, collapsed) gomap" where
  "collapse_groups effects = fold collapse_one (go_vals effects) []"

definition collapseEffects ::
  "(string list \<Rightarrow> string list) \<Rightarrow> (string, Effect) gomap \<Rightarrow> collapsed list" where
  "collapseEffects ord effects =
     sort_slice (more_by cCount) (map snd (go_range ord (collapse_groups effects)))"

subsection \<open>Nothing is lost\<close>

definition collapse_inv :: "Effect list \<Rightarrow> (string, collapsed) gomap \<Rightarrow> bool" where
  "collapse_inv es groups \<longleftrightarrow> wf_map groups
     \<and> (\<forall>(k, g) \<in> set groups. cLabel g = k \<and> cPattern g = k)
     \<and> sum_list (map (cCount \<circ> snd) groups) = sum_list (map Count es)
     \<and> sum_list (map (cUnique \<circ> snd) groups) = length es"

lemma collapse_key_label: "collapse_key eff = (k, l, r) \<Longrightarrow> l = k"
  by (auto simp: collapse_key_def Let_def split: if_splits)

lemma sum_list_mset_snd:
  fixes f :: "'v \<Rightarrow> 'a::comm_monoid_add"
  shows "mset xs = mset (map snd m) \<Longrightarrow> sum_list (map f xs) = sum_list (map (f \<circ> snd) m)"
  by (metis map_map mset_map sum_mset_sum_list)

lemma sum_map_put:
  fixes f :: "'v \<Rightarrow> 'a::ab_group_add"
  shows "wf_map m \<Longrightarrow> sum_list (map (f \<circ> snd) (go_put k v m)) =
    sum_list (map (f \<circ> snd) m) + f v - (case map_of m k of None \<Rightarrow> 0 | Some w \<Rightarrow> f w)"
  by (induction m) (auto simp: wf_map_def split: option.splits)

lemma sum_map_put_nat:
  fixes f :: "'v \<Rightarrow> nat"
  shows "wf_map m \<Longrightarrow> sum_list (map (f \<circ> snd) (go_put k v m)) + (case map_of m k of None \<Rightarrow> 0 | Some w \<Rightarrow> f w) =
    sum_list (map (f \<circ> snd) m) + f v"
  by (induction m) (auto simp: wf_map_def split: option.splits)

lemma collapse_one_inv:
  assumes "collapse_inv es groups"
  shows "collapse_inv (if skipped eff then es else es @ [eff]) (collapse_one eff groups)"
proof (cases "skipped eff")
  case True
  with assms show ?thesis by (simp add: collapse_one_def)
next
  case False
  obtain k l r where k: "collapse_key eff = (k, l, r)" by (cases "collapse_key eff")
  note l = collapse_key_label [OF k]
  have wf: "wf_map groups" and lab: "\<forall>(k, g) \<in> set groups. cLabel g = k \<and> cPattern g = k"
    using assms by (simp_all add: collapse_inv_def)
  define v where "v = (case map_of groups k of
      Some g \<Rightarrow> g\<lparr>cCount := cCount g + Count eff, cUnique := cUnique g + 1, cOriginal := r\<rparr>
    | None \<Rightarrow> \<lparr>cLabel = k, cPattern = k, cOriginal = r, cCount = Count eff, cKind = Kind eff, cUnique = 1\<rparr>)"
  have one: "collapse_one eff groups = go_put k v groups"
    using False k l by (auto simp: collapse_one_def v_def split: option.splits)
  have vk: "cLabel v = k \<and> cPattern v = k"
    using lab by (auto simp: v_def dest: map_of_SomeD split: option.splits)
  have "\<forall>(k', g) \<in> set (go_put k v groups). cLabel g = k' \<and> cPattern g = k'"
    using lab vk by (auto dest!: set_go_put [OF wf])
  moreover have "sum_list (map (cCount \<circ> snd) (go_put k v groups)) = sum_list (map Count (es @ [eff]))"
    using assms sum_map_put [OF wf, of cCount k v]
    by (auto simp: collapse_inv_def v_def split: option.splits)
  moreover have "sum_list (map (cUnique \<circ> snd) (go_put k v groups)) = length (es @ [eff])"
    using assms sum_map_put_nat [OF wf, of cUnique k v]
    by (auto simp: collapse_inv_def v_def split: option.splits)
  ultimately show ?thesis using wf one False by (simp add: collapse_inv_def)
qed

lemma collapse_fold_inv:
  "collapse_inv es groups \<Longrightarrow>
   collapse_inv (es @ filter (\<lambda>e. \<not> skipped e) effs) (fold collapse_one effs groups)"
proof (induction effs arbitrary: es groups)
  case (Cons e effs)
  from Cons.IH [OF collapse_one_inv [OF Cons.prems, of e]] show ?case
    by (cases "skipped e") simp_all
qed simp

lemma collapse_groups_inv:
  "collapse_inv (filter (\<lambda>e. \<not> skipped e) (go_vals effects)) (collapse_groups effects)"
  using collapse_fold_inv [of "[]" "[]" "go_vals effects"]
  by (simp add: collapse_groups_def collapse_inv_def)



section \<open>Ghost groups\<close>

record ghostGroup =
  gBinary :: string
  gCount :: nat
  gParentID :: u32
  gNames :: "(string, nat) gomap"

definition group_ghost :: "ProcessNode \<Rightarrow> (string, ghostGroup) gomap \<Rightarrow> (string, ghostGroup) gomap" where
  "group_ghost p groups =
     (let key = (if BinaryPath p = [] then Comm p else BinaryPath p);
          base = Base key;
          g = (case map_of groups base of
                 Some g \<Rightarrow> g\<lparr>gCount := gCount g + 1\<rparr>
               | None \<Rightarrow> \<lparr>gBinary = key, gCount = 1, gParentID = PPID p, gNames = []\<rparr>);
          n = (case map_of (gNames g) (Comm p) of Some n \<Rightarrow> n | None \<Rightarrow> 0)
      in go_put base (g\<lparr>gNames := go_put (Comm p) (n + 1) (gNames g)\<rparr>) groups)"

definition groupGhosts ::
  "(string list \<Rightarrow> string list) \<Rightarrow> (u32, ProcessNode) gomap \<Rightarrow> ghostGroup list" where
  "groupGhosts ord ghosts =
     sort_slice (more_by gCount) (map snd (go_range ord (fold group_ghost (go_vals ghosts) [])))"

end
