(* ===== verification/Grouping.thy ===== *)
theory Grouping
  imports Collapse
begin

text \<open>
  The overviews of a snapshot (\<^verbatim>\<open>context/snapshot.go\<close>): the walk to the ancestor that names an
  application, the text \<open>Summary\<close>, its JSON twin and the raw dump. The walk follows parent
  PIDs with no bound, so it is a partial function: \<open>None\<close> is a walk that never ends.
\<close>

section \<open>Application groups\<close>

definition generic_comm :: "string \<Rightarrow> bool" where
  "generic_comm c \<longleftrightarrow> c \<in> {''systemd'', ''bash'', ''zsh'', ''sshd'', ''tmux: server''}"

partial_function (option) root_of :: "(u32, ProcessNode) gomap \<Rightarrow> ProcessNode \<Rightarrow> ProcessNode option" where
  "root_of byPID cur =
     (if PPID cur = 0 \<or> PPID cur = 1 \<or> PPID cur = 2 then Some cur
      else case map_of byPID (PPID cur) of
             None \<Rightarrow> Some cur
           | Some parent \<Rightarrow> if generic_comm (Comm parent) then Some cur else root_of byPID parent)"

definition app_name :: "ProcessNode \<Rightarrow> string" where
  "app_name cur = (if BinaryPath cur \<noteq> [] then BinaryPath cur else Comm cur)"

definition groupKey :: "ProcessNode \<Rightarrow> ProcessTree \<Rightarrow> string option" where
  "groupKey p t = map_option app_name (root_of (ByPID t) p)"

definition groupKeyFrozen :: "ProcessNode \<Rightarrow> FrozenSnapshot \<Rightarrow> string option" where
  "groupKeyFrozen p snap = map_option app_name (root_of (FByPID snap) p)"

subsection \<open>When the walk ends\<close>

definition climb :: "(u32, ProcessNode) gomap \<Rightarrow> ProcessNode \<Rightarrow> ProcessNode option" where
  "climb byPID cur =
     (if PPID cur = 0 \<or> PPID cur = 1 \<or> PPID cur = 2 then None
      else case map_of byPID (PPID cur) of
             None \<Rightarrow> None
           | Some parent \<Rightarrow> if generic_comm (Comm parent) then None else Some parent)"

fun climb_n :: "(u32, ProcessNode) gomap \<Rightarrow> nat \<Rightarrow> ProcessNode \<Rightarrow> ProcessNode option" where
  "climb_n m 0 p = Some p"
| "climb_n m (Suc n) p = Option.bind (climb m p) (climb_n m n)"

lemma root_of_climb: "root_of m p = (case climb m p of None \<Rightarrow> Some p | Some q \<Rightarrow> root_of m q)"
  by (subst root_of.simps) (auto simp: climb_def split: option.splits)

lemma root_of_SomeD: "root_of m p = Some r \<Longrightarrow> \<exists>n. climb_n m n p = Some r \<and> climb m r = None"
proof (erule root_of.raw_induct [rotated])
  fix root_of :: "(u32, ProcessNode) gomap \<Rightarrow> ProcessNode \<Rightarrow> ProcessNode option" and m p r
  assume 1: "\<And>m p r. root_of m p = Some r \<Longrightarrow> \<exists>n. climb_n m n p = Some r \<and> climb m r = None"
    "(if PPID p = 0 \<or> PPID p = 1 \<or> PPID p = 2 then Some p
      else case map_of m (PPID p) of
             None \<Rightarrow> Some p
           | Some parent \<Rightarrow> if generic_comm (Comm parent) then Some p else root_of m parent) = Some r"
  show "\<exists>n. climb_n m n p = Some r \<and> climb m r = None"
  proof (cases "climb m p")
    case None
    with 1(2) have "r = p" by (auto simp: climb_def split: option.splits if_splits)
    with None show ?thesis by (intro exI [of _ 0]) simp
  next
    case (Some q)
    then have "root_of m q = Some r" using 1(2) by (auto simp: climb_def split: option.splits if_splits)
    then obtain n where "climb_n m n q = Some r \<and> climb m r = None" using 1(1) by blast
    with Some show ?thesis by (intro exI [of _ "Suc n"]) simp
  qed
qed

lemma root_of_climb_n: "climb_n m n p = Some r \<Longrightarrow> climb m r = None \<Longrightarrow> root_of m p = Some r"
proof (induction n arbitrary: p)
  case 0
  then show ?case by (subst root_of_climb) simp
next
  case (Suc n)
  then obtain q where "climb m p = Some q" "climb_n m n q = Some r"
    by (auto simp: bind_eq_Some_conv)
  with Suc show ?case by (subst root_of_climb) simp
qed

lemma climb_n_add: "climb_n m (a + b) p = Option.bind (climb_n m a p) (climb_n m b)"
  by (induction a arbitrary: p) (auto split: Option.bind_splits)

lemma root_of_cycle:
  assumes "climb_n m (Suc k) p = Some p"
  shows "root_of m p = None"
proof (rule ccontr)
  assume "root_of m p \<noteq> None"
  then obtain r n where n: "climb_n m n p = Some r" "climb m r = None"
    using root_of_SomeD by blast
  have "climb_n m (j * Suc k) p = Some p" for j
  proof (induction j)
    case (Suc j)
    have "Suc j * Suc k = Suc k + j * Suc k" by simp
    with Suc show ?case by (simp only: climb_n_add assms bind.bind_lunit)
  qed simp
  from this [of "Suc n"] have "climb_n m (Suc n + Suc n * k) p = Some p" by simp
  then have "Option.bind (climb_n m n p) (climb_n m (Suc (Suc n * k))) = Some p"
    by (simp only: climb_n_add [symmetric] add_Suc add_Suc_right)
  with n show False by simp
qed

lemma root_of_ranked:
  assumes "\<And>p q. climb m p = Some q \<Longrightarrow> (rank q :: nat) < rank p"
  shows "\<exists>r. root_of m p = Some r"
proof (induction "rank p" arbitrary: p rule: less_induct)
  case less
  then show ?case using assms by (cases "climb m p") (subst root_of_climb, auto)+
qed

section \<open>Lines of text\<close>

definition tenth :: float64 where
  "tenth = 3602879701896397 / 36028797018963968"

definition nl :: string where "nl = [newline]"

text \<open>The command between the first \<^verbatim>\<open>(\<close> and the last \<^verbatim>\<open>)\<close> of a \<^verbatim>\<open>stat\<close> file.\<close>

definition comm_of_stat :: "string \<Rightarrow> string" where
  "comm_of_stat dat =
     (case (IndexByte dat (CHR ''(''), LastIndexByte dat (CHR '')'')) of
        (Some start, Some stop) \<Rightarrow> if start < stop then take (stop - (start + 1)) (drop (start + 1) dat) else []
      | _ \<Rightarrow> [])"

definition parent_name ::
  "procfs \<Rightarrow> string \<Rightarrow> (u32, ProcessNode) gomap \<Rightarrow> (u32, ProcessNode) gomap \<Rightarrow> u32 \<Rightarrow> string" where
  "parent_name fs procPath byPID ghosts ppid =
     (if 0 < ppid then
        (case map_of byPID ppid of
           Some parent \<Rightarrow> Comm parent
         | None \<Rightarrow>
             (case map_of ghosts ppid of
                Some parent \<Rightarrow> Comm parent
              | None \<Rightarrow>
                  if ppid = 1 then ''init''
                  else
                    let nm = (case readFile fs (pid_path procPath ppid ''stat'') of
                                None \<Rightarrow> [] | Some dat \<Rightarrow> comm_of_stat dat)
                    in if nm = [] then ''pid:'' @ dec (unat ppid) else nm))
      else [])"

definition header_of :: "string \<Rightarrow> u32 \<Rightarrow> string \<Rightarrow> string" where
  "header_of nm pid parent =
     nm @ '' ('' @ dec (unat pid) @ '')'' @ (if parent \<noteq> [] then '' parent:'' @ parent else [])"

definition processLine :: "procfs \<Rightarrow> ProcessNode \<Rightarrow> ProcessTree \<Rightarrow> string" where
  "processLine fs p t =
     header_of (Comm p) (PID p) (parent_name fs (ProcPath t) (ByPID t) (Ghosts t) (PPID p))"

definition usage_metrics :: "ProcessNode \<Rightarrow> string list" where
  "usage_metrics p =
     (if tenth < CpuUsage p then [fmt_fixed 1 (CpuUsage p) @ ''% CPU''] else [])
     @ (if 1024 < MemoryUsage p then [dec (unat (MemoryUsage p) div 1024) @ '' MB'']
        else if 0 < MemoryUsage p then [dec (unat (MemoryUsage p)) @ '' KB''] else [])"

definition processLineFrozen ::
  "procfs \<Rightarrow> (gotime \<Rightarrow> int) \<Rightarrow> gotime \<Rightarrow> ProcessNode \<Rightarrow> FrozenSnapshot \<Rightarrow> bool \<Rightarrow> string" where
  "processLineFrozen fs zone now p snap grouped =
     (let nm = Comm p @ (if \<not> grouped \<and> BinaryPath p \<noteq> [] then ''//'' @ BinaryPath p else []);
          parent = parent_name fs ''/proc'' (FByPID snap) (FGhosts snap) (PPID p);
          ended = \<not> IsZero (EndTimestamp p);
          uptime = Duration_Round (timeSub (if ended then EndTimestamp p else now) (StartTimestamp p)) millisecond;
          stateStr = ''start:'' @ fmt_clock zone (StartTimestamp p)
            @ (if ended then '' end:'' @ fmt_clock zone (EndTimestamp p) else []);
          metrics = [''up:'' @ Duration_String uptime, stateStr] @ usage_metrics p
      in header_of nm (PID p) parent @ '' ['' @ Join metrics '', '' @ '']'')"

text \<open>\<^verbatim>\<open>int\<close> is 64 bits wide: the conversion and the sum wrap around.\<close>

definition sum_counts :: "(Effect \<Rightarrow> bool) \<Rightarrow> ProcessNode \<Rightarrow> u64" where
  "sum_counts P p = sum_list (map Count (filter P (go_vals (Effects p))))"

definition totalEffects :: "ProcessNode \<Rightarrow> int" where
  "totalEffects p = sint (sum_counts (\<lambda>_. True) p)"

definition is_open :: "Effect \<Rightarrow> bool" where "is_open e \<longleftrightarrow> Kind e = EffectOpen"
definition is_connect :: "Effect \<Rightarrow> bool" where "is_connect e \<longleftrightarrow> Kind e = EffectConnect"

section \<open>Grouping the processes of a snapshot\<close>

fun group_procs ::
  "(ProcessNode \<Rightarrow> string option) \<Rightarrow> ProcessNode list \<Rightarrow> (string, ProcessNode list) gomap \<Rightarrow>
   (string, ProcessNode list) gomap option" where
  "group_procs key [] groups = Some groups"
| "group_procs key (p # ps) groups =
     Option.bind (key p) (\<lambda>k.
       group_procs key ps
         (go_put k ((case map_of groups k of None \<Rightarrow> [] | Some qs \<Rightarrow> qs) @ [p]) groups))"

definition app_groups ::
  "(string list \<Rightarrow> string list) \<Rightarrow> FrozenSnapshot \<Rightarrow> (string \<times> ProcessNode list) list option" where
  "app_groups ord snap =
     map_option (\<lambda>groups. sort_slice (more_by (\<lambda>g. length (snd g))) (go_range ord groups))
       (group_procs (\<lambda>p. groupKeyFrozen p snap) (go_vals (FByPID snap)) [])"

lemma group_procs_None: "p \<in> set ps \<Longrightarrow> key p = None \<Longrightarrow> group_procs key ps groups = None"
proof (induction ps arbitrary: groups)
  case (Cons q ps)
  then show ?case by (cases "key q") auto
qed simp

lemma group_procs_Some: "\<forall>p \<in> set ps. key p \<noteq> None \<Longrightarrow> \<exists>g. group_procs key ps groups = Some g"
  by (induction ps arbitrary: groups) auto

definition members :: "(string, ProcessNode list) gomap \<Rightarrow> ProcessNode multiset" where
  "members groups = sum_list (map (mset \<circ> snd) groups)"

lemma members_put:
  "wf_map g \<Longrightarrow> members (go_put k ((case map_of g k of None \<Rightarrow> [] | Some qs \<Rightarrow> qs) @ [p]) g) = add_mset p (members g)"
  unfolding members_def
  by (induction g) (auto simp: wf_map_def split: option.splits dest: map_of_SomeD)

lemma group_procs_members:
  "group_procs key ps g = Some g' \<Longrightarrow> wf_map g \<Longrightarrow>
   \<forall>(k, qs) \<in> set g. qs \<noteq> [] \<and> (\<forall>q \<in> set qs. key q = Some k) \<Longrightarrow>
   wf_map g' \<and> members g' = members g + mset ps
   \<and> (\<forall>(k, qs) \<in> set g'. qs \<noteq> [] \<and> (\<forall>q \<in> set qs. key q = Some k))"
proof (induction ps arbitrary: g)
  case (Cons p ps)
  from Cons.prems(1) obtain k where k: "key p = Some k"
    and r: "group_procs key ps (go_put k ((case map_of g k of None \<Rightarrow> [] | Some qs \<Rightarrow> qs) @ [p]) g) = Some g'"
    by (auto simp: bind_eq_Some_conv)
  let ?g = "go_put k ((case map_of g k of None \<Rightarrow> [] | Some qs \<Rightarrow> qs) @ [p]) g"
  have "\<forall>(k, qs) \<in> set ?g. qs \<noteq> [] \<and> (\<forall>q \<in> set qs. key q = Some k)"
    using Cons.prems(3) k
    by (auto dest!: set_go_put [OF Cons.prems(2)] split: option.splits) (auto dest!: map_of_SomeD)
  from Cons.IH [OF r wf_map_go_put [OF Cons.prems(2)] this] show ?case
    by (simp add: members_put [OF Cons.prems(2)])
qed simp

end
