(* ===== verification/Reports.thy ===== *)
theory Reports
  imports Grouping
begin

text \<open>
  The two overviews of a snapshot, as text and as a JSON document, and the raw dump of the live
  tree (\<^verbatim>\<open>context/snapshot.go\<close>). \<open>ord\<close> gives the orders in which the ranges over local maps
  deliver their keys: \<open>ord None\<close> for the application groups, \<open>ord (Some pid)\<close> for the
  collapsed effects of a process.
\<close>

type_synonym orders = "u32 option \<Rightarrow> string list \<Rightarrow> string list"

section \<open>Text\<close>

definition display_of :: "collapsed \<Rightarrow> string" where
  "display_of eff =
     (if cKind eff = EffectConnect then
        (if HasPrefix (cOriginal eff) ''unix:'' then ''unix socket: '' @ drop 5 (cOriginal eff)
         else ''network: '' @ cLabel eff)
      else cLabel eff)"

text \<open>
  The comparison \<^verbatim>\<open>&eff == &effects[effLimit-1]\<close> compares the loop variable with a slice
  element: it is never true, so the closing corner appears for a single line only.
\<close>

definition effect_line :: "nat \<Rightarrow> nat \<Rightarrow> collapsed \<Rightarrow> string" where
  "effect_line group_size effLimit eff =
     (let prefix = (if group_size = 1 then (if effLimit = 1 then box_corner else box_tee)
                    else ''  '' @ (if effLimit = 1 then box_corner else box_tee))
      in prefix @ '' '' @ display_of eff @ '' '' @ times_sign @ dec (unat (cCount eff))
         @ (if 1 < cUnique eff then '' ('' @ dec (cUnique eff) @ '' targets)'' else []) @ nl)"

definition proc_lines ::
  "procfs \<Rightarrow> (gotime \<Rightarrow> int) \<Rightarrow> gotime \<Rightarrow> orders \<Rightarrow> FrozenSnapshot \<Rightarrow> nat \<Rightarrow> ProcessNode \<Rightarrow> string" where
  "proc_lines fs zone now ord snap members_n p =
     (let effects = collapseEffects (ord (Some (PID p))) (Effects p);
          header = processLineFrozen fs zone now p snap (1 < members_n);
          effLimit = min 3 (length effects);
          remaining = length effects - effLimit
      in (if 1 < members_n then ''  '' @ header else header) @ nl
         @ concat (map (effect_line members_n effLimit) (take effLimit effects))
         @ (if 0 < remaining
            then (if members_n = 1 then ''    '' @ box_corner else ''      '' @ box_corner)
                 @ '' +'' @ dec remaining @ '' more activities'' @ nl
            else []))"

definition group_lines ::
  "procfs \<Rightarrow> (gotime \<Rightarrow> int) \<Rightarrow> gotime \<Rightarrow> orders \<Rightarrow> FrozenSnapshot \<Rightarrow> string \<times> ProcessNode list \<Rightarrow> string" where
  "group_lines fs zone now ord snap = (\<lambda>(nm, procs).
     (if 1 < length procs
      then ''[App Group: '' @ nm @ ''] '' @ right_arrow @ '' PIDs ''
           @ Join (map (\<lambda>p. dec (unat (PID p))) procs) '', '' @ nl
      else [])
     @ concat (map (proc_lines fs zone now ord snap (length procs)) (sort_slice (more_by totalEffects) procs))
     @ nl)"

definition recent_ghosts :: "FrozenSnapshot \<Rightarrow> ProcessNode list" where
  "recent_ghosts snap = sort_slice (more_by EndTimestamp) (go_vals (FGhosts snap))"

definition ghost_name :: "ProcessNode \<Rightarrow> string" where
  "ghost_name g = (if BinaryPath g \<noteq> [] then Base (BinaryPath g) else Comm g)"

definition lifespan :: "ProcessNode \<Rightarrow> duration" where
  "lifespan g = Duration_Round (timeSub (EndTimestamp g) (StartTimestamp g)) millisecond"

definition ghost_line :: "ProcessNode \<Rightarrow> string" where
  "ghost_line g =
     (let connects = sum_counts is_connect g;
          actStr = dec (unat (sum_counts is_open g)) @ '' ops''
            @ (if 0 < connects then '', '' @ dec (unat connects) @ '' connects'' else [])
      in ''  '' @ ghost_name g @ '' ('' @ dec (unat (PID g)) @ '') '' @ em_dash @ '' ''
         @ Duration_String (lifespan g) @ '' lifespan ['' @ actStr @ '']'' @ nl)"

definition Summary ::
  "procfs \<Rightarrow> (gotime \<Rightarrow> int) \<Rightarrow> gotime \<Rightarrow> orders \<Rightarrow> FrozenSnapshot \<Rightarrow> string option" where
  "Summary fs zone now ord snap =
     map_option (\<lambda>groups.
       ''SYSTEM STATE ('' @ dec (length (FByPID snap)) @ '' active processes, ''
       @ dec (length (FGhosts snap)) @ '' exited in last 60s)'' @ nl
       @ ''Snapshot Timestamp: '' @ fmt_rfc3339 zone (Timestamp snap) @ nl @ nl
       @ concat (map (group_lines fs zone now ord snap) groups)
       @ (if 0 < length (FGhosts snap)
          then ''RECENTLY EXITED:'' @ nl @ concat (map ghost_line (recent_ghosts snap))
          else []))
     (app_groups (ord None) snap)"

section \<open>The raw dump\<close>

definition esc :: string where "esc = [CHR 0x1B]"
definition dot_full :: string where "dot_full = [CHR 0xE2, CHR 0x97, CHR 0x8F]"
definition dot_empty :: string where "dot_empty = [CHR 0xE2, CHR 0x97, CHR 0x8B]"
definition double_h :: string where "double_h = [CHR 0xE2, CHR 0x95, CHR 0x90]"

definition printProcess :: "ProcessNode \<Rightarrow> bool \<Rightarrow> string" where
  "printProcess p ghost =
     (let nm = (if BinaryPath p \<noteq> [] then BinaryPath p else Comm p);
          icon = (if ghost then dot_empty else dot_full);
          opens = sint (sum_counts is_open p);
          connects = sint (sum_counts is_connect p);
          parts = [dec_int opens @ '' opens'']
            @ (if 0 < connects then [dec_int connects @ '' connects''] else [])
            @ (if tenth < CpuUsage p then [fmt_fixed 1 (CpuUsage p) @ ''% CPU''] else [])
            @ (if 0 < MemoryUsage p then
                 (if 1024 < MemoryUsage p then [dec (unat (MemoryUsage p) div 1024) @ '' MB RSS'']
                  else [dec (unat (MemoryUsage p)) @ '' KB RSS'']) else []);
          effects = sort_slice (more_by Count) (go_vals (Effects p))
      in ''  '' @ icon @ '' '' @ esc @ ''[1m'' @ pad_right 30 nm @ esc @ ''[0m pid=''
         @ pad_right 6 (dec (unat (PID p))) @ '' ppid='' @ pad_right 6 (dec (unat (PPID p)))
         @ '' ['' @ Join parts '', '' @ '']'' @ nl
         @ concat (map (\<lambda>eff. ''      ['' @ (if Kind eff = EffectConnect then ''conn'' else ''open'') @ ''] ''
                         @ Target eff @ '' '' @ times_sign @ dec (unat (Count eff)) @ nl) (take 5 effects))
         @ (if 5 < length effects
            then ''      '' @ esc @ ''[2m... +'' @ dec (length effects - 5) @ '' more effects'' @ esc @ ''[0m'' @ nl
            else []))"

definition DumpDebug :: "ProcessTree \<Rightarrow> string" where
  "DumpDebug t =
     (let procs = sort_slice (more_by totalEffects) (go_vals (ByPID t));
          ghosts = sort_slice (more_by EndTimestamp) (go_vals (Ghosts t));
          rule = double_h @ double_h @ double_h
      in nl @ esc @ ''[1;36m'' @ rule @ '' Process Graph ('' @ dec (length (ByPID t)) @ '' active, ''
         @ dec (length (Ghosts t)) @ '' ghosts) '' @ rule @ esc @ ''[0m'' @ nl
         @ concat (map (\<lambda>p. printProcess p False) (take 15 procs))
         @ (if 15 < length procs
            then ''  '' @ esc @ ''[2m... and '' @ dec (length procs - 15) @ '' more processes'' @ esc @ ''[0m'' @ nl
            else [])
         @ (if 0 < length (Ghosts t)
            then nl @ esc @ ''[1;33m'' @ box_h @ box_h @ box_h @ '' Ghosts (recently exited) ''
                 @ box_h @ box_h @ box_h @ esc @ ''[0m'' @ nl
                 @ concat (map (\<lambda>p. printProcess p True) (take 10 ghosts))
            else [])
         @ nl)"

section \<open>The JSON document\<close>

record EffectJSON =
  ejLabel :: string
  ejCount :: u64
  ejUnique :: nat
  ejCategory :: string
  ejSubtype :: string

record ProcessJSON =
  pjPID :: u32
  pjPPID :: u32
  pjName :: string
  pjTotalOpens :: int
  pjTotalConns :: int
  pjCpuUsage :: float64
  pjMemoryUsage :: u64
  pjTopEffects :: "EffectJSON list"
  pjMoreEffects :: nat

record AppGroupJSON =
  agName :: string
  agPIDs :: "u32 list"
  agProcesses :: "ProcessJSON list"

record GhostJSON =
  gjName :: string
  gjPID :: u32
  gjDuration :: string
  gjOpens :: u64
  gjConnects :: u64

record SnapshotSummaryJSON =
  ssTimestamp :: gotime
  ssActiveGroups :: "AppGroupJSON list"
  ssRecentlyExited :: "GhostJSON list"

definition effect_entry :: "collapsed \<Rightarrow> EffectJSON" where
  "effect_entry eff =
     (if cKind eff = EffectOpen then
        \<lparr>ejLabel = cLabel eff, ejCount = cCount eff, ejUnique = cUnique eff, ejCategory = ''open'', ejSubtype = []\<rparr>
      else if HasPrefix (cOriginal eff) ''unix:'' then
        \<lparr>ejLabel = drop 5 (cOriginal eff), ejCount = cCount eff, ejUnique = cUnique eff,
         ejCategory = ''connect'', ejSubtype = ''unix_socket''\<rparr>
      else
        \<lparr>ejLabel = cLabel eff, ejCount = cCount eff, ejUnique = cUnique eff, ejCategory = ''connect'',
         ejSubtype = ''network''\<rparr>)"

definition process_entry :: "orders \<Rightarrow> ProcessNode \<Rightarrow> ProcessJSON" where
  "process_entry ord p =
     (let effects = collapseEffects (ord (Some (PID p))) (Effects p); effLimit = min 3 (length effects) in
      \<lparr>pjPID = PID p, pjPPID = PPID p, pjName = (if BinaryPath p \<noteq> [] then BinaryPath p else Comm p),
       pjTotalOpens = sint (sum_counts is_open p), pjTotalConns = sint (sum_counts (\<lambda>e. \<not> is_open e) p),
       pjCpuUsage = CpuUsage p, pjMemoryUsage = MemoryUsage p,
       pjTopEffects = map effect_entry (take effLimit effects),
       pjMoreEffects = length effects - effLimit\<rparr>)"

definition group_entry :: "orders \<Rightarrow> string \<times> ProcessNode list \<Rightarrow> AppGroupJSON" where
  "group_entry ord = (\<lambda>(nm, procs).
     \<lparr>agName = nm, agPIDs = map PID procs,
      agProcesses = map (process_entry ord) (sort_slice (more_by totalEffects) procs)\<rparr>)"

definition ghost_entry :: "ProcessNode \<Rightarrow> GhostJSON" where
  "ghost_entry g =
     \<lparr>gjName = ghost_name g, gjPID = PID g, gjDuration = Duration_String (lifespan g),
      gjOpens = sum_counts is_open g, gjConnects = sum_counts (\<lambda>e. \<not> is_open e) g\<rparr>"

definition summary_doc :: "orders \<Rightarrow> FrozenSnapshot \<Rightarrow> SnapshotSummaryJSON option" where
  "summary_doc ord snap =
     map_option (\<lambda>groups.
       \<lparr>ssTimestamp = Timestamp snap, ssActiveGroups = map (group_entry ord) groups,
        ssRecentlyExited = map ghost_entry (recent_ghosts snap)\<rparr>)
     (app_groups (ord None) snap)"

text \<open>The document as a JSON value; a field tagged \<^verbatim>\<open>omitempty\<close> is left out when zero.\<close>

definition omit_if :: "bool \<Rightarrow> string \<Rightarrow> json \<Rightarrow> (string \<times> json) list" where
  "omit_if zero k v = (if zero then [] else [(k, v)])"

definition EffectJSON_json :: "EffectJSON \<Rightarrow> json" where
  "EffectJSON_json e =
     JObj ([(''label'', jstr (ejLabel e)), (''count'', jnat (unat (ejCount e)))]
       @ omit_if (ejUnique e = 0) ''unique_targets'' (jnat (ejUnique e))
       @ [(''category'', jstr (ejCategory e))] @ omit_if (ejSubtype e = []) ''subtype'' (jstr (ejSubtype e)))"

definition ProcessJSON_json :: "ProcessJSON \<Rightarrow> json" where
  "ProcessJSON_json p =
     JObj [(''pid'', jnat (unat (pjPID p))), (''ppid'', jnat (unat (pjPPID p))), (''name'', jstr (pjName p)),
       (''total_opens'', jint (pjTotalOpens p)), (''total_connections'', jint (pjTotalConns p)),
       (''cpu_usage_percent'', JNum (pjCpuUsage p)), (''memory_usage_kb'', jnat (unat (pjMemoryUsage p))),
       (''top_effects'', JArr (map EffectJSON_json (pjTopEffects p))),
       (''more_effects_count'', jnat (pjMoreEffects p))]"

definition SummaryJSON :: "orders \<Rightarrow> FrozenSnapshot \<Rightarrow> json option" where
  "SummaryJSON ord snap =
     map_option (\<lambda>s. JObj
       ([(''timestamp'', JTime (ssTimestamp s)),
         (''active_groups'', JArr (map (\<lambda>g. JObj
            [(''group_name'', jstr (agName g)), (''pids'', JArr (map (\<lambda>p. jnat (unat p)) (agPIDs g))),
             (''processes'', JArr (map ProcessJSON_json (agProcesses g)))]) (ssActiveGroups s)))]
        @ omit_if (ssRecentlyExited s = []) ''recently_exited''
            (JArr (map (\<lambda>g. JObj
              [(''name'', jstr (gjName g)), (''pid'', jnat (unat (gjPID g))),
               (''lifespan_duration'', jstr (gjDuration g)), (''total_opens'', jnat (unat (gjOpens g))),
               (''total_connections'', jnat (unat (gjConnects g)))]) (ssRecentlyExited s)))))
     (summary_doc ord snap)"

section \<open>The overviews are complete when the walks end\<close>

lemma app_groups_members:
  assumes "app_groups ord snap = Some groups" and "is_order ord"
  shows "members groups = mset (go_vals (FByPID snap))
    \<and> (\<forall>(k, qs) \<in> set groups. qs \<noteq> [] \<and> (\<forall>q \<in> set qs. groupKeyFrozen q snap = Some k))
    \<and> wf_map groups"
proof -
  obtain g where g: "group_procs (\<lambda>p. groupKeyFrozen p snap) (go_vals (FByPID snap)) [] = Some g"
    and s: "groups = sort_slice (more_by (\<lambda>g. length (snd g))) (go_range ord g)"
    using assms(1) by (auto simp: app_groups_def)
  from group_procs_members [OF g] have r: "wf_map g" "members g = mset (go_vals (FByPID snap))"
    "\<forall>(k, qs) \<in> set g. qs \<noteq> [] \<and> (\<forall>q \<in> set qs. groupKeyFrozen q snap = Some k)"
    by (simp_all add: members_def)
  have m: "mset groups = mset g" using mset_go_range [OF assms(2) r(1)] by (simp add: s ss.srt_mset)
  then have "mset (map f groups) = mset (map f g)" for f :: "_ \<Rightarrow> ProcessNode multiset" by simp
  then have "members groups = members g"
    unfolding members_def by (metis sum_mset_sum_list)
  moreover have "set groups = set g" using m by (rule mset_eq_setD)
  moreover have "wf_map groups"
    using r(1) m unfolding wf_map_def by (metis mset_eq_imp_distinct_iff mset_map)
  ultimately show ?thesis using r by auto
qed

text \<open>
  C23: in the JSON overview every active process of the snapshot appears in exactly one group, the one
  of its application, and every ghost appears once, the latest exit first.
\<close>

theorem summary_lists_each_process_once:
  assumes "summary_doc ord snap = Some doc" and "is_order (ord None)"
  shows "mset (concat (map (\<lambda>g. map pjPID (agProcesses g)) (ssActiveGroups doc)))
      = mset (map PID (go_vals (FByPID snap)))
    \<and> distinct (map agName (ssActiveGroups doc))
    \<and> mset (map gjPID (ssRecentlyExited doc)) = mset (map PID (go_vals (FGhosts snap)))"
proof -
  obtain groups where g: "app_groups (ord None) snap = Some groups"
    and doc: "ssActiveGroups doc = map (group_entry ord) groups"
      "ssRecentlyExited doc = map ghost_entry (recent_ghosts snap)"
    using assms(1) by (auto simp: summary_doc_def)
  note m = app_groups_members [OF g assms(2)]
  have pid: "pjPID (process_entry ord p) = PID p" for p by (simp add: process_entry_def Let_def)
  have srt: "mset (map PID (sort_slice lt ps)) = mset (map PID ps)" for lt ps
    by (simp only: mset_map ss.srt_mset)
  have "mset (concat (map (\<lambda>g. map pjPID (agProcesses g)) (map (group_entry ord) gs))) =
      image_mset PID (members gs)" for gs
    by (induction gs) (auto simp: members_def group_entry_def pid comp_def srt simp del: mset_map,
        simp_all)
  then have "mset (concat (map (\<lambda>g. map pjPID (agProcesses g)) (ssActiveGroups doc)))
      = mset (map PID (go_vals (FByPID snap)))"
    using m doc(1) by (simp flip: mset_map)
  moreover have "map agName (ssActiveGroups doc) = go_keys groups"
    using doc(1) by (auto simp: group_entry_def)
  moreover have "mset (map gjPID (ssRecentlyExited doc)) = mset (map PID (go_vals (FGhosts snap)))"
    using doc(2) srt [of "more_by EndTimestamp" "go_vals (FGhosts snap)"]
    by (simp add: ghost_entry_def comp_def recent_ghosts_def del: mset_map)
  ultimately show ?thesis using m by (simp add: wf_map_def)
qed

definition sample_snap :: FrozenSnapshot where
  "sample_snap = \<lparr>Timestamp = 9, FByPID = [(42, newNode 42 ''/bin/sh'' ''sh'' 0)], FGhosts = [],
     FStracePath = ''strace''\<rparr>"

lemma summary_lists_each_process_once_witness:
  "\<exists>doc. summary_doc (\<lambda>_. id) sample_snap = Some doc
    \<and> mset (concat (map (\<lambda>g. map pjPID (agProcesses g)) (ssActiveGroups doc))) = {#42#}"
proof -
  have "root_of (FByPID sample_snap) (newNode 42 ''/bin/sh'' ''sh'' 0) = Some (newNode 42 ''/bin/sh'' ''sh'' 0)"
    by (subst root_of.simps) (simp add: newNode_def)
  then obtain doc where d: "summary_doc (\<lambda>_. id) sample_snap = Some doc"
    by (auto simp: summary_doc_def app_groups_def groupKeyFrozen_def sample_snap_def)
  have "is_order ((\<lambda>_. id) (None :: u32 option) :: string list \<Rightarrow> string list)" by simp
  from summary_lists_each_process_once [OF d this] d show ?thesis
    by (simp add: sample_snap_def newNode_def)
qed

lemma summary_doc_None: "summary_doc ord snap = None \<longleftrightarrow> (\<exists>p \<in> set (go_vals (FByPID snap)). root_of (FByPID snap) p = None)"
proof -
  have "group_procs (\<lambda>p. groupKeyFrozen p snap) ps [] = None \<longleftrightarrow> (\<exists>p \<in> set ps. groupKeyFrozen p snap = None)" for ps
    using group_procs_None [of _ ps "\<lambda>p. groupKeyFrozen p snap" "[]"] group_procs_Some [of ps "\<lambda>p. groupKeyFrozen p snap" "[]"]
    by (metis not_None_eq)
  then show ?thesis by (simp add: summary_doc_def app_groups_def groupKeyFrozen_def)
qed

text \<open>
  C24: both overviews are produced for every snapshot in which the parent of a process is older than
  the process.
\<close>

theorem summaries_returned_when_parents_older:
  assumes "\<And>p q. p \<in> set (go_vals (FByPID snap)) \<Longrightarrow> map_of (FByPID snap) (PPID p) = Some q \<Longrightarrow>
      StartTimestamp q < StartTimestamp p"
  shows "\<exists>txt doc. Summary fs zone now ord snap = Some txt \<and> SummaryJSON ord snap = Some doc"
proof -
  let ?m = "FByPID snap"
  define older :: "ProcessNode \<Rightarrow> nat" where "older p = card {q \<in> set (go_vals ?m). StartTimestamp q < StartTimestamp p}" for p
  have younger: "older q < older p" if "p \<in> set (go_vals ?m)" "climb ?m p = Some q" for p q
  proof -
    have q: "map_of ?m (PPID p) = Some q" using that(2)
      by (auto simp: climb_def split: option.splits if_splits)
    then have lt: "StartTimestamp q < StartTimestamp p" using assms that(1) by blast
    have "q \<in> set (go_vals ?m)" using q by (force dest: map_of_SomeD)
    then have "{r \<in> set (go_vals ?m). StartTimestamp r < StartTimestamp q}
        \<subset> {r \<in> set (go_vals ?m). StartTimestamp r < StartTimestamp p}"
      using lt by auto
    then show ?thesis unfolding older_def by (intro psubset_card_mono) auto
  qed
  have "p \<in> set (go_vals ?m) \<Longrightarrow> root_of ?m p \<noteq> None" for p
  proof (induction "older p" arbitrary: p rule: less_induct)
    case (less p)
    show ?case
    proof (cases "climb ?m p")
      case None
      then show ?thesis by (subst root_of_climb) simp
    next
      case (Some q)
      then obtain k where "map_of ?m k = Some q"
        by (auto simp: climb_def split: option.splits if_splits)
      then have "q \<in> set (go_vals ?m)" by (force dest: map_of_SomeD)
      with younger [OF less.prems Some] have "root_of ?m q \<noteq> None" by (intro less.hyps) simp_all
      with Some show ?thesis by (subst root_of_climb) simp
    qed
  qed
  then have "summary_doc ord snap \<noteq> None" using summary_doc_None by blast
  then show ?thesis by (auto simp: SummaryJSON_def Summary_def summary_doc_def)
qed

lemma summaries_returned_when_parents_older_witness:
  "\<exists>txt doc. Summary status_fs (\<lambda>_. 0) 9 (\<lambda>_. id) sample_snap = Some txt
    \<and> SummaryJSON (\<lambda>_. id) sample_snap = Some doc"
  by (rule summaries_returned_when_parents_older) (auto simp: sample_snap_def newNode_def split: if_splits)

lemma metadata_self:
  "map_of (ByPID t) pid \<noteq> None \<Longrightarrow> \<exists>q. map_of (ByPID (applyMetadata pid c pp b t)) pid = Some q
     \<and> PPID q = pp \<and> Comm q = c"
  by (auto simp: applyMetadata_def linkChild_def split: option.splits)

lemma metadata_other:
  "pid' \<noteq> pid \<Longrightarrow> map_of (ByPID t) pid' = Some n \<Longrightarrow>
   \<exists>q. map_of (ByPID (applyMetadata pid c pp b t)) pid' = Some q \<and> PPID q = PPID n \<and> Comm q = Comm n"
  by (auto simp: applyMetadata_def linkChild_def split: option.splits)



end
