(* ===== verification/Query.thy ===== *)
theory Query
  imports Reports
begin

text \<open>
  The queries on a snapshot (\<^verbatim>\<open>context/query.go\<close>): inspection of one process, search, and the
  reports that read \<^verbatim>\<open>/proc\<close>, a file or the output of a tool. What they ask of the machine is the
  record \<open>host\<close>: each call on the operating system, on another program or on a library whose
  tables are not part of the sources is one field. Errors are their messages.
\<close>

record host =
  hNow :: gotime
  hZone :: "gotime \<Rightarrow> int"
  hPrintable :: "string \<Rightarrow> bool"
  hLower :: "string \<Rightarrow> string"
  hCompile :: "string \<Rightarrow> string + (string \<Rightarrow> bool)"
  hReadFile :: "string \<Rightarrow> string + string"
  hStat :: "string \<Rightarrow> string option"
  hOpen :: "string \<Rightarrow> string option"
  hRun :: "string list \<Rightarrow> string option \<times> string"
  hSha256 :: "string \<Rightarrow> string + string"
  hHome :: "string \<Rightarrow> string + string"

definition snap_lookup :: "FrozenSnapshot \<Rightarrow> u32 \<Rightarrow> ProcessNode option" where
  "snap_lookup snap pid =
     (case map_of (FByPID snap) pid of Some p \<Rightarrow> Some p | None \<Rightarrow> map_of (FGhosts snap) pid)"

abbreviation pid_str :: "u32 \<Rightarrow> string" where
  "pid_str pid \<equiv> dec (unat pid)"

definition taken_at :: "host \<Rightarrow> FrozenSnapshot \<Rightarrow> string" where
  "taken_at h snap = ''(Snapshot from '' @ fmt_rfc3339 (hZone h) (Timestamp snap) @ '')''"

section \<open>Inspection\<close>

definition uptime_of :: "host \<Rightarrow> ProcessNode \<Rightarrow> duration" where
  "uptime_of h p =
     Duration_Round (timeSub (if IsZero (EndTimestamp p) then hNow h else EndTimestamp p) (StartTimestamp p))
       millisecond"

definition state_of :: "ProcessNode \<Rightarrow> string" where
  "state_of p = (if IsZero (EndTimestamp p) then ''ACTIVE'' else ''EXITED'')"

definition parent_str :: "FrozenSnapshot \<Rightarrow> u32 \<Rightarrow> string" where
  "parent_str snap ppid =
     (if 0 < ppid then
        (case map_of (FByPID snap) ppid of
           Some parent \<Rightarrow> Comm parent @ '' ('' @ pid_str ppid @ '')''
         | None \<Rightarrow>
             (case map_of (FGhosts snap) ppid of
                Some parent \<Rightarrow> Comm parent @ '' ('' @ pid_str ppid @ '') [EXITED]''
              | None \<Rightarrow> pid_str ppid))
      else pid_str ppid)"

definition child_line :: "FrozenSnapshot \<Rightarrow> u32 \<Rightarrow> string" where
  "child_line snap cpid =
     (case map_of (FByPID snap) cpid of
        Some child \<Rightarrow> ''  - '' @ Comm child @ '' ('' @ pid_str cpid @ '') [ACTIVE]''
      | None \<Rightarrow>
          (case map_of (FGhosts snap) cpid of
             Some child \<Rightarrow> ''  - '' @ Comm child @ '' ('' @ pid_str cpid @ '') [EXITED]''
           | None \<Rightarrow> ''  - ('' @ pid_str cpid @ '') [UNKNOWN]'')) @ nl"

definition effect_before :: "Effect \<Rightarrow> Effect \<Rightarrow> bool" where
  "effect_before a b \<longleftrightarrow>
     (if Kind a \<noteq> Kind b then effect_kind_num (Kind a) < effect_kind_num (Kind b) else Target a < Target b)"

definition seen_str :: "host \<Rightarrow> Effect \<Rightarrow> string" where
  "seen_str h eff =
     (let duration = Duration_Round (timeSub (hNow h) (Last eff)) second in
      if duration < second then ''just now'' else Duration_String duration @ '' ago'')"

definition effect_text :: "host \<Rightarrow> string \<Rightarrow> string \<Rightarrow> Effect \<Rightarrow> string" where
  "effect_text h what target eff =
     ''  - '' @ what @ '': '' @ target @ '' (last: '' @ fmt_clock (hZone h) (Last eff) @ '', seen ''
     @ seen_str h eff @ '', count '' @ dec (unat (Count eff)) @ '')''"

definition net_text :: "host \<Rightarrow> Effect \<Rightarrow> string" where
  "net_text h eff =
     (if HasPrefix (Target eff) ''unix:'' then effect_text h ''unix socket'' (drop 5 (Target eff)) eff
      else effect_text h ''connect'' (Target eff) eff)"

definition Inspect :: "host \<Rightarrow> FrozenSnapshot \<Rightarrow> u32 \<Rightarrow> string" where
  "Inspect h snap pid =
     (case snap_lookup snap pid of
        None \<Rightarrow> ''[Error] Process '' @ pid_str pid @ '' not found in snapshot''
      | Some p \<Rightarrow>
          (let ended = \<not> IsZero (EndTimestamp p);
               effectList = sort_slice effect_before (go_vals (Effects p));
               netEffects = map (net_text h) (filter is_connect effectList);
               fileEffects = map (\<lambda>eff. effect_text h ''open'' (Target eff) eff) (filter is_open effectList)
           in ''[Process Inspect: '' @ pid_str (PID p) @ ''] '' @ taken_at h snap @ nl
              @ ''Command:  '' @ Comm p @ nl
              @ (if BinaryPath p \<noteq> [] then ''Binary:   '' @ BinaryPath p @ nl else [])
              @ ''State:    '' @ state_of p @ '' (uptime: '' @ Duration_String (uptime_of h p) @ '', started: ''
              @ fmt_clock_ms (hZone h) (StartTimestamp p)
              @ (if ended then '', ended: '' @ fmt_clock_ms (hZone h) (EndTimestamp p) else []) @ '')'' @ nl
              @ (if 0 < CpuUsage p \<or> 0 < MemoryUsage p
                 then ''CPU:      '' @ fmt_fixed 1 (CpuUsage p) @ ''%  |  Mem: '' @ dec (unat (MemoryUsage p)) @ '' KB'' @ nl
                 else [])
              @ nl @ ''Parent:   '' @ parent_str snap (PPID p) @ nl
              @ (if 0 < length (ChildrenPID p)
                 then ''Children:'' @ nl @ concat (map (child_line snap) (sort_slice (less_by id) (ChildrenPID p)))
                 else ''Children: None'' @ nl)
              @ nl
              @ (if netEffects \<noteq> [] then ''NETWORK EFFECTS:'' @ nl @ Join netEffects nl @ nl @ nl else [])
              @ (if fileEffects \<noteq> [] then ''FILE EFFECTS:'' @ nl @ Join fileEffects nl @ nl else [])
              @ (if netEffects = [] \<and> fileEffects = []
                 then ''No observed file or network effects.'' @ nl else [])))"

record ChildJSON =
  chPID :: u32
  chComm :: string
  chState :: string

record ProcessInspectJSON =
  piPID :: u32
  piPPID :: u32
  piComm :: string
  piBinaryPath :: string
  piState :: string
  piUptime :: string
  piStartTime :: gotime
  piEndTime :: "gotime option"
  piCpuUsage :: float64
  piMemoryUsage :: u64
  piParent :: string
  piChildren :: "ChildJSON list"
  piNetworkEffects :: "EffectJSON list"
  piFileEffects :: "EffectJSON list"

definition child_entry :: "FrozenSnapshot \<Rightarrow> u32 \<Rightarrow> ChildJSON" where
  "child_entry snap cpid =
     (case map_of (FByPID snap) cpid of
        Some child \<Rightarrow> \<lparr>chPID = cpid, chComm = Comm child, chState = ''ACTIVE''\<rparr>
      | None \<Rightarrow>
          (case map_of (FGhosts snap) cpid of
             Some child \<Rightarrow> \<lparr>chPID = cpid, chComm = Comm child, chState = ''EXITED''\<rparr>
           | None \<Rightarrow> \<lparr>chPID = cpid, chComm = [], chState = ''UNKNOWN''\<rparr>))"

definition inspect_doc :: "host \<Rightarrow> orders \<Rightarrow> FrozenSnapshot \<Rightarrow> u32 \<Rightarrow> string + ProcessInspectJSON" where
  "inspect_doc h ord snap pid =
     (case snap_lookup snap pid of
        None \<Rightarrow> Inl (''process '' @ pid_str pid @ '' not found'')
      | Some p \<Rightarrow>
          (let effs = collapseEffects (ord (Some pid)) (Effects p) in
           Inr \<lparr>piPID = PID p, piPPID = PPID p, piComm = Comm p, piBinaryPath = BinaryPath p,
                piState = state_of p, piUptime = Duration_String (uptime_of h p),
                piStartTime = StartTimestamp p,
                piEndTime = (if IsZero (EndTimestamp p) then None else Some (EndTimestamp p)),
                piCpuUsage = CpuUsage p, piMemoryUsage = MemoryUsage p,
                piParent = parent_str snap (PPID p), piChildren = map (child_entry snap) (ChildrenPID p),
                piNetworkEffects = map effect_entry (filter (\<lambda>e. cKind e \<noteq> EffectOpen) effs),
                piFileEffects = map effect_entry (filter (\<lambda>e. cKind e = EffectOpen) effs)\<rparr>))"

definition InspectJSON :: "host \<Rightarrow> orders \<Rightarrow> FrozenSnapshot \<Rightarrow> u32 \<Rightarrow> string + json" where
  "InspectJSON h ord snap pid =
     (case inspect_doc h ord snap pid of
        Inl e \<Rightarrow> Inl e
      | Inr r \<Rightarrow> Inr (JObj
          ([(''pid'', jnat (unat (piPID r))), (''ppid'', jnat (unat (piPPID r))), (''comm'', jstr (piComm r))]
           @ omit_if (piBinaryPath r = []) ''binary_path'' (jstr (piBinaryPath r))
           @ [(''state'', jstr (piState r)), (''uptime'', jstr (piUptime r)), (''start_time'', JTime (piStartTime r))]
           @ (case piEndTime r of None \<Rightarrow> [] | Some t \<Rightarrow> [(''end_time'', JTime t)])
           @ [(''cpu_usage_percent'', JNum (piCpuUsage r)), (''memory_usage_kb'', jnat (unat (piMemoryUsage r))),
              (''parent'', jstr (piParent r)),
              (''children'', JArr (map (\<lambda>c. JObj [(''pid'', jnat (unat (chPID c))), (''comm'', jstr (chComm c)),
                 (''state'', jstr (chState c))]) (piChildren r))),
              (''network_effects'', JArr (map EffectJSON_json (piNetworkEffects r))),
              (''file_effects'', JArr (map EffectJSON_json (piFileEffects r)))])))"

section \<open>Search\<close>

definition ascii_lower :: "char \<Rightarrow> char" where
  "ascii_lower c = (if 65 \<le> (of_char c :: nat) \<and> (of_char c :: nat) \<le> 90 then char_of (of_char c + 32 :: nat) else c)"

text \<open>\<^verbatim>\<open>strings.ToLower\<close>; \<open>hLower\<close> maps the encoding of a character outside ASCII.\<close>

function lower_runes :: "(string \<Rightarrow> string) \<Rightarrow> string \<Rightarrow> string" where
  "lower_runes low [] = []"
| "lower_runes low (c # s) =
     (let w = rune_width (c # s) in
      (if w = 0 then replacement else if w = 1 then [ascii_lower c] else low (take w (c # s)))
      @ lower_runes low (drop (w - 1) s))"
  by pat_completeness auto
termination by (relation "measure (\<lambda>(_, s). length s)") auto

definition ToLower :: "host \<Rightarrow> string \<Rightarrow> string" where
  "ToLower h s = (if list_all is_ascii s then map ascii_lower s else lower_runes (hLower h) s)"

definition kind_word :: "Effect \<Rightarrow> string" where
  "kind_word eff = (if Kind eff = EffectConnect then ''connect'' else ''open'')"

definition effect_hit :: "host \<Rightarrow> string \<Rightarrow> Effect \<Rightarrow> bool" where
  "effect_hit h lowerPattern eff \<longleftrightarrow>
     Contains (ToLower h (Target eff)) lowerPattern \<or> Contains (kind_word eff) lowerPattern"

definition matchNode :: "host \<Rightarrow> string \<Rightarrow> ProcessNode \<Rightarrow> bool" where
  "matchNode h lowerPattern p \<longleftrightarrow>
     Contains (ToLower h (Comm p)) lowerPattern \<or> Contains (ToLower h (BinaryPath p)) lowerPattern
     \<or> list_ex (effect_hit h lowerPattern) (go_vals (Effects p))"

definition match_lines :: "host \<Rightarrow> string \<Rightarrow> ProcessNode \<Rightarrow> string list" where
  "match_lines h lowerPattern p =
     (let hits = filter (effect_hit h lowerPattern) (go_vals (Effects p)); who = ''[MATCH] '' @ Comm p @ '' ('' @ pid_str (PID p) @ '') ''
      in if hits = [] then [who @ ''[Matched via process name or binary path]'' @ nl]
         else map (\<lambda>eff. who @ kind_word eff @ '': '' @ Target eff @ '' (last: '' @ fmt_clock (hZone h) (Last eff)
                     @ '', count '' @ dec (unat (Count eff)) @ '')'' @ nl) hits)"

definition search_matches :: "host \<Rightarrow> FrozenSnapshot \<Rightarrow> string \<Rightarrow> ProcessNode list" where
  "search_matches h snap pat =
     filter (matchNode h (ToLower h pat)) (go_vals (FByPID snap) @ go_vals (FGhosts snap))"

definition Search :: "host \<Rightarrow> FrozenSnapshot \<Rightarrow> string \<Rightarrow> string" where
  "Search h snap pat =
     (let matches = search_matches h snap pat;
          title = ''[Search Results for '' @ fmt_q (hPrintable h) pat @ ''] '' @ taken_at h snap @ nl
      in if matches = [] then title @ ''No matching processes found.''
         else title @ concat (concat (map (match_lines h (ToLower h pat)) matches)))"

record SearchMatchJSON =
  smPID :: u32
  smComm :: string
  smMatchKind :: string
  smEffectKind :: string
  smTarget :: string
  smCount :: u64
  smLastSeen :: string

definition process_match :: "ProcessNode \<Rightarrow> SearchMatchJSON" where
  "process_match p = \<lparr>smPID = PID p, smComm = Comm p, smMatchKind = ''process'', smEffectKind = [],
     smTarget = [], smCount = 0, smLastSeen = []\<rparr>"

definition effect_match :: "host \<Rightarrow> string \<Rightarrow> ProcessNode \<Rightarrow> Effect \<Rightarrow> SearchMatchJSON" where
  "effect_match h kind p eff = \<lparr>smPID = PID p, smComm = Comm p, smMatchKind = kind,
     smEffectKind = kind_word eff, smTarget = Target eff, smCount = Count eff,
     smLastSeen = fmt_rfc3339 (hZone h) (Last eff)\<rparr>"

text \<open>The kind of an effect's match is \<^verbatim>\<open>both\<close> for active processes that match themselves.\<close>

definition node_matches :: "host \<Rightarrow> bool \<Rightarrow> (string \<Rightarrow> bool) \<Rightarrow> ProcessNode \<Rightarrow> SearchMatchJSON list" where
  "node_matches h active re p =
     (let self = re (Comm p) \<or> re (BinaryPath p) in
      (if self then [process_match p] else [])
      @ map (effect_match h (if active \<and> self then ''both'' else ''effect'') p)
          (filter (\<lambda>eff. re (Target eff)) (go_vals (Effects p))))"

definition search_doc :: "host \<Rightarrow> FrozenSnapshot \<Rightarrow> string \<Rightarrow> string + SearchMatchJSON list" where
  "search_doc h snap query =
     (case hCompile h (''(?i)'' @ query) of
        Inl e \<Rightarrow> Inl e
      | Inr re \<Rightarrow> Inr (concat (map (node_matches h True re) (go_vals (FByPID snap)))
                    @ concat (map (node_matches h False re) (go_vals (FGhosts snap)))))"

definition SearchJSON :: "host \<Rightarrow> FrozenSnapshot \<Rightarrow> string \<Rightarrow> string + json" where
  "SearchJSON h snap query =
     (case search_doc h snap query of
        Inl e \<Rightarrow> Inl e
      | Inr ms \<Rightarrow> Inr (JArr (map (\<lambda>m. JObj
          ([(''pid'', jnat (unat (smPID m))), (''comm'', jstr (smComm m)), (''match_kind'', jstr (smMatchKind m))]
           @ omit_if (smEffectKind m = []) ''effect_kind'' (jstr (smEffectKind m))
           @ omit_if (smTarget m = []) ''target'' (jstr (smTarget m))
           @ omit_if (smCount m = 0) ''count'' (jnat (unat (smCount m)))
           @ omit_if (smLastSeen m = []) ''last_seen'' (jstr (smLastSeen m)))) ms)))"

end
