(* ===== verification/ProcReports.thy ===== *)
theory ProcReports
  imports Query
begin

text \<open>
  The reports on one process that read \<^verbatim>\<open>/proc\<close>, the executable, or the output of a tool
  (\<^verbatim>\<open>context/query.go\<close>): memory map, linked libraries, hash, strings, shell history, sockets,
  environment and system-call trace.
\<close>

section \<open>Line scanning\<close>

text \<open>
  \<^verbatim>\<open>bufio.Scanner\<close> over a text: lines without their line ends; it stops for good at a line that
  does not fit its buffer of 64 KB.
\<close>

definition drop_cr :: "string \<Rightarrow> string" where
  "drop_cr s = (if HasSuffix s [CHR 0x0D] then take (length s - 1) s else s)"

definition scan_lines :: "string \<Rightarrow> string list" where
  "scan_lines s =
     (let ls = Lines s; ls' = (if last ls = [] then butlast ls else ls) in
      map drop_cr (takeWhile (\<lambda>l. length l < 65536) ls'))"

definition rule_line :: "nat \<Rightarrow> string" where
  "rule_line n = replicate n (CHR ''-'') @ nl"

definition not_found :: "string \<Rightarrow> u32 \<Rightarrow> string" where
  "not_found what pid = ''['' @ what @ '': '' @ pid_str pid @ ''] Process not found in snapshot.''"

definition report_head :: "string \<Rightarrow> u32 \<Rightarrow> ProcessNode \<Rightarrow> string" where
  "report_head what pid p = ''['' @ what @ '': '' @ pid_str pid @ ''] ('' @ Comm p @ '')''"

definition proc_file :: "u32 \<Rightarrow> string \<Rightarrow> string" where
  "proc_file pid nm = ''/proc/'' @ pid_str pid @ ''/'' @ nm"

section \<open>The memory map\<close>

record mapSummary =
  startAddr :: string
  endAddr :: string
  permsStr :: string
  mapPath :: string
  sizeBytes :: u64

text \<open>One line of \<^verbatim>\<open>/proc/<pid>/maps\<close> as a region of its own, or nothing when it is malformed.\<close>

definition parse_map_line :: "string \<Rightarrow> mapSummary option" where
  "parse_map_line line =
     (let flds = Fields line in
      if length flds < 5 then None
      else
        let addrs = split_byte (CHR ''-'') (flds ! 0) in
        if length addrs \<noteq> 2 then None
        else Some \<lparr>startAddr = addrs ! 0, endAddr = addrs ! 1, permsStr = flds ! 1,
                   mapPath = (if 6 \<le> length flds then Join (drop 5 flds) '' '' else ''[anonymous]''),
                   sizeBytes = of_nat (ScanUint 16 64 (addrs ! 1)) - of_nat (ScanUint 16 64 (addrs ! 0))\<rparr>)"

text \<open>The regions seen so far, the current one last.\<close>

definition add_region :: "mapSummary list \<Rightarrow> mapSummary \<Rightarrow> mapSummary list" where
  "add_region acc r =
     (if acc \<noteq> [] \<and> mapPath (last acc) = mapPath r \<and> permsStr (last acc) = permsStr r
      then butlast acc @ [(last acc)\<lparr>endAddr := endAddr r, sizeBytes := sizeBytes (last acc) + sizeBytes r\<rparr>]
      else acc @ [r])"

definition map_summaries :: "string \<Rightarrow> mapSummary list" where
  "map_summaries content = foldl add_region [] (List.map_filter parse_map_line (scan_lines content))"

definition size_str :: "u64 \<Rightarrow> string" where
  "size_str n =
     (if 1048576 < n then dec (unat n div 1048576) @ '' MB''
      else if 1024 < n then dec (unat n div 1024) @ '' KB''
      else dec (unat n) @ '' B'')"

definition map_row :: "string \<Rightarrow> string \<Rightarrow> string \<Rightarrow> string \<Rightarrow> string" where
  "map_row a b c d = pad_right 33 a @ '' '' @ pad_right 6 b @ '' '' @ pad_right 10 c @ '' '' @ d @ nl"

definition short_path :: "string \<Rightarrow> string" where
  "short_path path = (if 60 < length path then ''...'' @ drop (length path - 57) path else path)"

definition ReadProcessMaps :: "host \<Rightarrow> FrozenSnapshot \<Rightarrow> u32 \<Rightarrow> string" where
  "ReadProcessMaps h snap pid =
     (case snap_lookup snap pid of
        None \<Rightarrow> not_found ''Process Maps'' pid
      | Some p \<Rightarrow>
          (case hReadFile h (proc_file pid ''maps'') of
             Inl err \<Rightarrow> report_head ''Process Maps'' pid p @ nl @ ''Error reading maps: '' @ err
           | Inr content \<Rightarrow>
               report_head ''Process Maps'' pid p @ '' '' @ taken_at h snap @ nl
               @ (if BinaryPath p \<noteq> [] then ''Binary: '' @ BinaryPath p @ nl else []) @ nl
               @ map_row ''ADDRESS RANGE'' ''PERMS'' ''SIZE'' ''PATH'' @ rule_line 80
               @ concat (map (\<lambda>s. map_row (startAddr s @ ''-'' @ endAddr s) (permsStr s) (size_str (sizeBytes s))
                                     (short_path (mapPath s))) (map_summaries content))))"

subsection \<open>The summary keeps sizes and permissions\<close>

fun runs :: "('a \<Rightarrow> 'b) \<Rightarrow> 'a list \<Rightarrow> 'b list" where
  "runs f [] = []"
| "runs f [x] = [f x]"
| "runs f (x # y # xs) = (if f x = f y then runs f (y # xs) else f x # runs f (y # xs))"

lemma runs_snoc: "xs \<noteq> [] \<Longrightarrow> runs f (xs @ [y]) = (if f (last xs) = f y then runs f xs else runs f xs @ [f y])"
  by (induction f xs rule: runs.induct) auto

lemma runs_last: "xs \<noteq> [] \<Longrightarrow> runs f xs \<noteq> [] \<and> last (runs f xs) = f (last xs)"
  by (induction f xs rule: runs.induct) auto

abbreviation region_kind :: "mapSummary \<Rightarrow> string \<times> string" where
  "region_kind r \<equiv> (mapPath r, permsStr r)"

lemma add_region_kinds:
  "map region_kind (add_region acc r) =
   (if acc \<noteq> [] \<and> region_kind (last acc) = region_kind r then map region_kind acc
    else map region_kind acc @ [region_kind r])"
  by (cases acc rule: rev_cases) (auto simp: add_region_def)

lemma add_region_size: "sum_list (map sizeBytes (add_region acc r)) = sum_list (map sizeBytes acc) + sizeBytes r"
  by (cases acc rule: rev_cases) (auto simp: add_region_def)

lemma fold_regions:
  "sum_list (map sizeBytes (foldl add_region [] rs)) = sum_list (map sizeBytes rs)
   \<and> map region_kind (foldl add_region [] rs) = runs region_kind rs"
proof (induction rs rule: rev_induct)
  case (snoc r rs)
  let ?acc = "foldl add_region [] rs"
  have k: "map region_kind ?acc = runs region_kind rs" using snoc by simp
  have "?acc \<noteq> [] \<longleftrightarrow> rs \<noteq> []" using k runs_last [of rs region_kind] by (cases rs) auto
  moreover have "region_kind (last ?acc) = region_kind (last rs)" if "rs \<noteq> []"
  proof -
    have "last (map region_kind ?acc) = region_kind (last rs)" using k runs_last [OF that, of region_kind] by simp
    with \<open>?acc \<noteq> [] \<longleftrightarrow> rs \<noteq> []\<close> that show ?thesis by (simp add: last_map)
  qed
  ultimately show ?case
    using snoc by (cases "rs = []") (auto simp: add_region_size add_region_kinds runs_snoc)
qed simp

text \<open>
  the condensed map keeps the total size of the regions that \<^verbatim>\<open>/proc\<close> lists, and its lines are the
  runs of regions with one path and one set of permissions: regions that differ in their
  permissions are never merged.
\<close>

theorem map_summaries_runs:
  "sum_list (map sizeBytes (map_summaries content)) =
     sum_list (map sizeBytes (List.map_filter parse_map_line (scan_lines content)))
   \<and> map (\<lambda>s. (mapPath s, permsStr s)) (map_summaries content) =
     runs (\<lambda>s. (mapPath s, permsStr s)) (List.map_filter parse_map_line (scan_lines content))"
  unfolding map_summaries_def by (rule fold_regions)

text \<open>
  regions are merged without a look at their addresses: two regions of one path with a hole between
  them become one line whose address range covers the hole.
\<close>

theorem map_summaries_merge_over_holes:
  assumes "List.map_filter parse_map_line (scan_lines content) = [r, s]"
    and "mapPath r = mapPath s" and "permsStr r = permsStr s"
  shows "\<exists>m. map_summaries content = [m] \<and> startAddr m = startAddr r \<and> endAddr m = endAddr s
    \<and> sizeBytes m = sizeBytes r + sizeBytes s"
  using assms by (simp add: map_summaries_def add_region_def)

lemma map_summaries_merge_over_holes_witness:
  "\<exists>m. map_summaries (''10-20 rw-p 0 0 0'' @ nl @ ''80-90 rw-p 0 0 0'' @ nl) = [m]
    \<and> startAddr m = ''10'' \<and> endAddr m = ''90'' \<and> sizeBytes m = 32"
proof -
  let ?r = "\<lparr>startAddr = ''10'', endAddr = ''20'', permsStr = ''rw-p'', mapPath = ''[anonymous]'', sizeBytes = 16\<rparr>"
  let ?s = "\<lparr>startAddr = ''80'', endAddr = ''90'', permsStr = ''rw-p'', mapPath = ''[anonymous]'', sizeBytes = 16\<rparr>"
  have "List.map_filter parse_map_line (scan_lines (''10-20 rw-p 0 0 0'' @ nl @ ''80-90 rw-p 0 0 0'' @ nl)) = [?r, ?s]"
    by (simp add: scan_lines_def nl_def drop_cr_def HasSuffix_def map_filter_simps parse_map_line_def ScanUint_def
        digits_val_def is_digit_def digit_of_def go_strings)
  from map_summaries_merge_over_holes [OF this] show ?thesis by simp
qed

section \<open>Libraries, hash and strings of the executable\<close>

definition lib_row :: "string \<Rightarrow> string \<Rightarrow> string" where
  "lib_row a b = pad_right 30 a @ '' '' @ b @ nl"

definition ldd_row :: "string \<Rightarrow> string" where
  "ldd_row raw =
     (let line = TrimSpace raw in
      if line = [] then []
      else
        let parts = split_str line '' => '' in
        if length parts = 2
        then lib_row (TrimSpace (parts ! 0)) (hd (split_str (TrimSpace (parts ! 1)) '' (''))
        else lib_row (hd (split_str line '' (''))  ''[builtin or absolute]'')"

definition GetLinkedLibraries :: "host \<Rightarrow> FrozenSnapshot \<Rightarrow> u32 \<Rightarrow> string" where
  "GetLinkedLibraries h snap pid =
     (case snap_lookup snap pid of
        None \<Rightarrow> not_found ''Linked Libraries'' pid
      | Some p \<Rightarrow>
          if BinaryPath p = [] then
            report_head ''Linked Libraries'' pid p @ nl @ ''No binary path recorded. Cannot run ldd.''
          else (case hRun h [''ldd'', BinaryPath p] of
             (Some err, out) \<Rightarrow>
               report_head ''Linked Libraries'' pid p @ '' '' @ BinaryPath p @ nl @ ''Error running ldd: '' @ err @ nl
               @ ''Output: '' @ out
           | (None, out) \<Rightarrow>
               report_head ''Linked Libraries'' pid p @ '' '' @ taken_at h snap @ nl
               @ ''Binary: '' @ BinaryPath p @ nl @ nl @ lib_row ''LIBRARY'' ''RESOLVED PATH'' @ rule_line 80
               @ concat (map ldd_row (scan_lines out))))"

definition HashBinary :: "host \<Rightarrow> FrozenSnapshot \<Rightarrow> u32 \<Rightarrow> string" where
  "HashBinary h snap pid =
     (case snap_lookup snap pid of
        None \<Rightarrow> not_found ''Hash Binary'' pid
      | Some p \<Rightarrow>
          (let exe = proc_file pid ''exe'';
               missing = hStat h exe \<noteq> None;
               exePath = (if missing then BinaryPath p else exe);
               head = report_head ''Hash Binary'' pid p
           in if missing \<and> BinaryPath p = [] then
                head @ nl @ ''Cannot find executable path to hash. Process may have exited and no binary path was recorded.''
              else (case hOpen h exePath of
                 Some err \<Rightarrow> head @ nl @ ''Error opening executable '' @ exePath @ '': '' @ err
               | None \<Rightarrow>
                   (case hSha256 h exePath of
                      Inl err \<Rightarrow> head @ nl @ ''Error hashing executable '' @ exePath @ '': '' @ err
                    | Inr digest \<Rightarrow>
                        head @ '' '' @ taken_at h snap @ nl @ ''Binary: '' @ exePath @ nl
                        @ ''SHA256: '' @ hex_encode digest @ nl))))"

definition ExtractStrings :: "host \<Rightarrow> FrozenSnapshot \<Rightarrow> string \<Rightarrow> int \<Rightarrow> string" where
  "ExtractStrings h snap path minLength0 =
     (let minLength = (if minLength0 \<le> 0 then 8 else minLength0); head = ''[Extract Strings: '' @ path @ '']'' in
      case hStat h path of
        Some err \<Rightarrow> head @ nl @ ''Cannot access file: '' @ err
      | None \<Rightarrow>
          (case hRun h [''strings'', ''-a'', ''-n'', dec_int minLength, path] of
             (Some err, out) \<Rightarrow> head @ nl @ ''Error running strings: '' @ err @ nl @ ''Output: '' @ out
           | (None, out) \<Rightarrow>
               (let ls = Lines out in
                head @ '' (Min Length: '' @ dec_int minLength @ '') '' @ taken_at h snap @ nl @ nl
                @ (if 200 < length ls
                   then Join (take 200 ls) nl @ nl @ ''... (Output truncated, '' @ dec (length ls)
                        @ '' total strings found) ...'' @ nl
                   else out))))"

section \<open>Shell history\<close>

definition history_lines :: "string \<Rightarrow> string list" where
  "history_lines content = (let ls = Lines content in if last ls = [] then butlast ls else ls)"

definition strip_zsh_stamp :: "string \<Rightarrow> string" where
  "strip_zsh_stamp line =
     (if HasPrefix line '': '' then
        (case SplitN2 (CHR '';'') line of [_, b] \<Rightarrow> b | _ \<Rightarrow> line)
      else line)"

definition last_n :: "int \<Rightarrow> 'a list \<Rightarrow> 'a list" where
  "last_n n xs = (if n < int (length xs) then drop (length xs - nat n) xs else xs)"

definition history_block :: "int \<Rightarrow> string \<Rightarrow> string \<Rightarrow> string" where
  "history_block limit file content =
     ''--- From: '' @ file @ '' ---'' @ nl
     @ concat (map (\<lambda>l. strip_zsh_stamp l @ nl) (last_n limit (history_lines content))) @ nl"

definition ReadShellHistory :: "host \<Rightarrow> FrozenSnapshot \<Rightarrow> string \<Rightarrow> int \<Rightarrow> string" where
  "ReadShellHistory h snap username limit0 =
     (let limit = (if limit0 \<le> 0 then 50 else limit0) in
      case hHome h username of
        Inl err \<Rightarrow> ''[Read Shell History: '' @ username @ '']'' @ nl @ ''Error looking up user: '' @ err
      | Inr home \<Rightarrow>
          (let files = [PathJoin [home, ''.zsh_history''], PathJoin [home, ''.bash_history'']];
               found = List.map_filter (\<lambda>f. case hReadFile h f of Inl _ \<Rightarrow> None | Inr c \<Rightarrow> Some (f, c)) files
           in ''[Read Shell History: '' @ username @ ''] (Limit: '' @ dec_int limit @ '' lines) '' @ taken_at h snap
              @ nl @ nl @ concat (map (\<lambda>(f, c). history_block limit f c) found)
              @ (if found = []
                 then ''Could not read any standard shell history files (.zsh_history, .bash_history) for the user.''
                      @ nl @ ''Check permissions or if the user uses a different shell.'' @ nl
                 else [])))"

section \<open>Sockets\<close>

definition parseHexIPPort :: "string \<Rightarrow> bool \<Rightarrow> string" where
  "parseHexIPPort hexStr isV6 =
     (let parts = split_byte (CHR '':'') hexStr in
      if length parts \<noteq> 2 then hexStr
      else
        let ipHex = parts ! 0;
            ipStr = (if \<not> isV6 \<and> length ipHex = 8
                     then Join (map dec (rev (ScanHexBytes 4 ipHex))) ''.'' else ipHex)
        in ipStr @ '':'' @ dec_int (ScanInt 16 64 (parts ! 1)))"

definition tcp_states :: "(string, string) gomap" where
  "tcp_states =
     [(''01'', ''ESTABLISHED''), (''02'', ''SYN_SENT''), (''03'', ''SYN_RECV''), (''04'', ''FIN_WAIT1''),
      (''05'', ''FIN_WAIT2''), (''06'', ''TIME_WAIT''), (''07'', ''CLOSE''), (''08'', ''CLOSE_WAIT''),
      (''09'', ''LAST_ACK''), (''0A'', ''LISTEN''), (''0B'', ''CLOSING'')]"

definition socket_row :: "bool \<Rightarrow> string \<Rightarrow> string option" where
  "socket_row isV6 raw =
     (let line = TrimSpace raw; flds = Fields line in
      if line = [] \<or> length flds < 4 then None
      else Some (pad_right 25 (parseHexIPPort (flds ! 1) isV6) @ '' ''
                 @ pad_right 25 (parseHexIPPort (flds ! 2) isV6) @ '' ''
                 @ (case map_of tcp_states (flds ! 3) of Some s \<Rightarrow> s | None \<Rightarrow> flds ! 3) @ nl))"

definition socket_rows :: "host \<Rightarrow> string \<Rightarrow> string list" where
  "socket_rows h netFile =
     (case hReadFile h netFile of
        Inl _ \<Rightarrow> []
      | Inr content \<Rightarrow> List.map_filter (socket_row (HasSuffix netFile ''6'')) (tl (Lines content)))"

definition NetworkState :: "host \<Rightarrow> FrozenSnapshot \<Rightarrow> u32 \<Rightarrow> string" where
  "NetworkState h snap pid =
     (case snap_lookup snap pid of
        None \<Rightarrow> not_found ''Network State'' pid
      | Some p \<Rightarrow>
          (let rows = concat (map (socket_rows h) [proc_file pid ''net/tcp'', proc_file pid ''net/tcp6'']) in
           report_head ''Network State'' pid p @ '' '' @ taken_at h snap @ nl @ nl
           @ pad_right 25 ''LOCAL_ADDRESS'' @ '' '' @ pad_right 25 ''REMOTE_ADDRESS'' @ '' '' @ ''STATE'' @ nl
           @ rule_line 60 @ concat rows
           @ (if rows = [] then ''No active TCP connections found in /proc/<pid>/net/tcp.'' @ nl else [])))"

section \<open>Environment\<close>

definition env_vars :: "string \<Rightarrow> string list" where
  "env_vars content = sort_slice (less_by id) (filter (\<lambda>v. v \<noteq> []) (split_byte (CHR 0x00) content))"

definition ReadEnviron :: "host \<Rightarrow> FrozenSnapshot \<Rightarrow> u32 \<Rightarrow> string" where
  "ReadEnviron h snap pid =
     (case snap_lookup snap pid of
        None \<Rightarrow> not_found ''Read Environ'' pid
      | Some p \<Rightarrow>
          (let envPath = proc_file pid ''environ''; head = report_head ''Read Environ'' pid p in
           case hReadFile h envPath of
             Inl err \<Rightarrow> head @ nl @ ''Error reading '' @ envPath @ '': '' @ err @ nl
               @ ''(Check permissions, or process may have exited)''
           | Inr content \<Rightarrow>
               if content = [] then head @ nl @ ''Environment is empty.''
               else head @ '' '' @ taken_at h snap @ nl @ nl @ concat (map (\<lambda>v. v @ nl) (env_vars content))))"

text \<open>
  an environment written as NUL-terminated, non-empty variables is reported variable by variable, in
  alphabetical order.
\<close>

theorem env_vars_complete:
  assumes "\<forall>v \<in> set vars. v \<noteq> [] \<and> CHR 0x00 \<notin> set v"
  shows "mset (env_vars (concat (map (\<lambda>v. v @ [CHR 0x00]) vars))) = mset vars
    \<and> sorted (env_vars (concat (map (\<lambda>v. v @ [CHR 0x00]) vars)))"
proof -
  have "split_byte (CHR 0x00) (concat (map (\<lambda>v. v @ [CHR 0x00]) vars)) = vars @ [[]]"
    using assms by (induction vars) (auto simp: split_byte_append split_byte_single)
  then have "filter (\<lambda>v. v \<noteq> []) (split_byte (CHR 0x00) (concat (map (\<lambda>v. v @ [CHR 0x00]) vars))) = vars"
    using assms by (simp add: filter_id_conv)
  then have "env_vars (concat (map (\<lambda>v. v @ [CHR 0x00]) vars)) = sort_slice (less_by id) vars"
    by (simp add: env_vars_def)
  then show ?thesis
    using ss.srt_by_key_asc [of id vars] by (simp add: ss.srt_mset sorted_wrt_iff_nth_less sorted_iff_nth_mono_less)
qed

lemma env_vars_complete_witness:
  "mset (env_vars (concat (map (\<lambda>v. v @ [CHR 0x00]) [''PATH=/bin'', ''HOME=/root'']))) = {#''PATH=/bin'', ''HOME=/root''#}"
proof -
  have "\<forall>v \<in> set [''PATH=/bin'', ''HOME=/root'']. v \<noteq> [] \<and> CHR 0x00 \<notin> set v" by simp
  from env_vars_complete [OF this] show ?thesis by simp
qed

section \<open>System-call trace\<close>

text \<open>
  What running \<^verbatim>\<open>strace -c -p <pid>\<close> comes to: it does not start, it ends before the time is
  over (with or without an error), or it is interrupted when the time is over.
\<close>

datatype trace_outcome =
  TraceNotStarted string
| TraceEnded "string option" string
| TraceInterrupted string

definition TraceSyscalls ::
  "host \<Rightarrow> (string list \<Rightarrow> int \<Rightarrow> trace_outcome) \<Rightarrow> FrozenSnapshot \<Rightarrow> u32 \<Rightarrow> int \<Rightarrow> string" where
  "TraceSyscalls h strace snap pid seconds0 =
     (case snap_lookup snap pid of
        None \<Rightarrow> not_found ''Trace Syscalls'' pid
      | Some p \<Rightarrow>
          (let seconds = (if seconds0 \<le> 0 then 5 else seconds0); head = report_head ''Trace Syscalls'' pid p;
               done = (\<lambda>out. head @ '' '' @ taken_at h snap @ nl @ ''Duration: '' @ dec_int seconds @ '' seconds'' @ nl @ nl
                  @ (if out = [] then ''No syscalls captured or process unreachable by strace.'' @ nl else out))
           in case strace [FStracePath snap, ''-c'', ''-p'', pid_str pid] seconds of
                TraceNotStarted err \<Rightarrow>
                  head @ nl @ ''Failed to start strace: '' @ err @ nl
                  @ ''Make sure you have privileges and strace is installed.''
              | TraceEnded (Some err) out \<Rightarrow>
                  head @ nl @ ''strace exited early with error: '' @ err @ nl @ ''Output: '' @ out
              | TraceEnded None out \<Rightarrow> done out
              | TraceInterrupted out \<Rightarrow> done out))"

end
