(* ===== verification/Memory.thy ===== *)
theory Memory
  imports ProcReports
begin

text \<open>
  Reading files and process memory (\<^verbatim>\<open>context/query.go\<close>): the bounded file reader, the ptrace
  session around each read of \<^verbatim>\<open>/proc/<pid>/mem\<close>, the listing of scan-worthy regions and
  \<open>ScanHeap\<close>. A Go panic is an outcome of its own. \<open>act\<close> is the trace of calls on the
  thread and on the traced process; the kernel's answer to a detach may depend on the calls before it.
\<close>

section \<open>Outcomes\<close>

datatype 'a go_result = Ok 'a | Failed string | Panic string

datatype act = LockThread | UnlockThread | Attach u32 | Stopped u32 | Detach u32 | DetachFailed u32

record memhost =
  mAttach :: "u32 \<Rightarrow> string option"
  mWait :: "u32 \<Rightarrow> string option"
  mDetach :: "u32 \<Rightarrow> act list \<Rightarrow> string option"
  mOpen :: "string \<Rightarrow> string option"
  mSeek :: "string \<Rightarrow> u64 \<Rightarrow> string option"
  mRead :: "string \<Rightarrow> u64 \<Rightarrow> nat \<Rightarrow> string option \<times> string"

section \<open>\<^verbatim>\<open>hex.Dump\<close>\<close>

definition printable_or_dot :: "char \<Rightarrow> char" where
  "printable_or_dot c = (if 32 \<le> (of_char c :: nat) \<and> (of_char c :: nat) \<le> 126 then c else CHR ''.'')"

definition dump_line :: "nat \<Rightarrow> string \<Rightarrow> string" where
  "dump_line off bs =
     (let cell = (\<lambda>i. (if i < length bs then hex_encode [bs ! i] @ '' '' else ''   '') @ (if i = 7 then '' '' else []))
      in hex_digits 8 (off mod 2 ^ 32) @ ''  '' @ concat (map cell [0..<16]) @ '' |''
         @ map printable_or_dot bs @ ''|'' @ nl)"

function dump_from :: "nat \<Rightarrow> string \<Rightarrow> string" where
  "dump_from off bs =
     (if bs = [] then [] else dump_line off (take 16 bs) @ dump_from (off + 16) (drop 16 bs))"
  by pat_completeness auto
termination by (relation "measure (\<lambda>(_, bs). length bs)") auto

declare dump_from.simps [simp del]

definition hex_dump :: "string \<Rightarrow> string" where
  "hex_dump bs = dump_from 0 bs"

section \<open>\<^verbatim>\<open>ReadFile\<close>\<close>

definition file_limit :: "int \<Rightarrow> int" where
  "file_limit limit =
     (let l = (if limit \<le> 0 then 4096 else limit) in if 1048576 < l then 1048576 else l)"

definition unprintable :: "char \<Rightarrow> bool" where
  "unprintable c \<longleftrightarrow> (of_char c :: nat) < 32 \<and> c \<notin> {CHR 0x0A, CHR 0x0D, CHR 0x09}"

text \<open>\<^verbatim>\<open>float64(unprintable)/float64(n) > 0.10\<close>: the constant is \<open>tenth\<close>, the division rounds.\<close>

definition mostly_binary :: "(rat \<Rightarrow> rat) \<Rightarrow> string \<Rightarrow> bool" where
  "mostly_binary rnd buf \<longleftrightarrow>
     tenth < rnd (of_nat (length (filter unprintable buf)) / of_nat (length buf))"

definition ReadFile :: "(rat \<Rightarrow> rat) \<Rightarrow> memhost \<Rightarrow> string \<Rightarrow> int \<Rightarrow> int \<Rightarrow> string" where
  "ReadFile rnd m path offset limit0 =
     (let limit = file_limit limit0; head = ''[Read File: '' @ path @ '']'' in
      case mOpen m path of
        Some err \<Rightarrow> head @ '' Error opening file: '' @ err
      | None \<Rightarrow>
          (case (if 0 < offset then mSeek m path (of_int offset) else None) of
             Some err \<Rightarrow> head @ '' Error seeking to offset '' @ dec_int offset @ '': '' @ err
           | None \<Rightarrow>
               (case mRead m path (of_int (max 0 offset)) (nat limit) of
                  (Some err, _) \<Rightarrow> head @ '' Error reading file: '' @ err
                | (None, buf) \<Rightarrow>
                    if buf = [] then head @ nl @ ''(Empty or EOF reached at offset '' @ dec_int offset @ '')''
                    else head @ '' (Offset: '' @ dec_int offset @ '', Read: '' @ dec (length buf) @ '' bytes)'' @ nl @ nl
                      @ (if mostly_binary rnd buf
                         then ''(Binary content detected. Rendering Hex Dump)'' @ nl @ hex_dump buf
                         else buf))))"

section \<open>Process memory\<close>

definition ptraceAttach :: "memhost \<Rightarrow> u32 \<Rightarrow> string option \<times> act list" where
  "ptraceAttach m pid =
     (case mAttach m pid of
        Some err \<Rightarrow> (Some err, [LockThread])
      | None \<Rightarrow> (None, [LockThread, Attach pid]))"

text \<open>The callers drop the error of a detach; the thread is unlocked in any case.\<close>

definition ptraceDetach :: "memhost \<Rightarrow> u32 \<Rightarrow> act list \<Rightarrow> act list" where
  "ptraceDetach m pid acts =
     acts @ [if mDetach m pid acts = None then Detach pid else DetachFailed pid, UnlockThread]"

definition ReadMemoryRawLocked :: "memhost \<Rightarrow> u32 \<Rightarrow> u64 \<Rightarrow> int \<Rightarrow> string go_result" where
  "ReadMemoryRawLocked m pid address n =
     (let memPath = proc_file pid ''mem'' in
      case mOpen m memPath of
        Some err \<Rightarrow> Failed (''open /proc/mem: '' @ err)
      | None \<Rightarrow>
          (case mSeek m memPath address of
             Some err \<Rightarrow> Failed (''seek error: '' @ err)
           | None \<Rightarrow>
               if n < 0 then Panic ''makeslice: len out of range''
               else (case mRead m memPath address (nat n) of
                       (Some err, _) \<Rightarrow> Failed (''read error: '' @ err)
                     | (None, bs) \<Rightarrow> Ok bs)))"

definition ReadMemoryRaw :: "memhost \<Rightarrow> u32 \<Rightarrow> u64 \<Rightarrow> int \<Rightarrow> string go_result \<times> act list" where
  "ReadMemoryRaw m pid address n =
     (case ptraceAttach m pid of
        (Some err, acts) \<Rightarrow> (Failed (''ptrace attach failed: '' @ err), acts)
      | (None, acts) \<Rightarrow>
          (case mWait m pid of
             Some err \<Rightarrow> (Failed (''waitpid failed: '' @ err), ptraceDetach m pid acts)
           | None \<Rightarrow> (ReadMemoryRawLocked m pid address n, ptraceDetach m pid (acts @ [Stopped pid]))))"

definition read_size :: "int \<Rightarrow> int" where
  "read_size n = (let k = (if n \<le> 0 then 1024 else n) in if 1048576 < k then 1048576 else k)"

definition ReadMemory :: "memhost \<Rightarrow> FrozenSnapshot \<Rightarrow> u32 \<Rightarrow> u64 \<Rightarrow> int \<Rightarrow> string go_result \<times> act list" where
  "ReadMemory m snap pid address n =
     (case snap_lookup snap pid of
        None \<Rightarrow> (Ok (not_found ''Read Memory'' pid), [])
      | Some p \<Rightarrow>
          (let (r, acts) = ReadMemoryRaw m pid address (read_size n); head = report_head ''Read Memory'' pid p;
               addr = ''0x'' @ hex (unat address)
           in (case r of
                 Panic e \<Rightarrow> Panic e
               | Failed err \<Rightarrow> Ok (head @ nl @ ''Error reading memory at '' @ addr @ '': '' @ err @ nl
                   @ ''(Check permissions, or process may have died/be protected)'')
               | Ok bs \<Rightarrow>
                   if bs = [] then Ok (head @ nl @ ''(0 bytes read at address '' @ addr @ ''. Unmapped region?)'')
                   else
                     let printable = length (filter (\<lambda>c. 32 \<le> (of_char c :: nat) \<and> (of_char c :: nat) \<le> 126) bs)
                     in Ok (''PID '' @ pid_str pid @ '' @ '' @ addr @ '' '' @ middle_dot @ '' '' @ dec (length bs)
                          @ '' bytes '' @ middle_dot @ '' '' @ dec (printable * 100 div length bs)
                          @ ''% printable'' @ nl @ nl @ hex_dump bs), acts)))"

definition re_strings :: re where
  "re_strings = re_at_least 4 (Chr (\<lambda>c. word_char c \<or> c = CHR ''.'' \<or> c = CHR ''-'' \<or> c = CHR ''/''))"

definition ReadRegion :: "memhost \<Rightarrow> u32 \<Rightarrow> u64 \<Rightarrow> int \<Rightarrow> string \<Rightarrow> string go_result \<times> act list" where
  "ReadRegion m pid start n encoding =
     (case ReadMemoryRaw m pid start n of
        (Ok bs, acts) \<Rightarrow>
          (Ok (if encoding = ''utf8'' then bs
               else if encoding = ''strings'' then Join (FindAllString re_strings bs) nl
               else hex_dump bs), acts)
      | r \<Rightarrow> r)"

subsection \<open>Sessions\<close>

text \<open>Attaches not yet undone, and locks of the thread not yet released.\<close>

definition attached :: "act list \<Rightarrow> int" where
  "attached acts = int (length (filter (\<lambda>a. \<exists>p. a = Attach p) acts)) - int (length (filter (\<lambda>a. \<exists>p. a = Detach p) acts))"

definition locked :: "act list \<Rightarrow> int" where
  "locked acts = int (count_list acts LockThread) - int (count_list acts UnlockThread)"

text \<open>
  A process that has stopped can be detached from; one that has not cannot always. So a read leaves its
  process traced exactly if the wait failed after the attach and the detach fails then too, and the
  goroutine locked to its thread exactly if the attach failed.
\<close>

lemma ReadMemoryRaw_session:
  assumes "\<forall>acts. Stopped pid \<in> set acts \<longrightarrow> mDetach m pid acts = None"
  shows "attached (snd (ReadMemoryRaw m pid address n)) =
      (if mAttach m pid = None \<and> mWait m pid \<noteq> None \<and> mDetach m pid [LockThread, Attach pid] \<noteq> None then 1 else 0)"
    and "locked (snd (ReadMemoryRaw m pid address n)) = (if mAttach m pid = None then 0 else 1)"
  using assms by (auto simp: ReadMemoryRaw_def ptraceAttach_def ptraceDetach_def attached_def locked_def
      split: option.splits)

section \<open>Regions\<close>

record RegionSummary =
  rStart :: u64
  rEnd :: u64
  rSize :: int
  rPerms :: string
  rLabel :: string

definition parse_region :: "string \<Rightarrow> RegionSummary option" where
  "parse_region line =
     (let flds = Fields line in
      if length flds < 5 then None
      else
        let perms = flds ! 1; addrRange = split_byte (CHR ''-'') (flds ! 0) in
        if \<not> HasSuffix perms ''p'' \<or> (\<not> Contains perms ''w'' \<and> \<not> Contains perms ''x'') then None
        else if length addrRange \<noteq> 2 then None
        else
          let start = of_nat (ScanUint 16 64 (addrRange ! 0)) :: u64;
              stop = of_nat (ScanUint 16 64 (addrRange ! 1)) :: u64;
              label = (if 6 \<le> length flds then Join (drop 5 flds) '' '' else [])
          in Some \<lparr>rStart = start, rEnd = stop, rSize = sint (stop - start), rPerms = perms,
                   rLabel = (if label = [] then ''[anon]'' else label)\<rparr>)"

definition region_json :: "RegionSummary \<Rightarrow> json" where
  "region_json r =
     JObj [(''start'', jnat (unat (rStart r))), (''end'', jnat (unat (rEnd r))), (''size'', jint (rSize r)),
           (''perms'', jstr (rPerms r)), (''label'', jstr (rLabel r))]"

definition unmarshal_region :: "json \<Rightarrow> RegionSummary option" where
  "unmarshal_region j =
     Option.bind (json_fields j) (\<lambda>fs.
     Option.bind (get_field (as_nat 64) 0 fs ''start'') (\<lambda>start.
     Option.bind (get_field (as_nat 64) 0 fs ''end'') (\<lambda>stop.
     Option.bind (get_field as_int 0 fs ''size'') (\<lambda>n.
     Option.bind (get_field as_string [] fs ''perms'') (\<lambda>perms.
     Option.bind (get_field as_string [] fs ''label'') (\<lambda>label.
     Some \<lparr>rStart = of_nat start, rEnd = of_nat stop, rSize = n, rPerms = perms, rLabel = label\<rparr>))))))"

text \<open>No region at all is the nil slice, which is written as null.\<close>

definition ListHeapRegions :: "host \<Rightarrow> FrozenSnapshot \<Rightarrow> u32 \<Rightarrow> string + json" where
  "ListHeapRegions h snap pid =
     (if snap_lookup snap pid = None then Inl (''process '' @ pid_str pid @ '' not found'')
      else case hReadFile h (proc_file pid ''maps'') of
             Inl err \<Rightarrow> Inl (''error reading maps: '' @ err)
           | Inr content \<Rightarrow>
               (let regions = List.map_filter parse_region (scan_lines content) in
                Inr (if regions = [] then JNull else JArr (map region_json regions))))"

fun unmarshal_regions :: "json \<Rightarrow> RegionSummary list" where
  "unmarshal_regions (JArr js) = List.map_filter unmarshal_region js"
| "unmarshal_regions _ = []"

lemma parse_region_size: "parse_region line = Some r \<Longrightarrow> rSize r = sint (rEnd r - rStart r)"
  by (auto simp: parse_region_def Let_def split: if_splits)

lemma unmarshal_region_json:
  assumes "rSize r = sint (rEnd r - rStart r)"
  shows "unmarshal_region (region_json r) =
    Some (r\<lparr>rPerms := to_valid (rPerms r), rLabel := to_valid (rLabel r)\<rparr>)"
proof -
  have u: "unat w < 2 ^ 64" for w :: u64 using unsigned_less [of w] by simp
  have s: "- (2 ^ 63) \<le> rSize r" "rSize r < 2 ^ 63"
    using sint_ge [of "rEnd r - rStart r"] sint_lt [of "rEnd r - rStart r"] assms by simp_all
  have "get_field (as_nat 64) 0 fs k = Some (unat w)" if "map_of fs k = Some (jnat (unat w))" for fs k and w :: u64
    using that u [of w] by (metis jnat_def get_field_simps(2) as_nat_jnat)
  moreover have "get_field as_int 0 fs k = Some (rSize r)" if "map_of fs k = Some (jint (rSize r))" for fs k
    using that s by (metis jint_def get_field_simps(2) as_int_jint)
  ultimately show ?thesis
    by (simp add: unmarshal_region_def region_json_def jstr_def)
qed

section \<open>\<^verbatim>\<open>ScanHeap\<close>\<close>

definition kept_region :: "string \<Rightarrow> RegionSummary \<Rightarrow> bool" where
  "kept_region binary reg \<longleftrightarrow>
     (let isLib = HasPrefix (rLabel reg) ''/usr/lib'' \<or> HasPrefix (rLabel reg) ''/lib'';
          isBinary = rLabel reg = binary;
          isAnon = HasPrefix (rLabel reg) ''[anon]'' \<or> Contains (rLabel reg) ''anon'';
          isHeap = HasPrefix (rLabel reg) ''[heap]'';
          isStack = HasPrefix (rLabel reg) ''[stack]''
      in (\<not> isLib \<and> (isAnon \<or> isHeap \<or> isStack \<or> \<not> HasPrefix (rLabel reg) ''/''))
         \<or> (isBinary \<and> Contains (rPerms reg) ''w''))"

definition mb :: int where "mb = 1048576"

function deep_chunks :: "int \<Rightarrow> int \<Rightarrow> (int \<times> int) list" where
  "deep_chunks n off =
     (if off < n then (off, if n < off + mb then n - off else mb) # deep_chunks n (off + 4 * mb) else [])"
  by pat_completeness auto
termination by (relation "measure (\<lambda>(n, off). nat (n - off))") (auto simp: mb_def)

declare deep_chunks.simps [simp del]

definition chunks_of :: "string \<Rightarrow> int \<Rightarrow> (int \<times> int) list" where
  "chunks_of mode n =
     (if n < 2 * mb then [(0, n)]
      else if mode = ''deep'' then deep_chunks n 0
      else [(0, mb), (n - mb, mb)])"

definition sampled :: "string \<Rightarrow> int \<Rightarrow> bool" where
  "sampled mode n \<longleftrightarrow> \<not> n < 2 * mb \<and> mode \<noteq> ''deep''"

lemma deep_chunks_within: "0 \<le> off \<Longrightarrow> (o', s) \<in> set (deep_chunks n off) \<Longrightarrow> off \<le> o' \<and> 0 < s \<and> s \<le> mb \<and> o' + s \<le> n"
proof (induction n off rule: deep_chunks.induct)
  case (1 n off)
  show ?case
  proof (cases "off < n")
    case True
    then consider "(o', s) = (off, if n < off + mb then n - off else mb)" | "(o', s) \<in> set (deep_chunks n (off + 4 * mb))"
      using "1.prems"(2) by (subst (asm) deep_chunks.simps) auto
    then show ?thesis
    proof cases
      case 1
      then show ?thesis using True by (auto simp: mb_def split: if_splits)
    next
      case 2
      have "0 \<le> off + 4 * mb" using "1.prems"(1) by (simp add: mb_def)
      from "1.IH" [OF True this 2] show ?thesis by (simp add: mb_def)
    qed
  next
    case False
    with "1.prems" show ?thesis by (subst (asm) deep_chunks.simps) simp
  qed
qed

text \<open>
  every chunk that a scan reads lies within its region and is shorter than two megabytes.
\<close>

theorem scan_chunks_within_region:
  assumes "(off, s) \<in> set (chunks_of mode n)" and "0 < s"
  shows "0 \<le> off \<and> off + s \<le> n \<and> s < 2 * mb"
proof (cases "n < 2 * mb")
  case True
  with assms show ?thesis by (simp add: chunks_of_def)
next
  case False
  then have n: "2 * mb \<le> n" by simp
  show ?thesis
  proof (cases "mode = ''deep''")
    case True
    with assms False have "(off, s) \<in> set (deep_chunks n 0)" by (simp add: chunks_of_def)
    from deep_chunks_within [OF order_refl this] show ?thesis by (simp add: mb_def)
  next
    case deep: False
    with assms False n show ?thesis by (auto simp: chunks_of_def mb_def)
  qed
qed

lemma scan_chunks_within_region_witness: "0 \<le> (0::int) \<and> 0 + 10 \<le> (10::int) \<and> 10 < 2 * mb"
  by (rule scan_chunks_within_region [of _ _ "''quick''"]) (simp_all add: chunks_of_def mb_def)

end
