(* ===== verification/HeapScan.thy ===== *)
theory HeapScan
  imports Memory
begin

text \<open>
  \<^verbatim>\<open>ScanHeap\<close> (\<^verbatim>\<open>context/query.go\<close>): the four patterns, the findings of one chunk, and the loop
  over regions and chunks with its early stop. \<open>None\<close> is the panic of slicing with the index
  \<open>-1\<close> of a capture group that took no part in the match.
\<close>

section \<open>Patterns\<close>

definition not_url_end :: re where
  "not_url_end = NotChr (\<lambda>c. space_class c \<or> c \<in> {CHR 0x22, CHR 0x27, CHR ''>''})"

definition re_digit :: re where
  "re_digit = Chr digit_char_class"

definition reIP :: re where
  "reIP = re_seq [WordBoundary, re_times 3 (Cat (re_between 1 3 re_digit) (re_lit ''.'')),
     re_between 1 3 re_digit, WordBoundary]"

definition reURL :: re where
  "reURL = re_seq [re_lit ''http'', re_opt (re_lit ''s''), re_lit ''://'', re_plus not_url_end]"

definition rePath :: re where
  "rePath = re_seq [re_lit ''/'', re_alts (map re_lit [''tmp'', ''var/tmp'', ''home'', ''etc'']),
     re_lit ''/'', re_plus not_url_end]"

definition alnum :: "char \<Rightarrow> bool" where
  "alnum c \<longleftrightarrow> is_digit 36 c"

definition re_quote :: re where
  "re_quote = re_opt (Chr (\<lambda>c. c = CHR 0x22 \<or> c = CHR 0x27))"

text \<open>The keyword alternative: what comes before its capture group, and the group.\<close>

definition key_prefix :: re where
  "key_prefix = re_seq
     [re_alts (map re_fold_lit [''key'', ''secret'', ''token'', ''auth'', ''passwd'', ''password'']),
      re_quote, Rep (Chr space_class), Chr (\<lambda>c. c = CHR '':'' \<or> c = CHR ''=''), Rep (Chr space_class), re_quote]"

definition key_group :: re where
  "key_group = re_at_least 16
     (re_fold_chr (\<lambda>c. alnum c \<or> c \<in> {CHR ''-'', CHR ''_'', CHR ''+'', CHR ''/'', CHR ''=''}))"

text \<open>The token alternative, which is a capture group of its own.\<close>

definition token_char :: re where
  "token_char = re_fold_chr (\<lambda>c. alnum c \<or> c = CHR ''_'')"

definition upper_digit_char :: re where
  "upper_digit_char = re_fold_chr (\<lambda>c. is_digit 10 c \<or> (65 \<le> (of_char c :: nat) \<and> (of_char c :: nat) \<le> 90)
     \<or> (97 \<le> (of_char c :: nat) \<and> (of_char c :: nat) \<le> 122))"

definition token_tail :: re where
  "token_tail = re_seq [re_lit ''_'', re_at_least 10 re_digit, re_lit ''_'', re_at_least 10 upper_digit_char]"

definition key_token :: re where
  "key_token = Cat (re_between 8 255 token_char) token_tail"

definition reKey :: re where
  "reKey = Alt (Cat key_prefix key_group) key_token"

text \<open>
  The first capture group of a match of \<^verbatim>\<open>reKey\<close> at an offset; \<open>None\<close> when the token
  alternative matched.
\<close>

definition key_submatch :: "string \<Rightarrow> nat \<Rightarrow> (nat \<times> string) option" where
  "key_submatch s off =
     (case find (\<lambda>q. ends key_group q \<noteq> []) (ends key_prefix (rev (take off s), drop off s)) of
        None \<Rightarrow> None
      | Some q \<Rightarrow>
          Some (length s - length (snd q),
                take (length (snd q) - length (snd (hd (ends key_group q)))) (snd q)))"

section \<open>Findings\<close>

record Finding =
  fKind :: string
  fValue :: string
  fAddress :: u64
  fRegion :: string
  fScore :: int

record ScanStats =
  RegionsScanned :: nat
  BytesRead :: nat
  FindingsTotal :: nat
  Truncated :: bool
  ReadErrors :: nat

record scan =
  seen :: "string list"
  findings :: "Finding list"
  stats :: ScanStats

definition score_of :: "string \<Rightarrow> string \<Rightarrow> int" where
  "score_of kind val =
     (if kind = ''POTENT_KEY'' then 90
      else if kind = ''URL'' \<and> (Contains val ''api'' \<or> Contains val ''secret'') then 80 else 50)"

definition addFinding :: "string \<Rightarrow> u64 \<Rightarrow> string \<Rightarrow> nat \<times> string \<Rightarrow> scan \<Rightarrow> scan" where
  "addFinding label base kind = (\<lambda>(off, val) s.
     (if val \<in> set (seen s) then s
      else s\<lparr>seen := val # seen s,
             findings := findings s @ [\<lparr>fKind = kind, fValue = val, fAddress = base + of_nat off,
                                        fRegion = label, fScore = score_of kind val\<rparr>],
             stats := (stats s)\<lparr>FindingsTotal := FindingsTotal (stats s) + 1\<rparr>\<rparr>))"

fun add_keys :: "string \<Rightarrow> u64 \<Rightarrow> string \<Rightarrow> nat list \<Rightarrow> scan \<Rightarrow> scan option" where
  "add_keys label base dat [] s = Some s"
| "add_keys label base dat (off # offs) s =
     (case key_submatch dat off of
        None \<Rightarrow> None
      | Some m \<Rightarrow> add_keys label base dat offs (addFinding label base ''POTENT_KEY'' m s))"

definition scan_text :: "string \<Rightarrow> u64 \<Rightarrow> string \<Rightarrow> scan \<Rightarrow> scan option" where
  "scan_text label base dat s =
     (let s1 = fold (addFinding label base ''IP_ADDR'') (FindAllIndex reIP dat) s;
          s2 = fold (addFinding label base ''URL'') (FindAllIndex reURL dat) s1;
          s3 = fold (addFinding label base ''SENS_PATH'') (FindAllIndex rePath dat) s2
      in add_keys label base dat (map fst (FindAllIndex reKey dat)) s3)"

section \<open>The loop\<close>

text \<open>A chunk: the new state and whether the scan stops.\<close>

definition scan_chunk :: "memhost \<Rightarrow> u32 \<Rightarrow> RegionSummary \<Rightarrow> int \<times> int \<Rightarrow> scan \<Rightarrow> (scan \<times> bool) option" where
  "scan_chunk m pid reg = (\<lambda>(off, n) s.
     (if n \<le> 0 then Some (s, False)
      else
        let base = rStart reg + of_int off in
        case ReadMemoryRawLocked m pid base n of
          Ok dat \<Rightarrow>
            (case scan_text (rLabel reg) base dat
                    (s\<lparr>stats := (stats s)\<lparr>BytesRead := BytesRead (stats s) + length dat\<rparr>\<rparr>) of
               None \<Rightarrow> None
             | Some s' \<Rightarrow>
                 if 200 < FindingsTotal (stats s')
                 then Some (s'\<lparr>stats := (stats s')\<lparr>Truncated := True\<rparr>\<rparr>, True)
                 else Some (s', False))
        | _ \<Rightarrow> Some (s\<lparr>stats := (stats s)\<lparr>ReadErrors := ReadErrors (stats s) + 1\<rparr>\<rparr>, False)))"

fun scan_chunks :: "memhost \<Rightarrow> u32 \<Rightarrow> RegionSummary \<Rightarrow> (int \<times> int) list \<Rightarrow> scan \<Rightarrow> scan option" where
  "scan_chunks m pid reg [] s = Some s"
| "scan_chunks m pid reg (c # cs) s =
     (case scan_chunk m pid reg c s of
        None \<Rightarrow> None
      | Some (s', stop) \<Rightarrow> if stop then Some s' else scan_chunks m pid reg cs s')"

fun scan_regions :: "memhost \<Rightarrow> u32 \<Rightarrow> string \<Rightarrow> RegionSummary list \<Rightarrow> scan \<Rightarrow> scan option" where
  "scan_regions m pid mode [] s = Some s"
| "scan_regions m pid mode (reg # regs) s =
     (case scan_chunks m pid reg (chunks_of mode (rSize reg))
             (if sampled mode (rSize reg) then s\<lparr>stats := (stats s)\<lparr>Truncated := True\<rparr>\<rparr> else s) of
        None \<Rightarrow> None
      | Some s' \<Rightarrow> if 200 < FindingsTotal (stats s') then Some s' else scan_regions m pid mode regs s')"

record HeapScanResult =
  hsPID :: u32
  hsComm :: string
  hsError :: string
  hsRegions :: "RegionSummary list"
  hsFindings :: "Finding list"
  hsStats :: ScanStats

definition zero_stats :: ScanStats where
  "zero_stats = \<lparr>RegionsScanned = 0, BytesRead = 0, FindingsTotal = 0, Truncated = False, ReadErrors = 0\<rparr>"

definition scan_start :: "string option \<Rightarrow> nat \<Rightarrow> scan" where
  "scan_start attachErr regions =
     (let st0 = zero_stats\<lparr>RegionsScanned := regions\<rparr> in
      case attachErr of
        None \<Rightarrow> \<lparr>seen = [], findings = [], stats = st0\<rparr>
      | Some err \<Rightarrow>
          \<lparr>seen = [],
           findings = [\<lparr>fKind = ''PTRACE_FAILED'', fValue = err, fAddress = 0, fRegion = [], fScore = 0\<rparr>],
           stats = st0\<lparr>ReadErrors := ReadErrors st0 + 1\<rparr>\<rparr>)"

definition ScanHeap :: "host \<Rightarrow> memhost \<Rightarrow> FrozenSnapshot \<Rightarrow> u32 \<Rightarrow> string \<Rightarrow> HeapScanResult go_result \<times> act list" where
  "ScanHeap h m snap pid mode =
     (case snap_lookup snap pid of
        None \<Rightarrow> (Failed (''process '' @ pid_str pid @ '' not found''), [])
      | Some p \<Rightarrow>
          (let r0 = \<lparr>hsPID = pid, hsComm = Comm p, hsError = [], hsRegions = [], hsFindings = [], hsStats = zero_stats\<rparr> in
           case ListHeapRegions h snap pid of
             Inl err \<Rightarrow> (Ok (r0\<lparr>hsError := err\<rparr>), [])
           | Inr raw \<Rightarrow>
               (let filtered = filter (kept_region (BinaryPath p)) (unmarshal_regions raw);
                    (attachErr, acts) = ptraceAttach m pid;
                    acts' = (if attachErr \<noteq> None then acts
                             else ptraceDetach m pid (acts @ (if mWait m pid = None then [Stopped pid] else [])))
                in case scan_regions m pid mode filtered (scan_start attachErr (length filtered)) of
                     None \<Rightarrow> (Panic ''slice bounds out of range [-1:]'', acts')
                   | Some s \<Rightarrow> (Ok (r0\<lparr>hsRegions := filtered, hsFindings := findings s, hsStats := stats s\<rparr>), acts'))))"

definition ScanHeap_json :: "HeapScanResult \<Rightarrow> json" where
  "ScanHeap_json r =
     JObj ([(''pid'', jnat (unat (hsPID r))), (''comm'', jstr (hsComm r))]
       @ omit_if (hsError r = []) ''error'' (jstr (hsError r))
       @ [(''regions'', if hsRegions r = [] \<and> hsError r = [] then JNull else JArr (map region_json (hsRegions r))),
          (''findings'', JArr (map (\<lambda>f. JObj [(''kind'', jstr (fKind f)), (''value'', jstr (fValue f)),
             (''address'', jnat (unat (fAddress f))), (''region'', jstr (fRegion f)), (''score'', jint (fScore f))])
             (hsFindings r))),
          (''stats'', JObj [(''regions_scanned'', jnat (RegionsScanned (hsStats r))),
             (''bytes_read'', jnat (BytesRead (hsStats r))), (''findings_total'', jnat (FindingsTotal (hsStats r))),
             (''truncated'', JBool (Truncated (hsStats r))), (''read_errors'', jnat (ReadErrors (hsStats r)))])])"

section \<open>What a scan reports\<close>

definition scan_inv :: "scan \<Rightarrow> bool" where
  "scan_inv s \<longleftrightarrow>
     (let real = filter (\<lambda>f. fKind f \<noteq> ''PTRACE_FAILED'') (findings s) in
      distinct (map fValue real) \<and> set (map fValue real) = set (seen s)
      \<and> FindingsTotal (stats s) = length real \<and> (\<forall>f \<in> set real. fScore f = score_of (fKind f) (fValue f)))"

lemma scan_inv_stats:
  "FindingsTotal st = FindingsTotal (stats s) \<Longrightarrow> scan_inv (s\<lparr>stats := st\<rparr>) = scan_inv s"
  by (simp add: scan_inv_def)

lemma addFinding_inv: "kind \<noteq> ''PTRACE_FAILED'' \<Longrightarrow> scan_inv s \<Longrightarrow> scan_inv (addFinding label base kind x s)"
proof -
  assume k: "kind \<noteq> ''PTRACE_FAILED''" and s: "scan_inv s"
  obtain off val where x: "x = (off, val)" by (cases x)
  show ?thesis
  proof (cases "val \<in> set (seen s)")
    case True
    with s x show ?thesis by (simp add: addFinding_def)
  next
    case False
    with s k x show ?thesis
      by (simp add: addFinding_def scan_inv_def Let_def del: set_map set_filter)
  qed
qed

lemma fold_findings_inv:
  "kind \<noteq> ''PTRACE_FAILED'' \<Longrightarrow> scan_inv s \<Longrightarrow> scan_inv (fold (addFinding label base kind) xs s)"
  by (induction xs arbitrary: s) (auto simp: addFinding_inv)

lemma add_keys_inv: "scan_inv s \<Longrightarrow> add_keys label base dat offs s = Some s' \<Longrightarrow> scan_inv s'"
proof (induction offs arbitrary: s)
  case (Cons off offs)
  then obtain m where m: "add_keys label base dat offs (addFinding label base ''POTENT_KEY'' m s) = Some s'"
    by (auto split: option.splits)
  show ?case by (rule Cons.IH [OF addFinding_inv m]) (simp_all add: Cons.prems)
qed simp

lemma scan_text_inv: "scan_inv s \<Longrightarrow> scan_text label base dat s = Some s' \<Longrightarrow> scan_inv s'"
proof -
  assume s: "scan_inv s" and t: "scan_text label base dat s = Some s'"
  let ?s1 = "fold (addFinding label base ''IP_ADDR'') (FindAllIndex reIP dat) s"
  let ?s2 = "fold (addFinding label base ''URL'') (FindAllIndex reURL dat) ?s1"
  let ?s3 = "fold (addFinding label base ''SENS_PATH'') (FindAllIndex rePath dat) ?s2"
  have "scan_inv ?s3" by (intro fold_findings_inv s) simp_all
  moreover have "add_keys label base dat (map fst (FindAllIndex reKey dat)) ?s3 = Some s'"
    using t by (simp add: scan_text_def Let_def)
  ultimately show "scan_inv s'" by (rule add_keys_inv)
qed

lemma scan_chunk_inv:
  assumes "scan_inv s" and "scan_chunk m pid reg c s = Some (s', stop)"
  shows "scan_inv s'"
proof -
  obtain off n where c: "c = (off, n)" by (cases c)
  have 1: "scan_inv (s\<lparr>stats := (stats s)\<lparr>BytesRead := k\<rparr>\<rparr>)" for k
    using assms(1) by (simp add: scan_inv_stats)
  show ?thesis
    using assms c scan_text_inv [OF 1]
    by (auto simp: scan_chunk_def Let_def scan_inv_stats split: if_splits go_result.splits option.splits)
qed

lemma scan_chunks_inv: "scan_inv s \<Longrightarrow> scan_chunks m pid reg cs s = Some s' \<Longrightarrow> scan_inv s'"
  by (induction cs arbitrary: s) (auto split: option.splits prod.splits if_splits dest: scan_chunk_inv)

lemma scan_regions_inv: "scan_inv s \<Longrightarrow> scan_regions m pid mode regs s = Some s' \<Longrightarrow> scan_inv s'"
proof (induction regs arbitrary: s)
  case (Cons reg regs)
  let ?s = "if sampled mode (rSize reg) then s\<lparr>stats := (stats s)\<lparr>Truncated := True\<rparr>\<rparr> else s"
  have "scan_inv ?s" using Cons.prems(1) by (simp add: scan_inv_stats)
  with Cons show ?case
    by (auto split: option.splits if_splits dest: scan_chunks_inv)
qed simp

lemma scan_start_inv: "scan_inv (scan_start e n)"
  by (simp add: scan_inv_def scan_start_def Let_def zero_stats_def split: option.splits)

lemma ScanHeap_run:
  assumes "fst (ScanHeap h m snap pid mode) = Ok r" and "hsError r = []"
  shows "\<exists>e regs s. scan_regions m pid mode regs (scan_start e (length regs)) = Some s
    \<and> hsFindings r = findings s \<and> hsStats r = stats s \<and> hsRegions r = regs"
proof -
  obtain p where p: "snap_lookup snap pid = Some p"
    using assms(1) by (auto simp: ScanHeap_def split: option.splits)
  show ?thesis
  proof (cases "ListHeapRegions h snap pid")
    case (Inl err)
    then have "err \<noteq> []" by (auto simp: ListHeapRegions_def Let_def split: if_splits sum.splits)
    with assms p Inl show ?thesis by (auto simp: ScanHeap_def)
  next
    case (Inr raw)
    obtain e acts where "ptraceAttach m pid = (e, acts)" by (cases "ptraceAttach m pid")
    with assms(1) p Inr obtain s where
      "scan_regions m pid mode (hsRegions r) (scan_start e (length (hsRegions r))) = Some s"
      "hsFindings r = findings s" "hsStats r = stats s"
      by (auto simp: ScanHeap_def Let_def split: option.splits)
    then show ?thesis by blast
  qed
qed


definition sample_host :: "(string \<Rightarrow> string + string) \<Rightarrow> host" where
  "sample_host files = \<lparr>hNow = 9, hZone = \<lambda>_. 0, hPrintable = \<lambda>_. True, hLower = id,
     hCompile = \<lambda>_. Inl ''none'', hReadFile = files, hStat = \<lambda>_. None, hOpen = \<lambda>_. None,
     hRun = \<lambda>_. (None, []), hSha256 = \<lambda>_. Inr [], hHome = \<lambda>_. Inl ''none''\<rparr>"

definition sample_mem :: "string \<Rightarrow> memhost" where
  "sample_mem dat = \<lparr>mAttach = \<lambda>_. None, mWait = \<lambda>_. None, mDetach = \<lambda>_ _. None, mOpen = \<lambda>_. None, mSeek = \<lambda>_ _. None,
     mRead = \<lambda>_ _ n. (None, take n dat)\<rparr>"

lemma sample_lookup: "snap_lookup sample_snap 42 = Some (newNode 42 ''/bin/sh'' ''sh'' 0)"
  by (simp add: snap_lookup_def sample_snap_def)


section \<open>What a scan reads\<close>

text \<open>Two memories give the same bytes for every read of less than two megabytes within a region.\<close>

definition same_reads :: "memhost \<Rightarrow> memhost \<Rightarrow> u32 \<Rightarrow> RegionSummary \<Rightarrow> bool" where
  "same_reads m m' pid reg \<longleftrightarrow>
     (\<forall>off n. 0 \<le> off \<and> 0 < n \<and> n < 2 * mb \<and> off + n \<le> rSize reg \<longrightarrow>
        mSeek m' (proc_file pid ''mem'') (rStart reg + of_int off) = mSeek m (proc_file pid ''mem'') (rStart reg + of_int off)
        \<and> mRead m' (proc_file pid ''mem'') (rStart reg + of_int off) (nat n) =
            mRead m (proc_file pid ''mem'') (rStart reg + of_int off) (nat n))"

lemma same_readsD:
  assumes "same_reads m m' pid reg" and "mOpen m' (proc_file pid ''mem'') = mOpen m (proc_file pid ''mem'')"
    and "0 \<le> off" "0 < n" "n < 2 * mb" "off + n \<le> rSize reg"
  shows "ReadMemoryRawLocked m' pid (rStart reg + of_int off) n = ReadMemoryRawLocked m pid (rStart reg + of_int off) n"
proof -
  have reads: "mSeek m' (proc_file pid ''mem'') (rStart reg + of_int off) = mSeek m (proc_file pid ''mem'') (rStart reg + of_int off)"
    "mRead m' (proc_file pid ''mem'') (rStart reg + of_int off) (nat n) =
       mRead m (proc_file pid ''mem'') (rStart reg + of_int off) (nat n)"
    using assms(1,3-6) unfolding same_reads_def by blast+
  show ?thesis unfolding ReadMemoryRawLocked_def Let_def assms(2) reads by (rule refl)
qed

lemma same_reads_region [simp]:
  "same_reads m m' pid (reg\<lparr>rPerms := a, rLabel := b\<rparr>) = same_reads m m' pid reg"
  by (simp add: same_reads_def)

lemma scan_chunks_same:
  assumes "same_reads m m' pid reg" and "mOpen m' (proc_file pid ''mem'') = mOpen m (proc_file pid ''mem'')"
    and "set cs \<subseteq> set (chunks_of mode (rSize reg))"
  shows "scan_chunks m' pid reg cs s = scan_chunks m pid reg cs s"
  using assms(3)
proof (induction cs arbitrary: s)
  case (Cons c cs)
  obtain off n where c: "c = (off, n)" by (cases c)
  have "scan_chunk m' pid reg (off, n) s = scan_chunk m pid reg (off, n) s"
  proof (cases "n \<le> 0")
    case False
    moreover from this have "0 \<le> off \<and> off + n \<le> rSize reg \<and> n < 2 * mb"
      using Cons.prems c by (intro scan_chunks_within_region) auto
    ultimately show ?thesis
      by (simp add: scan_chunk_def same_readsD [OF assms(1,2)])
  qed (simp add: scan_chunk_def)
  with Cons c show ?case by (simp split: option.splits)
qed simp

lemma scan_regions_same:
  assumes "\<forall>reg \<in> set regs. same_reads m m' pid reg"
    and "mOpen m' (proc_file pid ''mem'') = mOpen m (proc_file pid ''mem'')"
  shows "scan_regions m' pid mode regs s = scan_regions m pid mode regs s"
  using assms(1)
proof (induction regs arbitrary: s)
  case (Cons reg regs)
  then have "scan_chunks m' pid reg (chunks_of mode (rSize reg)) st = scan_chunks m pid reg (chunks_of mode (rSize reg)) st" for st
    by (intro scan_chunks_same [OF _ assms(2), where mode = mode]) simp_all
  with Cons show ?case by (simp split: option.splits)
qed simp

lemma unmarshal_listed:
  assumes "ListHeapRegions h snap pid = Inr raw" and "hReadFile h (proc_file pid ''maps'') = Inr content"
  shows "unmarshal_regions raw =
    map (\<lambda>reg. reg\<lparr>rPerms := to_valid (rPerms reg), rLabel := to_valid (rLabel reg)\<rparr>)
      (List.map_filter parse_region (scan_lines content))"
proof -
  let ?valid = "\<lambda>reg. reg\<lparr>rPerms := to_valid (rPerms reg), rLabel := to_valid (rLabel reg)\<rparr>"
  let ?regs = "List.map_filter parse_region (scan_lines content)"
  have "unmarshal_region (region_json reg) = Some (?valid reg)" if "reg \<in> set ?regs" for reg
    using that unmarshal_region_json parse_region_size by (auto simp: in_map_filter)
  then have "List.map_filter unmarshal_region (map region_json ?regs) = map ?valid ?regs"
    by (induction ?regs arbitrary: content) (auto simp: List.map_filter_def)
  then show ?thesis using assms by (auto simp: ListHeapRegions_def Let_def split: if_splits)
qed

text \<open>
  C29: A heap scan looks at nothing of the memory of a process but the regions of its memory map that it
  keeps (private, writable or executable, and no libraries): whatever two memories hold elsewhere, if every
  read of less than two megabytes within these regions gives the same on both, and so do the attach and the
  opening of the memory file, the result of the scan is the same, panics included.
\<close>

theorem ScanHeap_reads_kept_regions:
  assumes "snap_lookup snap pid = Some p" and "hReadFile h (proc_file pid ''maps'') = Inr content"
    and "\<forall>line \<in> set (scan_lines content). \<forall>reg. parse_region line = Some reg
      \<and> kept_region (BinaryPath p) (reg\<lparr>rPerms := to_valid (rPerms reg), rLabel := to_valid (rLabel reg)\<rparr>)
      \<longrightarrow> same_reads m m' pid reg"
    and "mAttach m' pid = mAttach m pid" and "mOpen m' (proc_file pid ''mem'') = mOpen m (proc_file pid ''mem'')"
  shows "fst (ScanHeap h m' snap pid mode) = fst (ScanHeap h m snap pid mode)"
proof (cases "ListHeapRegions h snap pid")
  case (Inl err)
  with assms(1) show ?thesis by (simp add: ScanHeap_def)
next
  case (Inr raw)
  let ?regs = "filter (kept_region (BinaryPath p)) (unmarshal_regions raw)"
  have "same_reads m m' pid reg" if reg: "reg \<in> set ?regs" for reg
  proof -
    obtain line r where "line \<in> set (scan_lines content)" "parse_region line = Some r"
      and r: "reg = r\<lparr>rPerms := to_valid (rPerms r), rLabel := to_valid (rLabel r)\<rparr>"
      using reg unmarshal_listed [OF Inr assms(2)] by (auto simp: in_map_filter)
    then have "same_reads m m' pid r" using assms(3) reg by auto
    then show ?thesis unfolding r by simp
  qed
  then have "scan_regions m' pid mode ?regs s = scan_regions m pid mode ?regs s" for s
    by (intro scan_regions_same assms(5)) blast
  then show ?thesis
    using assms(1,4) Inr by (simp add: ScanHeap_def ptraceAttach_def Let_def split: option.splits)
qed

definition holed_mem :: "string \<Rightarrow> memhost" where
  "holed_mem dat = (sample_mem dat)\<lparr>mRead := \<lambda>_ a n. if 256 \<le> a then (Some ''input/output error'', []) else (None, take n dat)\<rparr>"

lemma ScanHeap_reads_kept_regions_witness:
  "fst (ScanHeap (sample_host (\<lambda>_. Inr ''0-100 rw-p 0 0 0'')) (holed_mem ''10.0.0.7'') sample_snap 42 ''deep'') =
   fst (ScanHeap (sample_host (\<lambda>_. Inr ''0-100 rw-p 0 0 0'')) (sample_mem ''10.0.0.7'') sample_snap 42 ''deep'')"
proof (rule ScanHeap_reads_kept_regions [OF sample_lookup])
  have lines: "scan_lines ''0-100 rw-p 0 0 0'' = [''0-100 rw-p 0 0 0'']"
    by (simp add: scan_lines_def drop_cr_def HasSuffix_def)
  have one: "parse_region ''0-100 rw-p 0 0 0'' =
      Some \<lparr>rStart = 0, rEnd = 256, rSize = 256, rPerms = ''rw-p'', rLabel = ''[anon]''\<rparr>"
    by (simp add: HasSuffix_def parse_region_def ScanUint_def digits_val_def is_digit_def digit_of_def go_strings)
  have low: "\<not> 256 \<le> (of_int off :: u64)" if "0 \<le> off" "off < 256" for off
    using that by (simp add: word_le_def uint_word_of_int)
  have "same_reads (sample_mem ''10.0.0.7'') (holed_mem ''10.0.0.7'') 42
      \<lparr>rStart = 0, rEnd = 256, rSize = 256, rPerms = ''rw-p'', rLabel = ''[anon]''\<rparr>"
    by (auto simp: same_reads_def holed_mem_def sample_mem_def low)
  then show "\<forall>line \<in> set (scan_lines ''0-100 rw-p 0 0 0''). \<forall>reg. parse_region line = Some reg
      \<and> kept_region (BinaryPath (newNode 42 ''/bin/sh'' ''sh'' 0))
          (reg\<lparr>rPerms := to_valid (rPerms reg), rLabel := to_valid (rLabel reg)\<rparr>)
      \<longrightarrow> same_reads (sample_mem ''10.0.0.7'') (holed_mem ''10.0.0.7'') 42 reg"
    by (simp add: lines one)
qed (simp_all add: sample_host_def holed_mem_def sample_mem_def)

section \<open>A token panics\<close>

lemma star_ends_zero: "p \<in> set (star_ends step n p)"
  by (cases n) simp_all

lemma upto_ends_zero: "p \<in> set (ends (re_upto n r) p)"
  by (cases n) (simp_all add: re_opt_def)

definition digits_of :: "string \<Rightarrow> bool" where
  "digits_of s \<longleftrightarrow> list_all (\<lambda>c. is_ascii c \<and> digit_char_class c) s"

lemma ends_times:
  assumes "\<And>c b s. is_ascii c \<Longrightarrow> digit_char_class c \<Longrightarrow> (c # b, s) \<in> set (ends r (b, c # s))"
  shows "digits_of u \<Longrightarrow> (rev u @ b, s) \<in> set (ends (re_times (length u) r) (b, u @ s))"
proof (induction u arbitrary: b)
  case (Cons c u)
  have "(c # b, u @ s) \<in> set (ends r (b, c # u @ s))" using Cons.prems by (auto simp: digits_of_def intro!: assms)
  moreover have "(rev u @ c # b, s) \<in> set (ends (re_times (length u) r) (c # b, u @ s))"
    using Cons by (simp add: digits_of_def)
  ultimately show ?case by force
qed (simp add: digits_of_def)

lemma ends_at_least:
  assumes "\<And>c b s. is_ascii c \<Longrightarrow> digit_char_class c \<Longrightarrow> (c # b, s) \<in> set (ends r (b, c # s))"
    and "digits_of u" and "length u = n"
  shows "(rev u @ b, s) \<in> set (ends (re_at_least n r) (b, u @ s))"
  using ends_times [OF assms(1,2), of b s] assms(3) star_ends_zero [of "(rev u @ b, s)"]
  by (force simp: re_at_least_def)

lemma ends_between:
  assumes "\<And>c b s. is_ascii c \<Longrightarrow> digit_char_class c \<Longrightarrow> (c # b, s) \<in> set (ends r (b, c # s))"
    and "digits_of u" and "length u = m"
  shows "(rev u @ b, s) \<in> set (ends (re_between m n r) (b, u @ s))"
  using ends_times [OF assms(1,2), of b s] assms(3) upto_ends_zero [of "(rev u @ b, s)"]
  by (force simp: re_between_def)

lemma fold_chr_hit: "is_ascii c \<Longrightarrow> P c \<Longrightarrow> (c # b, s) \<in> set (ends (re_fold_chr P) (b, c # s))"
  by (auto simp: re_fold_chr_def Let_def advance_def)

lemma digit_is_alnum: "digit_char_class c \<Longrightarrow> alnum c"
  by (auto simp: digit_char_class_def alnum_def is_digit_def split: option.splits)

lemma token_matches:
  assumes "digits_of u" "length u = 8" and "digits_of v" "length v = 10" and "digits_of w" "length w = 10"
  shows "ends key_token (b, u @ ''_'' @ v @ ''_'' @ w @ s) \<noteq> []"
proof -
  have "(rev u @ b, ''_'' @ v @ ''_'' @ w @ s) \<in> set (ends (re_between 8 255 token_char) (b, u @ ''_'' @ v @ ''_'' @ w @ s))"
    using assms(1,2) by (intro ends_between) (auto simp: token_char_def intro!: fold_chr_hit digit_is_alnum)
  moreover have "(rev v @ ''_'' @ rev u @ b, ''_'' @ w @ s) \<in> set (ends (re_at_least 10 re_digit) (''_'' @ rev u @ b, v @ ''_'' @ w @ s))"
    using assms(3,4) by (intro ends_at_least) (auto simp: re_digit_def advance_def)
  moreover have "(rev w @ ''_'' @ rev v @ ''_'' @ rev u @ b, s)
      \<in> set (ends (re_at_least 10 upper_digit_char) (''_'' @ rev v @ ''_'' @ rev u @ b, w @ s))"
    using assms(5,6) by (intro ends_at_least)
      (auto simp: upper_digit_char_def digit_char_class_def intro!: fold_chr_hit)
  moreover have "list_all is_ascii ''_''" by (simp add: go_strings)
  ultimately show ?thesis
    by (force simp: key_token_def token_tail_def re_seq_def ends_lit)
qed

lemma fold_chr_miss:
  "is_ascii c \<Longrightarrow> \<not> P c \<Longrightarrow> \<not> P (lower_byte c) \<Longrightarrow> ends (re_fold_chr P) (b, c # s) = []"
  by (auto simp: re_fold_chr_def Let_def re_kelvin_def re_long_s_def re_seq_def is_ascii_def)

lemma digit_is_no_letter:
  assumes "is_ascii c" and "digit_char_class c"
  shows "ends key_prefix (b, c # s) = []"
proof -
  have n: "48 \<le> (of_char c :: nat) \<and> (of_char c :: nat) \<le> 57"
    using assms(2) by (auto simp: digit_char_class_def is_digit_def digit_val_def Let_def split: if_splits)
  then have l: "lower_byte c = c" by (simp add: lower_byte_def)
  have "ends (re_fold_chr (\<lambda>d. d = x)) (b, c # s) = []" if "97 \<le> (of_char x :: nat)" for x
  proof -
    have "c \<noteq> x" using n that by auto
    then show ?thesis by (intro fold_chr_miss) (simp_all add: assms(1) l)
  qed
  then show ?thesis by (simp add: key_prefix_def re_seq_def re_fold_lit_def)
qed

lemma key_token_consumes: "q \<in> set (ends key_token p) \<Longrightarrow> length (snd q) < length (snd p)"
proof -
  assume "q \<in> set (ends key_token p)"
  then obtain m n where "m \<in> set (ends (re_between 8 255 token_char) p)"
    and n: "n \<in> set (ends (re_lit ''_'') m)"
    and "q \<in> set (ends (re_seq [re_at_least 10 re_digit, re_lit ''_'', re_at_least 10 upper_digit_char]) n)"
    by (fastforce simp: key_token_def token_tail_def re_seq_def)
  then have "length (snd m) \<le> length (snd p)" "length (snd q) \<le> length (snd n)"
    by (blast dest: ends_shorter)+
  moreover have "length (snd n) < length (snd m)"
    using n by (cases m; cases "snd m") (auto simp: ends_lit go_strings split: if_splits)
  ultimately show ?thesis by simp
qed

text \<open>Bytes in which no match of the key pattern can begin: ASCII, but no letters, digits and underscores.\<close>

definition inert :: "string \<Rightarrow> bool" where
  "inert s \<longleftrightarrow> list_all (\<lambda>c. is_ascii c \<and> \<not> alnum c \<and> c \<noteq> CHR ''_'') s"

lemma letter_is_alnum: "(97 \<le> (of_char c :: nat) \<and> (of_char c :: nat) \<le> 122) \<or> (65 \<le> (of_char c :: nat) \<and> (of_char c :: nat) \<le> 90) \<Longrightarrow> alnum c"
  by (auto simp: alnum_def is_digit_def digit_val_def Let_def)

lemma inert_lower: "is_ascii c \<Longrightarrow> \<not> alnum c \<Longrightarrow> lower_byte c = c"
  using letter_is_alnum [of c] by (auto simp: lower_byte_def)

lemma inert_no_match:
  assumes "is_ascii c" and "\<not> alnum c" and "c \<noteq> CHR ''_''"
  shows "ends reKey (b, c # s) = []"
proof -
  have l: "lower_byte c = c" by (rule inert_lower [OF assms(1,2)])
  have "ends (re_fold_chr (\<lambda>d. d = x)) (b, c # s) = []" if "97 \<le> (of_char x :: nat) \<and> (of_char x :: nat) \<le> 122" for x
  proof -
    have "c \<noteq> x" using assms(2) letter_is_alnum [of x] that by auto
    then show ?thesis by (intro fold_chr_miss) (simp_all add: assms(1) l)
  qed
  then have "ends key_prefix (b, c # s) = []" by (simp add: key_prefix_def re_seq_def re_fold_lit_def)
  moreover have "ends token_char (b, c # s) = []"
    unfolding token_char_def by (intro fold_chr_miss) (simp_all add: assms l)
  then have "ends key_token (b, c # s) = []"
    by (simp add: key_token_def re_between_def eval_nat_numeral)
  ultimately show ?thesis by (simp add: reKey_def)
qed

lemma find_from_inert:
  "inert pre \<Longrightarrow> find_from reKey b (pre @ s) = find_from reKey (rev pre @ b) s"
  by (induction pre arbitrary: b) (simp_all add: inert_def inert_no_match)

lemma token_submatch:
  fixes s :: string
  assumes "digits_of u" "length u = 8" and "digits_of v" "length v = 10" and "digits_of w" "length w = 10"
    and "inert pre"
  defines "dat \<equiv> u @ ''_'' @ v @ ''_'' @ w @ s"
  shows "\<exists>m ms. FindAllIndex reKey (pre @ dat) = (length pre, m) # ms"
    and "key_submatch (pre @ dat) (length pre) = None"
proof -
  obtain c u' where u: "u = c # u'" using assms(2) by (cases u) auto
  have pre: "ends key_prefix (b, dat) = []" for b
    using digit_is_no_letter [of c b] assms(1) u by (simp add: dat_def digits_of_def)
  then show "key_submatch (pre @ dat) (length pre) = None" by (simp add: key_submatch_def)
  have "ends key_token (rev pre, dat) \<noteq> []" unfolding dat_def by (rule token_matches [OF assms(1-6)])
  then obtain q qs where q: "ends key_token (rev pre, dat) = q # qs" by (cases "ends key_token (rev pre, dat)") auto
  then have e: "ends reKey (rev pre, dat) = q # qs" by (simp add: reKey_def pre)
  have "find_from reKey [] (pre @ dat) = Some ((rev pre, dat), q)"
    using e find_from_inert [OF assms(7), of "[]" dat] by (cases dat) simp_all
  moreover have "\<not> length (pre @ dat) \<le> length (snd q)"
    using key_token_consumes [of q "(rev pre, dat)"] q by simp
  ultimately show "\<exists>m ms. FindAllIndex reKey (pre @ dat) = (length pre, m) # ms"
    by (subst FindAllIndex_def, subst find_all.simps) (auto simp: Let_def split: prod.splits)
qed

lemma scan_regions_panics:
  assumes "\<And>st. scan_chunks m pid reg (chunks_of mode (rSize reg)) st = None"
    and "FindingsTotal (stats s) \<le> 200"
    and "\<forall>s'. scan_regions m pid mode before s = Some s' \<longrightarrow> FindingsTotal (stats s') \<le> 200"
  shows "scan_regions m pid mode (before @ reg # after) s = None"
  using assms(2,3)
proof (induction before arbitrary: s)
  case Nil
  then show ?case by (simp add: assms(1))
next
  case (Cons r before)
  let ?s = "if sampled mode (rSize r) then s\<lparr>stats := (stats s)\<lparr>Truncated := True\<rparr>\<rparr> else s"
  show ?case
  proof (cases "scan_chunks m pid r (chunks_of mode (rSize r)) ?s")
    case (Some s')
    with Cons.prems have le: "FindingsTotal (stats s') \<le> 200" by (auto split: if_splits)
    with Some Cons.prems(2) have "\<forall>s''. scan_regions m pid mode before s' = Some s'' \<longrightarrow> FindingsTotal (stats s'') \<le> 200"
      by simp
    from Cons.IH [OF le this] le Some show ?thesis by simp
  qed simp
qed

text \<open>
  C31: The token alternative of the key pattern leaves the first capture group unset, and slicing with its
  index panics. If a region of less than two megabytes that the scan keeps can be read and holds, after bytes
  that are no letters, digits and underscores, a token of eight, ten and ten digits joined by underscores, and
  the regions before it give at most 200 findings, the whole scan panics.
\<close>

theorem ScanHeap_panics_on_token:
  assumes "digits_of u" "length u = 8" and "digits_of v" "length v = 10" and "digits_of w" "length w = 10"
    and "inert pre"
    and "snap_lookup snap pid = Some p" and "ListHeapRegions h snap pid = Inr raw"
    and "filter (kept_region (BinaryPath p)) (unmarshal_regions raw) = before @ reg # after"
    and "\<forall>st. scan_regions m pid mode before (scan_start (mAttach m pid) (length (before @ reg # after))) = Some st
      \<longrightarrow> FindingsTotal (stats st) \<le> 200"
    and "0 < rSize reg" and "rSize reg < 2 * mb"
    and "ReadMemoryRawLocked m pid (rStart reg) (rSize reg) = Ok (pre @ u @ ''_'' @ v @ ''_'' @ w @ s)"
  shows "\<exists>msg. fst (ScanHeap h m snap pid mode) = Panic msg"
proof -
  let ?dat = "pre @ u @ ''_'' @ v @ ''_'' @ w @ s"
  obtain k ks where k: "FindAllIndex reKey ?dat = (length pre, k) # ks"
    using token_submatch(1) [OF assms(1-7)] by blast
  have "scan_text label base ?dat st = None" for label base st
    unfolding scan_text_def Let_def k using token_submatch(2) [OF assms(1-7), of s] by simp
  then have "scan_chunk m pid reg (0, rSize reg) st = None" for st
    using assms(12,14) by (simp add: scan_chunk_def)
  then have chunks: "scan_chunks m pid reg (chunks_of mode (rSize reg)) st = None" for st
    using assms(13) by (simp add: chunks_of_def)
  have "FindingsTotal (stats (scan_start e n)) \<le> 200" for e n
    by (simp add: scan_start_def zero_stats_def Let_def split: option.splits)
  then have "scan_regions m pid mode (before @ reg # after) (scan_start (mAttach m pid) (length (before @ reg # after))) = None"
    by (rule scan_regions_panics [OF chunks _ assms(11)])
  moreover have "fst (ptraceAttach m pid) = mAttach m pid" by (simp add: ptraceAttach_def split: option.splits)
  ultimately show ?thesis
    using assms(8-10) by (auto simp: ScanHeap_def Let_def split: prod.splits)
qed

lemma ScanHeap_panics_on_token_witness:
  "\<exists>msg. fst (ScanHeap (sample_host (\<lambda>_. Inr ''0-100 rw-p 0 0 0''))
     (sample_mem ([CHR 0x00, CHR ''/''] @ ''12345678'' @ ''_'' @ ''1234567890'' @ ''_'' @ ''1234567890'' @ [])) sample_snap 42 ''quick'') = Panic msg"
proof -
  let ?h = "sample_host (\<lambda>_. Inr ''0-100 rw-p 0 0 0'')"
  let ?r = "\<lparr>rStart = 0, rEnd = 256, rSize = 256, rPerms = ''rw-p'', rLabel = ''[anon]''\<rparr>"
  let ?m = "sample_mem ([CHR 0x00, CHR ''/''] @ ''12345678'' @ ''_'' @ ''1234567890'' @ ''_'' @ ''1234567890'' @ [])"
  have "List.map_filter parse_region (scan_lines ''0-100 rw-p 0 0 0'') = [?r]"
    by (simp add: scan_lines_def drop_cr_def HasSuffix_def map_filter_simps parse_region_def ScanUint_def
        digits_val_def is_digit_def digit_of_def go_strings)
  then have l: "ListHeapRegions ?h sample_snap 42 = Inr (JArr [region_json ?r])"
    by (simp add: ListHeapRegions_def sample_lookup sample_host_def)
  have v: "to_valid ''rw-p'' = ''rw-p''" "to_valid ''[anon]'' = ''[anon]''"
    by (rule to_valid_id, rule utf8_valid_ascii, simp add: go_strings)+
  have k: "filter (kept_region (BinaryPath (newNode 42 ''/bin/sh'' ''sh'' 0))) (unmarshal_regions (JArr [region_json ?r])) = [] @ ?r # []"
    using unmarshal_region_json [of ?r] v by (simp add: map_filter_simps kept_region_def)
  have d: "digits_of ''12345678''" "digits_of ''1234567890''"
    by (simp_all add: digits_of_def digit_char_class_def is_digit_def go_strings)
  have i: "inert [CHR 0x00, CHR ''/'']" by (simp add: inert_def alnum_def is_digit_def digit_val_def is_ascii_def)
  have rd: "ReadMemoryRawLocked ?m 42 (rStart ?r) (rSize ?r) = Ok ([CHR 0x00, CHR ''/''] @ ''12345678'' @ ''_'' @ ''1234567890'' @ ''_'' @ ''1234567890'' @ [])"
    by (simp add: ReadMemoryRawLocked_def sample_mem_def)
  show ?thesis
    by (rule ScanHeap_panics_on_token [OF d(1) _ d(2) _ d(2) _ i sample_lookup l k _ _ _ rd])
      (simp_all add: mb_def scan_start_def sample_mem_def zero_stats_def)
qed

end
