(* ===== verification/Intel.thy ===== *)
theory Intel
  imports HeapScan
begin

text \<open>
  The threat-intelligence client (\<^verbatim>\<open>intel/threatintel.go\<close>): the sliding-window rate limiter, the
  result cache, the two VirusTotal lookups and the AbuseIPDB lookup. The web is the record \<open>web\<close>: the
  check of a URL by \<^verbatim>\<open>http.NewRequest\<close>, and the answer to a request. \<open>now i\<close> is the clock at
  the i-th reading of an operation. A lookup returns, beside its result, the requests it sent.
\<close>

section \<open>The rate limiter\<close>

record rateLimiter =
  lastReqs :: "gotime list"
  maxReqs :: int
  window :: duration

definition newRateLimiter :: "int \<Rightarrow> duration \<Rightarrow> rateLimiter" where
  "newRateLimiter n w = \<lparr>lastReqs = [], maxReqs = n, window = w\<rparr>"

text \<open>
  \<^verbatim>\<open>Wait\<close> up to the point where it sleeps: the expired timestamps go, and the duration to wait is
  computed; no waiting is 0. \<open>None\<close> is the panic of the index into an empty slice.
\<close>

definition limiter_enter :: "gotime \<Rightarrow> rateLimiter \<Rightarrow> (duration \<times> rateLimiter) option" where
  "limiter_enter now r =
     (let r1 = r\<lparr>lastReqs := dropWhile (\<lambda>t. t < now - window r) (lastReqs r)\<rparr> in
      if maxReqs r1 \<le> int (length (lastReqs r1)) then
        (case lastReqs r1 of
           [] \<Rightarrow> None
         | oldest # _ \<Rightarrow> Some (window r1 - timeSub now oldest + 50 * millisecond, r1))
      else Some (0, r1))"

definition limiter_leave :: "gotime \<Rightarrow> rateLimiter \<Rightarrow> rateLimiter" where
  "limiter_leave now r = r\<lparr>lastReqs := lastReqs r @ [now]\<rparr>"

text \<open>A caller that nobody interrupts: \<open>wake d\<close> is the clock after a sleep of \<open>d\<close>.\<close>

definition Wait :: "gotime \<Rightarrow> (duration \<Rightarrow> gotime) \<Rightarrow> rateLimiter \<Rightarrow> (gotime \<times> rateLimiter) option" where
  "Wait now wake r =
     map_option (\<lambda>(d, r1). (wake d, limiter_leave (wake d) r1)) (limiter_enter now r)"

section \<open>The cache\<close>

record VTResult =
  vtMalicious :: int
  vtSuspicious :: int
  vtHarmless :: int
  vtUndetected :: int
  vtSummary :: string

record AbuseResult =
  abIP :: string
  abScore :: int
  abReports :: int
  abCountry :: string
  abISP :: string
  abSummary :: string

text \<open>The dynamic type of a cached value.\<close>

datatype intel_value = VTValue VTResult | AbuseValue AbuseResult

record cachedResult =
  crValue :: intel_value
  crCachedAt :: gotime
  crExpiresAt :: gotime

record intel_client =
  VTKey :: string
  AbuseIPKey :: string
  cache :: "(string, cachedResult) gomap"
  vtLimiter :: rateLimiter

definition newIntel :: "string \<Rightarrow> string \<Rightarrow> intel_client" where
  "newIntel vt abuse = \<lparr>VTKey = vt, AbuseIPKey = abuse, cache = [], vtLimiter = newRateLimiter 4 minute\<rparr>"

definition cacheGet :: "gotime \<Rightarrow> string \<Rightarrow> intel_client \<Rightarrow> intel_value option" where
  "cacheGet now key c =
     (case map_of (cache c) key of
        None \<Rightarrow> None
      | Some r \<Rightarrow> if crExpiresAt r < now then None else Some (crValue r))"

definition cachePut :: "gotime \<Rightarrow> gotime \<Rightarrow> string \<Rightarrow> intel_value \<Rightarrow> duration \<Rightarrow> intel_client \<Rightarrow> intel_client" where
  "cachePut now now' key val ttl c =
     c\<lparr>cache := go_put key \<lparr>crValue = val, crCachedAt = now, crExpiresAt = now' + ttl\<rparr> (cache c)\<rparr>"

definition hour :: duration where "hour = 60 * minute"

section \<open>VirusTotal\<close>

text \<open>An answer: the status, and the document in the body if it is one.\<close>

record response =
  rsStatus :: int
  rsBody :: "json option"

record web =
  wValidURL :: "string \<Rightarrow> bool"
  wDo :: "string \<Rightarrow> (string \<times> string) list \<Rightarrow> response option"

definition VTEmpty :: VTResult where
  "VTEmpty = \<lparr>vtMalicious = 0, vtSuspicious = 0, vtHarmless = 0, vtUndetected = 0,
     vtSummary = ''no VT data (no API key or lookup failed)''\<rparr>"

definition vt_note :: "string \<Rightarrow> VTResult" where
  "vt_note s = VTEmpty\<lparr>vtSummary := s\<rparr>"

definition sub_object :: "(string \<times> json) list \<Rightarrow> string \<Rightarrow> (string \<times> json) list option" where
  "sub_object fs name = get_field json_fields [] fs name"

definition vt_summary :: "int \<Rightarrow> int \<Rightarrow> int \<Rightarrow> string" where
  "vt_summary malicious suspicious clean =
     (if 0 < malicious then warning_sign @ '' MALICIOUS: '' @ dec_int malicious @ ''/72 engines flagged''
      else if 0 < suspicious then ''suspicious: '' @ dec_int suspicious @ '' engines''
      else if 0 < clean then ''clean ('' @ dec_int clean @ '' harmless)''
      else ''no detections'')"

definition vt_payload :: "json \<Rightarrow> VTResult option" where
  "vt_payload body =
     Option.bind (json_fields body) (\<lambda>top_fs.
     Option.bind (sub_object top_fs ''data'') (\<lambda>dat.
     Option.bind (sub_object dat ''attributes'') (\<lambda>attrs.
     Option.bind (sub_object attrs ''last_analysis_stats'') (\<lambda>s.
     Option.bind (get_field as_int 0 s ''malicious'') (\<lambda>mal.
     Option.bind (get_field as_int 0 s ''suspicious'') (\<lambda>sus.
     Option.bind (get_field as_int 0 s ''harmless'') (\<lambda>harm.
     Option.bind (get_field as_int 0 s ''undetected'') (\<lambda>und.
     Some \<lparr>vtMalicious = mal, vtSuspicious = sus, vtHarmless = harm, vtUndetected = und,
           vtSummary = vt_summary mal sus harm\<rparr>))))))))"

definition vtGET :: "web \<Rightarrow> string \<Rightarrow> string \<Rightarrow> VTResult \<times> string list" where
  "vtGET w key url =
     (if \<not> wValidURL w url then (VTEmpty, [])
      else
        (case wDo w url [(''x-apikey'', key)] of
           None \<Rightarrow> VTEmpty
         | Some resp \<Rightarrow>
             if rsStatus resp = 404 then vt_note ''not found in VirusTotal''
             else if rsStatus resp \<noteq> 200 then vt_note (''VT API error '' @ dec_int (rsStatus resp))
             else (case rsBody resp of
                     None \<Rightarrow> VTEmpty
                   | Some body \<Rightarrow> (case vt_payload body of None \<Rightarrow> VTEmpty | Some r \<Rightarrow> r)),
         [url]))"

text \<open>
  What \<^verbatim>\<open>LookupHash\<close> and \<^verbatim>\<open>LookupDomain\<close> do with their cache key and URL. A type assertion that
  fails is a panic.
\<close>

definition vt_lookup ::
  "web \<Rightarrow> (nat \<Rightarrow> gotime) \<Rightarrow> (duration \<Rightarrow> gotime) \<Rightarrow> string \<Rightarrow> string \<Rightarrow> string \<Rightarrow> intel_client \<Rightarrow>
   VTResult go_result \<times> intel_client \<times> string list" where
  "vt_lookup w now wake subject key url c =
     (if VTKey c = [] \<or> subject = [] then (Ok VTEmpty, c, [])
      else case cacheGet (now 0) key c of
             Some (VTValue v) \<Rightarrow> (Ok v, c, [])
           | Some _ \<Rightarrow> (Panic ''interface conversion'', c, [])
           | None \<Rightarrow>
               (case Wait (now 1) wake (vtLimiter c) of
                  None \<Rightarrow> (Panic ''index out of range'', c, [])
                | Some (_, lim1) \<Rightarrow>
                    (let (r, sent) = vtGET w (VTKey c) url in
                     (Ok r, cachePut (now 2) (now 3) key (VTValue r) hour (c\<lparr>vtLimiter := lim1\<rparr>), sent))))"

definition LookupHash ::
  "web \<Rightarrow> (nat \<Rightarrow> gotime) \<Rightarrow> (duration \<Rightarrow> gotime) \<Rightarrow> string \<Rightarrow> intel_client \<Rightarrow>
   VTResult go_result \<times> intel_client \<times> string list" where
  "LookupHash w now wake sha256 c =
     vt_lookup w now wake sha256 (''vt:hash:'' @ sha256)
       (''https://www.virustotal.com/api/v3/files/'' @ sha256) c"

definition LookupDomain ::
  "web \<Rightarrow> (nat \<Rightarrow> gotime) \<Rightarrow> (duration \<Rightarrow> gotime) \<Rightarrow> string \<Rightarrow> intel_client \<Rightarrow>
   VTResult go_result \<times> intel_client \<times> string list" where
  "LookupDomain w now wake domain c =
     vt_lookup w now wake domain (''vt:domain:'' @ domain)
       (''https://www.virustotal.com/api/v3/domains/'' @ domain) c"

section \<open>AbuseIPDB\<close>

definition AbuseEmpty :: AbuseResult where
  "AbuseEmpty = \<lparr>abIP = [], abScore = 0, abReports = 0, abCountry = [], abISP = [],
     abSummary = ''no AbuseIPDB data (no API key or lookup failed)''\<rparr>"

definition private_prefixes :: "string list" where
  "private_prefixes =
     [''127.'', ''::1'', ''10.'', ''192.168.'',
      ''172.16.'', ''172.17.'', ''172.18.'', ''172.19.'',
      ''172.20.'', ''172.21.'', ''172.22.'', ''172.23.'',
      ''172.24.'', ''172.25.'', ''172.26.'', ''172.27.'',
      ''172.28.'', ''172.29.'', ''172.30.'', ''172.31.'']"

definition isPrivateIP :: "string \<Rightarrow> bool" where
  "isPrivateIP ip \<longleftrightarrow> list_ex (\<lambda>prefix. length prefix \<le> length ip \<and> take (length prefix) ip = prefix) private_prefixes"

definition abuse_summary :: "AbuseResult \<Rightarrow> string" where
  "abuse_summary r =
     (let tail = ''score='' @ dec_int (abScore r) @ '', '' @ dec_int (abReports r) @ '' reports ('' @ abISP r @ '')'' in
      if abReports r = 0 then ''clean ('' @ abISP r @ '', '' @ abCountry r @ '')''
      else if 75 \<le> abScore r then warning_sign @ '' HIGH RISK: '' @ tail
      else if 25 \<le> abScore r then ''suspicious: '' @ tail
      else ''low risk: '' @ tail)"

definition abuse_payload :: "json \<Rightarrow> AbuseResult option" where
  "abuse_payload body =
     Option.bind (json_fields body) (\<lambda>top_fs.
     Option.bind (sub_object top_fs ''data'') (\<lambda>d.
     Option.bind (get_field as_string [] d ''ipAddress'') (\<lambda>ip.
     Option.bind (get_field as_int 0 d ''abuseConfidenceScore'') (\<lambda>score.
     Option.bind (get_field as_int 0 d ''totalReports'') (\<lambda>reports.
     Option.bind (get_field as_string [] d ''countryCode'') (\<lambda>country.
     Option.bind (get_field as_string [] d ''isp'') (\<lambda>isp.
     let r = \<lparr>abIP = ip, abScore = score, abReports = reports, abCountry = country, abISP = isp, abSummary = []\<rparr>
     in Some (r\<lparr>abSummary := abuse_summary r\<rparr>))))))))"

definition abuse_url :: string where
  "abuse_url = ''https://api.abuseipdb.com/api/v2/check''"

text \<open>The query is encoded by \<^verbatim>\<open>net/url\<close>: \<open>enc\<close> is \<^verbatim>\<open>url.QueryEscape\<close>.\<close>

definition LookupIP ::
  "web \<Rightarrow> (string \<Rightarrow> string) \<Rightarrow> (nat \<Rightarrow> gotime) \<Rightarrow> string \<Rightarrow> intel_client \<Rightarrow>
   AbuseResult go_result \<times> intel_client \<times> string list" where
  "LookupIP w enc now ip c =
     (if AbuseIPKey c = [] \<or> ip = [] then (Ok AbuseEmpty, c, [])
      else if isPrivateIP ip then
        (Ok (AbuseEmpty\<lparr>abIP := ip, abSummary := ''private IP '' @ em_dash @ '' no lookup needed''\<rparr>), c, [])
      else
        let key = ''abuse:'' @ ip in
        case cacheGet (now 0) key c of
          Some (AbuseValue v) \<Rightarrow> (Ok v, c, [])
        | Some _ \<Rightarrow> (Panic ''interface conversion'', c, [])
        | None \<Rightarrow>
            if \<not> wValidURL w abuse_url then (Ok AbuseEmpty, c, [])
            else
              let url = abuse_url @ ''?ipAddress='' @ enc ip @ ''&maxAgeInDays=90'' in
              (case wDo w url [(''Key'', AbuseIPKey c), (''Accept'', ''application/json'')] of
                 None \<Rightarrow> (Ok AbuseEmpty, c, [url])
               | Some resp \<Rightarrow>
                   if rsStatus resp \<noteq> 200 then
                     (Ok (AbuseEmpty\<lparr>abSummary := ''AbuseIPDB API error '' @ dec_int (rsStatus resp)\<rparr>), c, [url])
                   else
                     (case Option.bind (rsBody resp) abuse_payload of
                        None \<Rightarrow> (Ok AbuseEmpty, c, [url])
                      | Some r \<Rightarrow> (Ok r, cachePut (now 1) (now 2) key (AbuseValue r) hour c, [url]))))"

section \<open>Private addresses\<close>

lemma HasPrefix_eq_take: "(length p \<le> length s \<and> take (length p) s = p) \<longleftrightarrow> HasPrefix s p"
  by (auto simp: HasPrefix_iff) (metis append_take_drop_id)

lemma isPrivateIP_prefix: "isPrivateIP ip \<longleftrightarrow> (\<exists>p \<in> set private_prefixes. HasPrefix ip p)"
  by (simp add: isPrivateIP_def list_ex_iff HasPrefix_eq_take)

lemma dec_inj: "dec a = dec b \<longleftrightarrow> a = b"
  by (metis dec_digits(3))

lemma dec_no_dot: "CHR ''.'' \<notin> set (dec n)"
  using dec_digits(1) [of n] by (auto simp: list_all_iff is_digit_def digit_val_def)

lemma separated_eq:
  "c \<notin> set u \<Longrightarrow> c \<notin> set v \<Longrightarrow> u @ c # s = v @ c # t \<longleftrightarrow> u = v \<and> s = t"
proof (induction u arbitrary: v)
  case Nil
  then show ?case by (cases v) auto
next
  case (Cons x u)
  then show ?case by (cases v) auto
qed

lemma HasPrefix_component:
  assumes "c \<notin> set u" and "c \<notin> set v"
  shows "HasPrefix (u @ c # s) (v @ c # t) \<longleftrightarrow> u = v \<and> HasPrefix s t"
proof -
  have "u @ c # s = v @ c # t @ r \<longleftrightarrow> u = v \<and> s = t @ r" for r
    using separated_eq [OF assms, of s "t @ r"] by simp
  then show ?thesis unfolding HasPrefix_iff by simp
qed

lemma dotted4: "dotted [a, b, c, d] = dec (of_char a) @ CHR ''.'' # dec (of_char b) @ CHR ''.'' # dec (of_char c) @ CHR ''.'' # dec (of_char d)"
  by (simp add: dotted_def)

lemma HasPrefix_one: "HasPrefix (dec a @ CHR ''.'' # s) (dec k @ ''.'') \<longleftrightarrow> a = k"
  using HasPrefix_component [of "CHR ''.''" "dec a" "dec k" s "[]"] by (simp add: dec_no_dot dec_inj)

lemma HasPrefix_two:
  "HasPrefix (dec a @ CHR ''.'' # dec b @ CHR ''.'' # s) (dec k @ CHR ''.'' # dec l @ ''.'') \<longleftrightarrow> a = k \<and> b = l"
  by (simp add: HasPrefix_component dec_no_dot dec_inj HasPrefix_one)

lemma HasPrefix_colon: "\<not> HasPrefix (dec a @ s) ''::1''"
proof
  assume "HasPrefix (dec a @ s) ''::1''"
  then have "hd (dec a) = CHR '':''" by (cases "dec a") (use dec_digits(2) [of a] in auto)
  moreover have "is_digit 10 (hd (dec a))" using dec_digits(1,2) [of a] by (cases "dec a") auto
  ultimately show False by (simp add: is_digit_def digit_val_def)
qed

lemma private_prefixes_eq:
  "private_prefixes = [dec 127 @ ''.'', ''::1'', dec 10 @ ''.'', dec 192 @ CHR ''.'' # dec 168 @ ''.'']
     @ map (\<lambda>l. dec 172 @ CHR ''.'' # dec l @ ''.'') [16..<32]"
  by (simp add: private_prefixes_def go_strings upt_rec)

text \<open>
  C35: on dotted IPv4 addresses the test on strings is the test on the numbers: loopback and the three
  private networks of RFC 1918, no more and no less.
\<close>

theorem isPrivateIP_is_rfc1918:
  "isPrivateIP (dotted [a, b, c, d]) \<longleftrightarrow>
     (of_char a = (127 :: nat) \<or> of_char a = (10 :: nat) \<or> (of_char a = (192 :: nat) \<and> of_char b = (168 :: nat))
      \<or> (of_char a = (172 :: nat) \<and> 16 \<le> (of_char b :: nat) \<and> (of_char b :: nat) < 32))"
proof -
  have "isPrivateIP (dotted [a, b, c, d]) \<longleftrightarrow>
      of_char a = (127 :: nat) \<or> of_char a = (10 :: nat) \<or> (of_char a = (192 :: nat) \<and> of_char b = (168 :: nat))
      \<or> (\<exists>l \<in> set [16..<32]. of_char a = (172 :: nat) \<and> of_char b = (l :: nat))"
    unfolding isPrivateIP_prefix private_prefixes_eq dotted4 set_append set_map bex_Un
    by (simp only: list.set bex_simps HasPrefix_one HasPrefix_two HasPrefix_colon simp_thms image_iff disj_assoc)
  moreover have "(\<exists>l \<in> set [16..<32]. of_char b = l) \<longleftrightarrow> 16 \<le> (of_char b :: nat) \<and> (of_char b :: nat) < 32"
    unfolding set_upt by (metis atLeastLessThan_iff)
  ultimately show ?thesis by blast
qed

section \<open>The limit on requests\<close>

subsection \<open>Calls one after the other\<close>

fun limiter_run :: "(gotime \<times> (duration \<Rightarrow> gotime)) list \<Rightarrow> rateLimiter \<Rightarrow> gotime list option" where
  "limiter_run [] r = Some []"
| "limiter_run ((t, wake) # cs) r =
     (case Wait t wake r of
        None \<Rightarrow> None
      | Some (g, r') \<Rightarrow> map_option ((#) g) (limiter_run cs r'))"

text \<open>Each call begins after the one before has returned, and a sleep lasts at least as long as asked.\<close>

fun honest_calls :: "gotime \<Rightarrow> (gotime \<times> (duration \<Rightarrow> gotime)) list \<Rightarrow> rateLimiter \<Rightarrow> bool" where
  "honest_calls prev [] r \<longleftrightarrow> True"
| "honest_calls prev ((t, wake) # cs) r \<longleftrightarrow>
     prev \<le> t
     \<and> (case limiter_enter t r of None \<Rightarrow> True | Some (d, _) \<Rightarrow> t + max 0 d \<le> wake d)
     \<and> (case Wait t wake r of None \<Rightarrow> True | Some (g, r') \<Rightarrow> honest_calls g cs r')"

definition spaced :: "nat \<Rightarrow> duration \<Rightarrow> gotime list \<Rightarrow> bool" where
  "spaced n w ts \<longleftrightarrow> (\<forall>i. i + n < length ts \<longrightarrow> ts ! i + w < ts ! (i + n))"

definition limiter_inv :: "nat \<Rightarrow> duration \<Rightarrow> gotime list \<Rightarrow> gotime \<Rightarrow> rateLimiter \<Rightarrow> bool" where
  "limiter_inv n w hist prev r \<longleftrightarrow>
     maxReqs r = int n \<and> window r = w \<and> spaced n w hist \<and> (\<forall>x \<in> set hist. x \<le> prev)
     \<and> (\<exists>k \<le> length hist. lastReqs r = drop k hist \<and> (\<forall>i < k. hist ! i + w < prev))
     \<and> (length (lastReqs r) \<le> n \<or> (length (lastReqs r) = Suc n \<and> hd (lastReqs r) + w < prev))"

lemma dropWhile_drop:
  obtains j where "dropWhile P xs = drop j xs" "j \<le> length xs" "\<forall>i < j. P (xs ! i)"
    "j < length xs \<longrightarrow> \<not> P (xs ! j)"
proof -
  have "dropWhile P xs = drop (length (takeWhile P xs)) xs" by (simp add: dropWhile_eq_drop)
  moreover have "\<forall>i < length (takeWhile P xs). P (xs ! i)" by (metis nth_mem set_takeWhileD takeWhile_nth)
  moreover have "length (takeWhile P xs) < length xs \<longrightarrow> \<not> P (xs ! length (takeWhile P xs))"
    using nth_length_takeWhile by blast
  ultimately show thesis using that length_takeWhile_le by blast
qed

lemma spaced_snoc:
  "spaced n w hist \<Longrightarrow> (n \<le> length hist \<Longrightarrow> hist ! (length hist - n) + w < g) \<Longrightarrow> 0 < n \<Longrightarrow> spaced n w (hist @ [g])"
proof -
  assume h: "spaced n w hist" "n \<le> length hist \<Longrightarrow> hist ! (length hist - n) + w < g" "0 < n"
  have "(hist @ [g]) ! i + w < (hist @ [g]) ! (i + n)" if i: "i + n < length (hist @ [g])" for i
  proof (cases "i + n = length hist")
    case True
    then have "i = length hist - n" "n \<le> length hist" "i < length hist" using h(3) by auto
    with h(2) True show ?thesis by (simp add: nth_append)
  next
    case False
    with i h(1) show ?thesis by (simp add: spaced_def nth_append)
  qed
  then show ?thesis by (simp add: spaced_def)
qed

lemma limiter_step:
  assumes inv: "limiter_inv n w hist prev r" and n: "0 < n" and w: "0 \<le> w" "w < 2 ^ 63"
    and t: "prev \<le> t" and honest: "case limiter_enter t r of None \<Rightarrow> True | Some (d, _) \<Rightarrow> t + max 0 d \<le> wake d"
  shows "\<exists>g r'. Wait t wake r = Some (g, r') \<and> limiter_inv n w (hist @ [g]) g r'"
proof -
  obtain k where k: "k \<le> length hist" "lastReqs r = drop k hist" "\<forall>i < k. hist ! i + w < prev"
    and r: "maxReqs r = int n" "window r = w" "spaced n w hist" "\<forall>x \<in> set hist. x \<le> prev"
    and len: "length (lastReqs r) \<le> n \<or> (length (lastReqs r) = Suc n \<and> hd (lastReqs r) + w < prev)"
    using inv unfolding limiter_inv_def by blast
  obtain j where j: "dropWhile (\<lambda>x. x < t - w) (lastReqs r) = drop j (lastReqs r)" "j \<le> length (lastReqs r)"
    "\<forall>i < j. lastReqs r ! i < t - w" "j < length (lastReqs r) \<longrightarrow> \<not> lastReqs r ! j < t - w"
    by (rule dropWhile_drop)
  let ?k = "k + j"
  let ?r = "r\<lparr>lastReqs := drop ?k hist\<rparr>"
  have kh: "?k \<le> length hist" using j(2) k(1,2) by simp
  have d: "dropWhile (\<lambda>x. x < t - w) (lastReqs r) = drop ?k hist" using j(1) k(2) by (simp add: add.commute)
  have old: "hist ! i + w < t" if "i < ?k" for i
  proof (cases "i < k")
    case False
    with that have "i - k < j" by simp
    then have "drop k hist ! (i - k) < t - w" using j(3) k(2) by simp
    with False kh that show ?thesis by simp
  qed (use k(3) t in force)
  have short: "length hist - ?k \<le> n"
  proof (rule ccontr)
    assume c: "\<not> length hist - ?k \<le> n"
    then have "j = 0" "hd (lastReqs r) + w < prev" using len k(2) by auto
    moreover have "lastReqs r \<noteq> []" using c k(2) by auto
    ultimately show False using j(4) t by (simp add: hd_conv_nth)
  qed
  have le: "x \<le> g" if "x \<in> set hist" "t \<le> g" for x g using that r(4) t by fastforce
  have leave: "limiter_inv n w (hist @ [g]) g (limiter_leave g ?r)"
    if g: "t \<le> g" "length hist - ?k = n \<Longrightarrow> hist ! ?k + w < g" for g
  proof -
    have s: "spaced n w (hist @ [g])"
    proof (rule spaced_snoc [OF r(3) _ n])
      assume nh: "n \<le> length hist"
      show "hist ! (length hist - n) + w < g"
      proof (cases "length hist - ?k = n")
        case True
        then have "length hist - n = ?k" using kh nh by simp
        with True g(2) show ?thesis by simp
      next
        case False
        then have "length hist - n < ?k" using short nh by linarith
        with old [of "length hist - n"] g(1) show ?thesis by simp
      qed
    qed
    have e: "\<forall>i < ?k. (hist @ [g]) ! i + w < g" using old kh g(1) by (fastforce simp: nth_append)
    have l: "length hist - ?k < n \<or> (length hist - ?k = n \<and> hd (drop ?k hist @ [g]) + w < g)"
      using short g(2) n kh by (auto simp: hd_append hd_drop_conv_nth)
    show ?thesis
      unfolding limiter_inv_def limiter_leave_def
      using r(1,2) s le g(1) kh e l by (auto intro!: exI [of _ ?k])
  qed
  show ?thesis
  proof (cases "length hist - ?k = n")
    case False
    then have e: "limiter_enter t r = Some (0, ?r)" using short r(1,2) d by (simp add: limiter_enter_def Let_def)
    with honest leave [of "wake 0"] False show ?thesis by (simp add: Wait_def)
  next
    case True
    then have kl: "?k < length hist" using n by simp
    have o: "\<not> hist ! ?k < t - w" "hist ! ?k \<le> t"
      using j(4) k(2) kl r(4) t nth_mem [OF kl] by (auto simp: add.commute intro: order_trans)
    then have sub: "timeSub t (hist ! ?k) = t - hist ! ?k" using w by (intro timeSub_eq) auto
    let ?d = "w - (t - hist ! ?k) + 50 * millisecond"
    have c: "drop ?k hist = hist ! ?k # drop (Suc ?k) hist" using kl by (simp add: Cons_nth_drop_Suc)
    moreover have "int n \<le> int (length (drop ?k hist))" using True by simp
    ultimately have e: "limiter_enter t r = Some (?d, ?r)"
      using r(1,2) d sub by (simp add: limiter_enter_def Let_def)
    have "t + max 0 ?d \<le> wake ?d" using honest e by simp
    then have "t \<le> wake ?d" "hist ! ?k + w < wake ?d" by (auto simp: millisecond_def)
    with leave [of "wake ?d"] e show ?thesis by (simp add: Wait_def)
  qed
qed

lemma limiter_run_inv:
  "limiter_inv n w hist prev r \<Longrightarrow> 0 < n \<Longrightarrow> 0 \<le> w \<Longrightarrow> w < 2 ^ 63 \<Longrightarrow> honest_calls prev cs r \<Longrightarrow>
   \<exists>gs. limiter_run cs r = Some gs \<and> length gs = length cs \<and> spaced n w (hist @ gs)"
proof (induction cs arbitrary: hist prev r)
  case Nil
  then show ?case by (simp add: limiter_inv_def)
next
  case (Cons c cs)
  obtain t wake where c: "c = (t, wake)" by (cases c)
  from limiter_step [OF Cons.prems(1-4), of t wake] Cons.prems(5) c obtain g r' where
    s: "Wait t wake r = Some (g, r')" "limiter_inv n w (hist @ [g]) g r'" by auto
  with Cons.IH [OF s(2) Cons.prems(2-4)] Cons.prems(5) c show ?case by auto
qed

text \<open>
  C33: as long as one caller at a time uses it, the limiter of \<open>n\<close> requests per window never panics and
  never lets more than \<open>n\<close> requests pass within a window: the request \<open>n\<close> places later comes more than
  a window later. The client uses it with 4 requests per minute.
\<close>

theorem rate_limit_kept:
  assumes "0 < n" and "0 \<le> w" and "w < 2 ^ 63" and "honest_calls start calls (newRateLimiter (int n) w)"
  shows "\<exists>gs. limiter_run calls (newRateLimiter (int n) w) = Some gs \<and> length gs = length calls
    \<and> (\<forall>i. i + n < length gs \<longrightarrow> gs ! i + w < gs ! (i + n))"
proof -
  have "limiter_inv n w [] start (newRateLimiter (int n) w)"
    by (simp add: limiter_inv_def newRateLimiter_def spaced_def)
  from limiter_run_inv [OF this assms] show ?thesis by (simp add: spaced_def)
qed

lemma rate_limit_kept_witness:
  "\<exists>gs. limiter_run [(10, \<lambda>d. 10 + max 0 d), (20, \<lambda>d. 20 + max 0 d)] (newRateLimiter (int 4) minute) = Some gs
    \<and> length gs = 2"
proof -
  have "honest_calls 0 [(10, \<lambda>d. 10 + max 0 d), (20, \<lambda>d. 20 + max 0 d)] (newRateLimiter (int 4) minute)"
    by (simp add: Wait_def limiter_enter_def limiter_leave_def newRateLimiter_def minute_def second_def millisecond_def)
  from rate_limit_kept [OF _ _ _ this] show ?thesis
    by (auto simp: minute_def second_def millisecond_def)
qed

subsection \<open>Two callers at once\<close>

text \<open>
  \<^verbatim>\<open>Wait\<close> releases its lock while it sleeps. Two callers that find the limiter full both sleep for
  the oldest request, and both pass when it expires: the window then holds five requests, one more than
  the limit.
\<close>

theorem rate_limit_broken_by_two_callers:
  assumes "a \<le> b" "b \<le> c" "c \<le> d" "d \<le> t" and "t - a \<le> minute" and "a + 50 * millisecond < b"
  defines "r \<equiv> \<lparr>lastReqs = [a, b, c, d], maxReqs = 4, window = minute\<rparr>"
    and "g \<equiv> a + minute + 50 * millisecond"
  shows "\<exists>w r1. limiter_enter t r = Some (w, r1) \<and> limiter_enter t r1 = Some (w, r1) \<and> t + w = g \<and> 0 < w
    \<and> lastReqs (limiter_leave g (limiter_leave g r1)) = [a, b, c, d, g, g] \<and> g - b < minute"
proof -
  have "timeSub t a = t - a"
    by (rule timeSub_eq) (use assms(1-5) in \<open>simp add: minute_def second_def millisecond_def\<close>)
  then have "limiter_enter t r = Some (minute - (t - a) + 50 * millisecond, r)"
    using assms(5) by (simp add: limiter_enter_def r_def)
  then show ?thesis
    using assms(5,6) by (auto simp: g_def r_def limiter_leave_def millisecond_def)
qed

lemma rate_limit_broken_by_two_callers_witness:
  "\<exists>w r1. limiter_enter (10 * second) \<lparr>lastReqs = [0, second, 2 * second, 3 * second], maxReqs = 4, window = minute\<rparr> = Some (w, r1)
    \<and> 10 * second + w = minute + 50 * millisecond"
  using rate_limit_broken_by_two_callers [of 0 second "2 * second" "3 * second" "10 * second"]
  by (auto simp: second_def millisecond_def minute_def)

section \<open>The cache\<close>

text \<open>The kind of value that a key promises: the prefix of the key decides.\<close>

fun value_fits :: "string \<Rightarrow> intel_value \<Rightarrow> bool" where
  "value_fits key (VTValue v) \<longleftrightarrow> HasPrefix key ''vt:''"
| "value_fits key (AbuseValue v) \<longleftrightarrow> HasPrefix key ''abuse:''"

definition cache_typed :: "intel_client \<Rightarrow> bool" where
  "cache_typed c \<longleftrightarrow> wf_map (cache c) \<and> (\<forall>(key, r) \<in> set (cache c). value_fits key (crValue r))"

lemma cache_typedD: "cache_typed c \<Longrightarrow> map_of (cache c) key = Some r \<Longrightarrow> value_fits key (crValue r)"
  by (auto simp: cache_typed_def dest!: map_of_SomeD)

lemma cacheGet_typed: "cache_typed c \<Longrightarrow> cacheGet now key c = Some v \<Longrightarrow> value_fits key v"
  by (auto simp: cacheGet_def split: option.splits if_splits dest: cache_typedD)

lemma cachePut_typed: "cache_typed c \<Longrightarrow> value_fits key v \<Longrightarrow> cache_typed (cachePut t t' key v ttl c)"
proof -
  assume c: "cache_typed c" and v: "value_fits key v"
  have wf: "wf_map (cache (cachePut t t' key v ttl c))"
    using c by (simp add: cache_typed_def cachePut_def)
  have "value_fits k (crValue r)" if "map_of (cache (cachePut t t' key v ttl c)) k = Some r" for k r
    using that v cache_typedD [OF c] by (auto simp: cachePut_def split: if_splits)
  with wf show ?thesis by (auto simp: cache_typed_def wf_map_in_set)
qed

lemma cache_typed_limiter: "cache_typed (c\<lparr>vtLimiter := l\<rparr>) = cache_typed c"
  by (simp add: cache_typed_def)

datatype intel_call =
  CallHash "nat \<Rightarrow> gotime" "duration \<Rightarrow> gotime" string
| CallDomain "nat \<Rightarrow> gotime" "duration \<Rightarrow> gotime" string
| CallIP "nat \<Rightarrow> gotime" string

text \<open>One call on the client: whether it panicked, and the client after it.\<close>

fun is_panic :: "'a go_result \<Rightarrow> bool" where
  "is_panic (Panic _) = True"
| "is_panic _ = False"

fun intel_step :: "web \<Rightarrow> (string \<Rightarrow> string) \<Rightarrow> intel_call \<Rightarrow> bool \<times> intel_client \<Rightarrow> bool \<times> intel_client" where
  "intel_step w enc (CallHash now wake s) (p, c) = (let (r, c', _) = LookupHash w now wake s c in (p \<or> is_panic r, c'))"
| "intel_step w enc (CallDomain now wake s) (p, c) = (let (r, c', _) = LookupDomain w now wake s c in (p \<or> is_panic r, c'))"
| "intel_step w enc (CallIP now ip) (p, c) = (let (r, c', _) = LookupIP w enc now ip c in (p \<or> is_panic r, c'))"

definition intel_ok :: "bool \<times> intel_client \<Rightarrow> bool" where
  "intel_ok s \<longleftrightarrow> \<not> fst s \<and> cache_typed (snd s) \<and> maxReqs (vtLimiter (snd s)) = 4"

lemma Wait_maxReqs: "0 < maxReqs r \<Longrightarrow> \<exists>g r'. Wait t wake r = Some (g, r') \<and> maxReqs r' = maxReqs r"
  by (cases "dropWhile (\<lambda>x. x < t - window r) (lastReqs r)")
    (auto simp: Wait_def limiter_enter_def limiter_leave_def Let_def simp del: dropWhile_eq_Nil_conv)

lemma vt_lookup_ok:
  assumes "cache_typed c" and "maxReqs (vtLimiter c) = 4" and "HasPrefix key ''vt:''"
    and "vt_lookup w now wake s key url c = (r, c', urls)"
  shows "\<not> is_panic r \<and> cache_typed c' \<and> maxReqs (vtLimiter c') = 4"
proof -
  obtain g l where l: "Wait (now 1) wake (vtLimiter c) = Some (g, l)" "maxReqs l = 4"
    using Wait_maxReqs [of "vtLimiter c" "now 1" wake] assms(2) by auto
  have no: "cacheGet (now 0) key c \<noteq> Some (AbuseValue v)" for v
    using cacheGet_typed [OF assms(1), of "now 0" key] assms(3) by (force simp: HasPrefix_iff)
  show ?thesis
    using assms l no cachePut_typed [of "c\<lparr>vtLimiter := l\<rparr>" key "VTValue v" t t' ttl for v t t' ttl]
    by (auto simp: vt_lookup_def cache_typed_limiter split: if_splits option.splits intel_value.splits prod.splits)
      (simp_all add: cachePut_def)
qed

lemma intel_step_ok: "intel_ok s \<Longrightarrow> intel_ok (intel_step w enc call s)"
proof -
  assume ok: "intel_ok s"
  obtain p c where s: "s = (p, c)" by (cases s)
  show ?thesis
  proof (cases call)
    case (CallHash now wake x)
    then show ?thesis
      using ok vt_lookup_ok [of c "''vt:hash:'' @ x" w now wake x]
      by (auto simp: s intel_ok_def LookupHash_def split: prod.splits)
  next
    case (CallDomain now wake x)
    then show ?thesis
      using ok vt_lookup_ok [of c "''vt:domain:'' @ x" w now wake x]
      by (auto simp: s intel_ok_def LookupDomain_def split: prod.splits)
  next
    case (CallIP now ip)
    have no: "cacheGet (now 0) (''abuse:'' @ ip) c \<noteq> Some (VTValue v)" for v
      using cacheGet_typed [of c "now 0" "''abuse:'' @ ip"] ok by (force simp: s intel_ok_def)
    have put: "cache_typed (cachePut t t' (''abuse:'' @ ip) (AbuseValue v) ttl c)" for t t' v ttl
      using ok by (intro cachePut_typed) (simp_all add: s intel_ok_def)
    show ?thesis
      using ok no put CallIP
      by (auto simp: s intel_ok_def LookupIP_def Let_def cachePut_def split: if_splits option.splits intel_value.splits)
  qed
qed

interpretation intel: invariant_system "intel_step w enc" intel_ok
  by unfold_locales (rule intel_step_ok)

text \<open>
  C34: the cache holds values of two types under one interface type, and its readers assert the type they
  expect. Whatever lookups come in whatever order, no assertion fails and no lookup panics.
\<close>

theorem intel_lookups_well_typed:
  "\<not> fst (fold (intel_step w enc) calls (False, newIntel vt abuse))
   \<and> cache_typed (snd (fold (intel_step w enc) calls (False, newIntel vt abuse)))"
proof -
  have "intel_ok (False, newIntel vt abuse)"
    by (simp add: intel_ok_def newIntel_def cache_typed_def newRateLimiter_def)
  from intel.run_inv [OF this] show ?thesis by (simp add: intel_ok_def)
qed

text \<open>
  the answer to a hash lookup, a failure included, is what every lookup of that hash gets for the
  next hour, without another request and without waiting.
\<close>

theorem LookupHash_cached_for_an_hour:
  assumes "LookupHash w now wake x c = (Ok r, c', urls)" and "VTKey c \<noteq> []" and "x \<noteq> []"
    and "cacheGet (now 0) (''vt:hash:'' @ x) c = None" and "now' 0 \<le> now 3 + hour"
  shows "LookupHash w' now' wake' x c' = (Ok r, c', [])"
proof -
  from assms(1-4) obtain l where c': "c' = cachePut (now 2) (now 3) (''vt:hash:'' @ x) (VTValue r) hour (c\<lparr>vtLimiter := l\<rparr>)"
    by (auto simp: LookupHash_def vt_lookup_def split: option.splits prod.splits)
  have "cacheGet (now' 0) (''vt:hash:'' @ x) c' = Some (VTValue r)"
    using assms(5) by (simp add: c' cacheGet_def cachePut_def)
  with assms(2,3) show ?thesis by (simp add: LookupHash_def vt_lookup_def c' cachePut_def)
qed

definition dead_web :: web where
  "dead_web = \<lparr>wValidURL = \<lambda>_. True, wDo = \<lambda>_ _. None\<rparr>"

lemma LookupHash_cached_for_an_hour_witness:
  "\<exists>c'. LookupHash dead_web (\<lambda>_. hour) (\<lambda>_. hour) ''ab'' c' = (Ok VTEmpty, c', []) \<and> VTKey c' = ''k''"
proof -
  have "LookupHash dead_web (\<lambda>_. 0) (\<lambda>_. 0) ''ab'' (newIntel ''k'' []) =
      (Ok VTEmpty, cachePut 0 0 ''vt:hash:ab'' (VTValue VTEmpty) hour
         (newIntel ''k'' [])\<lparr>vtLimiter := limiter_leave 0 (newRateLimiter 4 minute)\<rparr>,
       [''https://www.virustotal.com/api/v3/files/ab''])"
    by (simp add: LookupHash_def vt_lookup_def newIntel_def cacheGet_def Wait_def limiter_enter_def newRateLimiter_def
        vtGET_def dead_web_def limiter_leave_def cachePut_def)
  from LookupHash_cached_for_an_hour [OF this, of "\<lambda>_. hour" dead_web "\<lambda>_. hour"] show ?thesis
    by (auto simp: newIntel_def cacheGet_def cachePut_def)
qed

end
