(* ===== verification/Browser.thy ===== *)
theory Browser
  imports HeapScan
begin

text \<open>
  The map of browser processes (\<^verbatim>\<open>observer/browser/map.go\<close>, \<^verbatim>\<open>BrowserMapJSON\<close> in
  \<^verbatim>\<open>context/snapshot.go\<close>): a walk over \<^verbatim>\<open>/proc\<close> that classifies each process by its command line.
  The listing of \<^verbatim>\<open>/proc\<close>, or the text of its error, is an argument.
\<close>

section \<open>Command lines\<close>

record Process =
  brPID :: int
  brBrowser :: string
  brType :: string
  brURL :: string
  brSandboxed :: bool
  brParentPID :: int

definition proc_path_of :: "int \<Rightarrow> string \<Rightarrow> string" where
  "proc_path_of pid file = ''/proc/'' @ dec_int pid @ ''/'' @ file"

definition browser_cmdline :: "procfs \<Rightarrow> int \<Rightarrow> string list option" where
  "browser_cmdline fs pid =
     map_option (\<lambda>dat. filter (\<lambda>p. p \<noteq> []) (split_byte (CHR 0x00) dat)) (readFile fs (proc_path_of pid ''cmdline''))"

text \<open>An error of \<^verbatim>\<open>Atoi\<close> is dropped: the value beside it is used.\<close>

definition readStatPPID :: "procfs \<Rightarrow> int \<Rightarrow> int" where
  "readStatPPID fs pid =
     (case readFile fs (proc_path_of pid ''stat'') of
        None \<Rightarrow> 0
      | Some dat \<Rightarrow> (let parts = Fields dat in if 3 < length parts then fst (Atoi (parts ! 3)) else 0))"

definition extractFlag :: "string list \<Rightarrow> string \<Rightarrow> string" where
  "extractFlag cmdline flag =
     (case find (\<lambda>arg. HasPrefix arg (flag @ ''='')) cmdline of
        None \<Rightarrow> []
      | Some arg \<Rightarrow> TrimPrefix arg (flag @ ''=''))"

definition containsFlag :: "string list \<Rightarrow> string \<Rightarrow> bool" where
  "containsFlag cmdline flag \<longleftrightarrow> list_ex (\<lambda>arg. arg = flag \<or> HasPrefix arg (flag @ ''='')) cmdline"

section \<open>The two browsers\<close>

definition isChromium :: "string list \<Rightarrow> bool" where
  "isChromium cmdline \<longleftrightarrow> Base (hd cmdline) \<in> {''chrome'', ''chromium'', ''Brave-Browser'', ''msedge''}"

definition parseChrome :: "procfs \<Rightarrow> int \<Rightarrow> string list \<Rightarrow> Process" where
  "parseChrome fs pid cmdline =
     (let typ = extractFlag cmdline ''--type'';
          site = extractFlag cmdline ''--site-for-process'';
          appID = extractFlag cmdline ''--app-id''
      in \<lparr>brPID = pid, brBrowser = ''chrome'',
          brType = (if typ = [] then ''browser'' else typ),
          brURL = (if site \<noteq> [] then site else if appID \<noteq> [] then ''app-id: '' @ appID else []),
          brSandboxed = (containsFlag cmdline ''--sandbox-type=renderer'' \<or> typ = ''renderer''),
          brParentPID = readStatPPID fs pid\<rparr>)"

definition isFirefox :: "string list \<Rightarrow> bool" where
  "isFirefox cmdline \<longleftrightarrow> Base (hd cmdline) \<in> {''firefox'', ''firefox-bin''}"

definition role_arg :: "string \<Rightarrow> string option" where
  "role_arg arg =
     (if arg = ''socket'' then Some ''network_socket''
      else if arg = ''web'' \<or> arg = ''webIsolated'' then Some ''web_content''
      else if arg = ''extension'' then Some ''extension''
      else if arg = ''rdd'' then Some ''data_decoder''
      else if arg = ''gpu'' then Some ''gpu''
      else None)"

text \<open>The loop runs from the last argument to the first and stops at the first role it knows.\<close>

definition firefox_role :: "string list \<Rightarrow> string" where
  "firefox_role cmdline =
     (case List.map_filter role_arg (rev cmdline) of [] \<Rightarrow> ''unknown'' | r # _ \<Rightarrow> r)"

definition parseFirefox :: "procfs \<Rightarrow> int \<Rightarrow> string list \<Rightarrow> Process" where
  "parseFirefox fs pid cmdline =
     (let content = ''-contentproc'' \<in> set cmdline in
      \<lparr>brPID = pid, brBrowser = ''firefox'',
       brType = (if content then firefox_role cmdline else ''browser''), brURL = [], brSandboxed = content,
       brParentPID = readStatPPID fs pid\<rparr>)"

section \<open>The walk\<close>

definition map_process :: "procfs \<Rightarrow> string \<times> bool \<Rightarrow> Process option" where
  "map_process fs = (\<lambda>(name, isDir).
     (if \<not> isDir then None
      else case Atoi name of
             (_, Some _) \<Rightarrow> None
           | (pid, None) \<Rightarrow>
               (case browser_cmdline fs pid of
                  None \<Rightarrow> None
                | Some cmdline \<Rightarrow>
                    if cmdline = [] then None
                    else if isChromium cmdline then Some (parseChrome fs pid cmdline)
                    else if isFirefox cmdline then Some (parseFirefox fs pid cmdline)
                    else None)))"

definition MapProcesses :: "procfs \<Rightarrow> string + (string \<times> bool) list \<Rightarrow> string + Process list" where
  "MapProcesses fs listing = map_sum id (List.map_filter (map_process fs)) listing"

definition Process_json :: "Process \<Rightarrow> json" where
  "Process_json p =
     JObj ([(''pid'', jint (brPID p)), (''browser'', jstr (brBrowser p)), (''type'', jstr (brType p))]
       @ omit_if (brURL p = []) ''url'' (jstr (brURL p))
       @ [(''sandboxed'', JBool (brSandboxed p)), (''parent_pid'', jint (brParentPID p))])"

text \<open>The nil slice of a system without browsers is \<^verbatim>\<open>null\<close>.\<close>

definition BrowserMapJSON :: "procfs \<Rightarrow> string + (string \<times> bool) list \<Rightarrow> string + json" where
  "BrowserMapJSON fs listing =
     (case MapProcesses fs listing of
        Inl e \<Rightarrow> Inl (''failed to map browsers: '' @ e)
      | Inr procs \<Rightarrow> Inr (if procs = [] then JNull else JArr (map Process_json procs)))"

section \<open>The parent in the status line\<close>

text \<open>The words of a command name, as they stand between the parentheses of the status line.\<close>

definition paren :: "string list \<Rightarrow> string list" where
  "paren cs = (let xs = (CHR ''('' # hd cs) # tl cs in butlast xs @ [last xs @ '')''])"

lemma Join_paren: "cs \<noteq> [] \<Longrightarrow> Join (paren cs) '' '' = ''('' @ Join cs '' '' @ '')''"
proof -
  assume "cs \<noteq> []"
  then obtain c cs' where cs: "cs = c # cs'" by (cases cs) auto
  have close: "xs \<noteq> [] \<Longrightarrow> Join (butlast xs @ [last xs @ '')'']) '' '' = Join xs '' '' @ '')''" for xs
    by (induction xs) (auto simp: Join_Cons)
  from close [of "(CHR ''('' # c) # cs'"] show ?thesis
    by (simp add: paren_def cs Let_def Join_cons_head del: butlast.simps last.simps)
qed

lemma paren_ne: "paren cs \<noteq> []"
  by (simp add: paren_def Let_def)

lemma Join_append: "xs \<noteq> [] \<Longrightarrow> ys \<noteq> [] \<Longrightarrow> Join (xs @ ys) sep = Join xs sep @ sep @ Join ys sep"
  by (induction xs rule: list_nonempty_induct) (auto simp: Join_Cons)

lemma plain_char_dec: "list_all plain_char (dec n)"
  using dec_digits(1) [of n]
  by (rule list.pred_mono_strong)
    (auto simp: plain_char_def is_digit_def digit_val_def is_ascii_def ascii_space_def Let_def split: if_splits)

lemma stat_words:
  assumes "cs \<noteq> []" and "ws \<noteq> []" and "\<forall>w \<in> set (cs @ ws). list_all plain_char w \<and> w \<noteq> []"
  shows "Fields (dec pid @ '' ('' @ Join cs '' '' @ '') '' @ Join ws '' '') = dec pid # paren cs @ ws"
proof -
  obtain c cs' where cs: "cs = c # cs'" using assms(1) by (cases cs) auto
  have marks: "plain_char (CHR ''('')" "plain_char (CHR '')'')"
    by (simp_all add: plain_char_def is_ascii_def ascii_space_def)
  have "w \<in> set (paren cs) \<Longrightarrow> list_all plain_char w \<and> w \<noteq> []" for w
    using assms(3) marks last_in_set [of cs'] in_set_butlastD [of w cs']
    by (auto simp: paren_def cs split: if_splits)
  then have "Fields (Join (dec pid # paren cs @ ws) '' '') = dec pid # paren cs @ ws"
    using assms(3) plain_char_dec dec_digits(2) by (intro Fields_Join) auto
  moreover have "Join (dec pid # paren cs @ ws) '' '' = dec pid @ '' ('' @ Join cs '' '' @ '') '' @ Join ws '' ''"
    using Join_append [of "paren cs" ws "'' ''"] assms(1,2) by (simp add: Join_Cons Join_paren paren_ne)
  ultimately show ?thesis by simp
qed

text \<open>What the code takes for the parent, by the number of words in the command name.\<close>

definition parent_word :: "string list \<Rightarrow> int \<Rightarrow> int" where
  "parent_word cs ppid =
     (if length cs = 1 then ppid else if length cs \<le> 3 then 0 else fst (Atoi (cs ! 2)))"

lemma Atoi_not_digits: "c \<in> set s \<Longrightarrow> c \<notin> {CHR ''-'', CHR ''+''} \<Longrightarrow> \<not> is_digit 10 c \<Longrightarrow> fst (Atoi s) = 0"
  by (auto simp: Atoi_def Let_def sign_split_def list_all_iff split: list.splits if_splits)

lemma Atoi_letter: "\<not> is_digit 10 c \<Longrightarrow> fst (Atoi [c]) = 0"
  by (auto simp: Atoi_def Let_def sign_split_def)

text \<open>
  C40: The parent that the map of browsers reports for a process is read from the fourth word of its
  status line, although the command name in that line may hold blanks. With a name of one word the
  parent is right; with two or three words it is always 0 (so for the \<^verbatim>\<open>Web Content\<close> processes of
  Firefox); with more words it is the third word of the name, so a process can choose it.
\<close>

theorem browser_parent_of_spaced_name:
  assumes "readFile fs (proc_path_of pid ''stat'') =
      Some (dec n @ '' ('' @ Join cs '' '' @ '') '' @ Join ([state] # dec_int ppid # ws) '' '')"
    and "cs \<noteq> []" and "\<forall>w \<in> set (cs @ ws). list_all plain_char w \<and> w \<noteq> []"
    and "plain_char state" and "\<not> is_digit 10 state" and "0 \<le> ppid" and "ppid < 2 ^ 63"
  shows "brParentPID (parseFirefox fs pid cmdline) = parent_word cs ppid
    \<and> brParentPID (parseChrome fs pid cmdline) = parent_word cs ppid"
proof -
  have dec: "list_all plain_char (dec_int ppid) \<and> dec_int ppid \<noteq> []"
    using plain_char_dec dec_digits(2) assms(6) by (simp add: dec_int_def)
  have words: "Fields (dec n @ '' ('' @ Join cs '' '' @ '') '' @ Join ([state] # dec_int ppid # ws) '' '')
      = dec n # paren cs @ [state] # dec_int ppid # ws"
    using assms(2-4) dec by (intro stat_words) auto
  have len: "length (paren cs) = length cs"
    using assms(2) by (cases cs) (simp_all add: paren_def Let_def)
  have fourth: "readStatPPID fs pid = fst (Atoi ((dec n # paren cs @ [state] # dec_int ppid # ws) ! 3))"
    unfolding readStatPPID_def assms(1) option.case words Let_def using len assms(2) by (simp add: Suc_le_eq)
  also have "\<dots> = parent_word cs ppid"
  proof -
    from assms(2) have "length cs \<noteq> 0" by simp
    then consider "length cs = 1" | "length cs = 2" | "length cs = 3" | "3 < length cs" by linarith
    then show ?thesis
    proof cases
      case 1
      with len Atoi_dec_int [of ppid] assms(6,7) show ?thesis
        by (simp add: parent_word_def nth_append numeral_eq_Suc del: Atoi_dec_int)
    next
      case 2
      with len Atoi_letter [OF assms(5)] show ?thesis by (simp add: parent_word_def nth_append)
    next
      case 3
      then obtain a b c where "cs = [a, b, c]" by (auto simp: numeral_eq_Suc length_Suc_conv)
      then show ?thesis
        using Atoi_not_digits [of "CHR '')''" "c @ '')''"]
        by (simp add: parent_word_def paren_def is_digit_def digit_val_def)
    next
      case 4
      then have "paren cs ! 2 = cs ! 2"
        by (cases cs) (auto simp: paren_def Let_def nth_append nth_butlast numeral_eq_Suc)
      with 4 len show ?thesis by (simp add: parent_word_def nth_append)
    qed
  qed
  finally show ?thesis by (simp add: parseFirefox_def parseChrome_def Let_def)
qed

definition content_procfs :: procfs where
  "content_procfs = \<lparr>readFile = \<lambda>_. Some (dec 7 @ '' ('' @ Join [''Web'', ''Content''] '' '' @ '') '' @ Join [''S'', dec_int 42] '' ''),
     readLink = \<lambda>_. None, readDir = \<lambda>_. None\<rparr>"

lemma browser_parent_of_spaced_name_witness:
  "brParentPID (parseFirefox content_procfs 7 [''firefox'', ''-contentproc'', ''web'']) = 0"
proof -
  have words: "\<forall>w \<in> set ([''Web'', ''Content''] @ []). list_all plain_char w \<and> w \<noteq> []"
    and state: "plain_char (CHR ''S'')" "\<not> is_digit 10 (CHR ''S'')"
    by (simp_all add: plain_char_def is_ascii_def ascii_space_def is_digit_def digit_val_def)
  have stat: "readFile content_procfs (proc_path_of 7 ''stat'') =
      Some (dec 7 @ '' ('' @ Join [''Web'', ''Content''] '' '' @ '') '' @ Join ([CHR ''S''] # dec_int 42 # []) '' '')"
    by (simp add: content_procfs_def)
  from browser_parent_of_spaced_name [OF stat _ words state, of "[''firefox'', ''-contentproc'', ''web'']"]
  show ?thesis by (simp add: parent_word_def)
qed

end
