(* ===== verification/SslProbe.thy ===== *)
theory SslProbe
  imports HeapScan
begin

text \<open>
  The observer of TLS traffic (\<^verbatim>\<open>observer/ssl/ssl.go\<close>): the events that the uprobes put on their ring
  buffer, the libraries and symbols of a process to which uprobes are attached, and the order of the
  attachments. The BPF collection, the attachment of a uprobe and the ELF reader belong to libraries:
  their answers are the record \<open>ssl_host\<close>.
\<close>

section \<open>Events\<close>

record ssl_event =
  seTs :: u64
  sePID :: u32
  seTID :: u32
  seDirection :: u8
  sePad :: string
  seDataLen :: u32
  seComm :: string
  seData :: string

definition DirWrite :: u8 where "DirWrite = 0"
definition DirRead :: u8 where "DirRead = 1"

record ParsedEvent =
  peTimestamp :: gotime
  pePid :: u32
  peCommand :: string
  peDirection :: u8
  peBytes :: string

text \<open>8 + 4 + 4 + 1 + 3 + 4 + 16 + 4096 bytes.\<close>

definition ssl_event_size :: nat where "ssl_event_size = 4136"

definition decode_ssl :: "string \<Rightarrow> ssl_event option" where
  "decode_ssl s =
     (if length s < ssl_event_size then None
      else Some \<lparr>seTs = of_nat (le_val (field_at 0 8 s)), sePID = of_nat (le_val (field_at 8 4 s)),
                 seTID = of_nat (le_val (field_at 12 4 s)), seDirection = of_nat (le_val (field_at 16 1 s)),
                 sePad = field_at 17 3 s, seDataLen = of_nat (le_val (field_at 20 4 s)),
                 seComm = field_at 24 16 s, seData = field_at 40 4096 s\<rparr>)"

text \<open>\<^verbatim>\<open>e.Data[:e.DataLen]\<close> panics beyond the array.\<close>

definition parse_ssl :: "gotime \<Rightarrow> ssl_event \<Rightarrow> ParsedEvent option" where
  "parse_ssl now e =
     (if 4096 < seDataLen e then None
      else Some \<lparr>peTimestamp = now, pePid = sePID e, peCommand = TrimRightNul (seComm e),
                 peDirection = seDirection e, peBytes = take (unat (seDataLen e)) (seData e)\<rparr>)"

datatype ssl_end = StillReading | ReaderClosed | SlicePanic

text \<open>The goroutine of \<^verbatim>\<open>Start\<close> over what the ring buffer delivers, with the clock at each record.\<close>

fun ssl_Start :: "(ring_read \<times> gotime) list \<Rightarrow> ParsedEvent list \<times> ssl_end" where
  "ssl_Start [] = ([], StillReading)"
| "ssl_Start ((ReadError m, now) # rs) = ([], ReaderClosed)"
| "ssl_Start ((Sample raw, now) # rs) =
     (case decode_ssl raw of
        None \<Rightarrow> ssl_Start rs
      | Some e \<Rightarrow>
          (case parse_ssl now e of
             None \<Rightarrow> ([], SlicePanic)
           | Some pe \<Rightarrow> (let (es, r) = ssl_Start rs in (pe # es, r))))"

section \<open>Libraries and symbols\<close>

record elf_segment =
  sgLoad :: bool
  sgVaddr :: u64
  sgFilesz :: u64
  sgOff :: u64

record elf_file =
  efSections :: "string list"
  efSymbols :: "(string \<times> u64) list option"
  efDynamic :: "(string \<times> u64) list option"
  efProgs :: "elf_segment list"

record probe =
  prPath :: string
  prSymbol :: string
  prOffset :: "u64 option"
  prProgram :: string
  prPID :: "int option"
  prRet :: bool

text \<open>
  Programs of the collection, the error of opening an executable, the error of attaching a probe, and
  ELF files.
\<close>

record ssl_host =
  shPrograms :: "string list"
  shOpen :: "string \<Rightarrow> string option"
  shAttach :: "probe \<Rightarrow> string option"
  shElf :: "string \<Rightarrow> string + elf_file"

definition lib_name_of :: "string \<Rightarrow> string" where
  "lib_name_of path =
     (let base = Base path in case Index base ''.so'' of None \<Rightarrow> base | Some i \<Rightarrow> take i base)"

definition lib_of_line :: "string \<Rightarrow> (string \<times> string) option" where
  "lib_of_line line =
     (let flds = Fields line in
      if length flds < 6 then None
      else let path = flds ! 5 in
        if \<not> HasSuffix path ''.so'' \<and> \<not> Contains path ''.so.'' then None
        else Some (lib_name_of path, path))"

definition see_lib :: "(string, string) gomap \<Rightarrow> string \<times> string \<Rightarrow> (string, string) gomap" where
  "see_lib m l = (if map_of m (fst l) = None then go_put (fst l) (snd l) m else m)"

definition parseMapsLibs :: "procfs \<Rightarrow> int \<Rightarrow> (string, string) gomap option" where
  "parseMapsLibs fs pid =
     map_option (\<lambda>dat. foldl see_lib [] (List.map_filter lib_of_line (scan_lines dat)))
       (readFile fs (''/proc/'' @ dec_int pid @ ''/maps''))"

definition isGoBinary :: "ssl_host \<Rightarrow> string \<Rightarrow> bool" where
  "isGoBinary h path =
     (case shElf h path of
        Inl _ \<Rightarrow> False
      | Inr f \<Rightarrow> ''.go.buildinfo'' \<in> set (efSections f) \<or> ''.gosymtab'' \<in> set (efSections f))"

definition in_segment :: "u64 \<Rightarrow> elf_segment \<Rightarrow> bool" where
  "in_segment vaddr sg \<longleftrightarrow> sgLoad sg \<and> sgVaddr sg \<le> vaddr \<and> vaddr < sgVaddr sg + sgFilesz sg"

definition vAddrToFileOffset :: "elf_file \<Rightarrow> u64 \<Rightarrow> u64 option" where
  "vAddrToFileOffset f vaddr =
     map_option (\<lambda>sg. vaddr - sgVaddr sg + sgOff sg) (find (in_segment vaddr) (efProgs f))"

text \<open>A symbol outside all segments keeps its virtual address. The texts of the errors are dropped by the only caller.\<close>

definition findGoTLSSymbol :: "ssl_host \<Rightarrow> string \<Rightarrow> string \<Rightarrow> (string \<times> u64) option" where
  "findGoTLSSymbol h path symbolName =
     (case shElf h path of
        Inl _ \<Rightarrow> None
      | Inr f \<Rightarrow>
          Option.bind (case efSymbols f of Some syms \<Rightarrow> Some syms | None \<Rightarrow> efDynamic f)
            (\<lambda>syms. map_option (\<lambda>s. (fst s, case vAddrToFileOffset f (snd s) of None \<Rightarrow> snd s | Some off \<Rightarrow> off))
               (find (\<lambda>s. fst s = symbolName) syms)))"

section \<open>Attaching\<close>

datatype ssl_step = SslMemlock | SslSpec | SslCollection | SslRing

text \<open>\<^verbatim>\<open>New\<close>: the error, and whether the collection was closed again.\<close>

definition ssl_New :: "(ssl_step \<Rightarrow> string option) \<Rightarrow> string option \<times> bool" where
  "ssl_New fails =
     (case fails SslMemlock of
        Some e \<Rightarrow> (Some (''RemoveMemlock: '' @ e), False)
      | None \<Rightarrow>
          (case fails SslSpec of
             Some e \<Rightarrow> (Some (''load ssl bpf spec: '' @ e), False)
           | None \<Rightarrow>
               (case fails SslCollection of
                  Some e \<Rightarrow> (Some (''instantiate ssl bpf collection: '' @ e), False)
                | None \<Rightarrow>
                    (case fails SslRing of
                       Some e \<Rightarrow> (Some (''open ring buffer: '' @ e), True)
                     | None \<Rightarrow> (None, False)))))"

text \<open>The body that the four helpers share: the error, and the links afterwards.\<close>

type_synonym attach = "probe list \<Rightarrow> string option \<times> probe list"

definition attach_probe :: "ssl_host \<Rightarrow> string \<Rightarrow> probe \<Rightarrow> attach" where
  "attach_probe h what p links =
     (if prProgram p \<notin> set (shPrograms h) then
        (Some (''program '' @ prProgram p @ '' not found in BPF collection''), links)
      else case shOpen h (prPath p) of
             Some e \<Rightarrow> (Some (''open executable '' @ prPath p @ '': '' @ e), links)
           | None \<Rightarrow>
               (case shAttach h p of
                  Some e \<Rightarrow> (Some (what @ '': '' @ e), links)
                | None \<Rightarrow> (None, links @ [p])))"

definition only_pid :: "int \<Rightarrow> int option" where
  "only_pid pid = (if 0 < pid then Some pid else None)"

definition attachLib :: "ssl_host \<Rightarrow> string \<Rightarrow> string \<Rightarrow> string \<Rightarrow> int \<Rightarrow> attach" where
  "attachLib h libPath symbol progName pid =
     attach_probe h (''uprobe '' @ libPath @ '':'' @ symbol)
       \<lparr>prPath = libPath, prSymbol = symbol, prOffset = None, prProgram = progName, prPID = only_pid pid, prRet = False\<rparr>"

definition attachRetLib :: "ssl_host \<Rightarrow> string \<Rightarrow> string \<Rightarrow> string \<Rightarrow> int \<Rightarrow> attach" where
  "attachRetLib h libPath symbol progName pid =
     attach_probe h (''uretprobe '' @ libPath @ '':'' @ symbol)
       \<lparr>prPath = libPath, prSymbol = symbol, prOffset = None, prProgram = progName, prPID = only_pid pid, prRet = True\<rparr>"

definition attachOffset :: "ssl_host \<Rightarrow> string \<Rightarrow> string \<Rightarrow> u64 \<Rightarrow> string \<Rightarrow> int \<Rightarrow> attach" where
  "attachOffset h binPath symbol off progName pid =
     attach_probe h (''uprobe go '' @ symbol @ '' offset='' @ dec (unat off))
       \<lparr>prPath = binPath, prSymbol = symbol, prOffset = Some off, prProgram = progName, prPID = only_pid pid, prRet = False\<rparr>"

definition attachRetOffset :: "ssl_host \<Rightarrow> string \<Rightarrow> string \<Rightarrow> u64 \<Rightarrow> string \<Rightarrow> int \<Rightarrow> attach" where
  "attachRetOffset h binPath symbol off progName pid =
     attach_probe h (''uretprobe go '' @ symbol @ '' offset='' @ dec (unat off))
       \<lparr>prPath = binPath, prSymbol = symbol, prOffset = Some off, prProgram = progName, prPID = only_pid pid, prRet = True\<rparr>"

text \<open>An error is remembered and the next attachment is tried all the same.\<close>

definition then_attach :: "attach \<Rightarrow> string option \<times> probe list \<Rightarrow> string option \<times> probe list" where
  "then_attach f st =
     (let (e, links) = f (snd st) in ((case e of None \<Rightarrow> fst st | Some m \<Rightarrow> Some m), links))"

definition lib_probes :: "ssl_host \<Rightarrow> (string, string) gomap \<Rightarrow> int \<Rightarrow> attach list" where
  "lib_probes h libs pid =
     (case map_of libs ''libssl'' of
        None \<Rightarrow> []
      | Some ssl \<Rightarrow>
          [attachLib h ssl ''SSL_write'' ''uprobe/SSL_write'' pid,
           attachLib h ssl ''SSL_read'' ''uprobe/SSL_read'' pid,
           attachRetLib h ssl ''SSL_read'' ''uretprobe/SSL_read'' pid])
     @ (case map_of libs ''libnss3'' of
        None \<Rightarrow> []
      | Some nss \<Rightarrow>
          [attachLib h nss ''PR_Write'' ''uprobe/PR_Write'' pid,
           attachLib h nss ''PR_Read'' ''uprobe/PR_Read'' pid,
           attachRetLib h nss ''PR_Read'' ''uretprobe/PR_Read'' pid])"

definition go_probes :: "ssl_host \<Rightarrow> int \<Rightarrow> attach list" where
  "go_probes h pid =
     (let exePath = ''/proc/'' @ dec_int pid @ ''/exe'' in
      if \<not> isGoBinary h exePath then []
      else (case findGoTLSSymbol h exePath ''crypto/tls.(*Conn).Write'' of
              None \<Rightarrow> []
            | Some (nm, off) \<Rightarrow> [attachOffset h exePath nm off ''uprobe/go_tls_write'' pid])
         @ (case findGoTLSSymbol h exePath ''crypto/tls.(*Conn).Read'' of
              None \<Rightarrow> []
            | Some (nm, off) \<Rightarrow>
                [attachOffset h exePath nm off ''uprobe/go_tls_read'' pid,
                 attachRetOffset h exePath nm off ''uretprobe/go_tls_read'' pid]))"

text \<open>The text of the read error is left out.\<close>

definition AttachPID :: "ssl_host \<Rightarrow> procfs \<Rightarrow> int \<Rightarrow> attach" where
  "AttachPID h fs pid links =
     (case parseMapsLibs fs pid of
        None \<Rightarrow> (Some (''parse maps for PID '' @ dec_int pid @ '': ''), links)
      | Some libs \<Rightarrow> fold then_attach (lib_probes h libs pid @ go_probes h pid) (None, links))"

definition attach_entry :: "ssl_host \<Rightarrow> procfs \<Rightarrow> string \<times> bool \<Rightarrow> probe list \<Rightarrow> probe list" where
  "attach_entry h fs = (\<lambda>(name, isDir) links.
     (if \<not> isDir then links
      else case Atoi name of
             (_, Some _) \<Rightarrow> links
           | (pid, None) \<Rightarrow> snd (AttachPID h fs pid links)))"

definition AttachAllSSLProcesses :: "ssl_host \<Rightarrow> procfs \<Rightarrow> probe list \<Rightarrow> probe list" where
  "AttachAllSSLProcesses h fs links =
     (case readDir fs ''/proc'' of None \<Rightarrow> links | Some entries \<Rightarrow> fold (attach_entry h fs) entries links)"

text \<open>What \<^verbatim>\<open>Close\<close> closes, in order; the slice of links keeps its elements.\<close>

datatype ssl_close = CloseReader | CloseLink probe | CloseCollection

definition ssl_Close :: "probe list \<Rightarrow> ssl_close list" where
  "ssl_Close links = CloseReader # map CloseLink links @ [CloseCollection]"

text \<open>The programs of the collection, by the names of the generated bindings.\<close>

definition sslPrograms :: "string list" where
  "sslPrograms =
     [''uprobe_go_tls_read_entry'', ''uprobe_go_tls_write'', ''uprobe_pr_read_entry'', ''uprobe_pr_write'',
      ''uprobe_ssl_read_entry'', ''uprobe_ssl_write'', ''uretprobe_go_tls_read'', ''uretprobe_pr_read'',
      ''uretprobe_ssl_read'']"

section \<open>No probe is ever attached\<close>

definition refused :: "attach \<Rightarrow> bool" where
  "refused f \<longleftrightarrow> (\<forall>links. \<exists>m. f links = (Some m, links))"

lemma probes_refused:
  assumes "shPrograms h = sslPrograms"
  shows "\<forall>f \<in> set (lib_probes h libs pid @ go_probes h pid). refused f"
  using assms
  by (auto simp: lib_probes_def go_probes_def refused_def attachLib_def attachRetLib_def attachOffset_def
      attachRetOffset_def attach_probe_def sslPrograms_def Let_def split: option.splits if_splits)

lemma fold_refused:
  "\<forall>f \<in> set fs. refused f \<Longrightarrow> fs \<noteq> [] \<Longrightarrow> \<exists>m. fold then_attach fs st = (Some m, snd st)"
proof (induction fs arbitrary: st)
  case (Cons f fs)
  from Cons.prems(1) have "refused f" by simp
  then obtain m where m: "f (snd st) = (Some m, snd st)" unfolding refused_def by blast
  then have step: "then_attach f st = (Some m, snd st)" by (simp add: then_attach_def)
  show ?case
  proof (cases "fs = []")
    case False
    with Cons.IH [of "(Some m, snd st)"] Cons.prems(1) step show ?thesis by simp
  qed (simp add: step)
qed simp

lemma AttachPID_refused:
  assumes "shPrograms h = sslPrograms"
  shows "snd (AttachPID h fs pid links) = links"
proof (cases "parseMapsLibs fs pid")
  case (Some libs)
  let ?ps = "lib_probes h libs pid @ go_probes h pid"
  show ?thesis
  proof (cases "?ps = []")
    case False
    from fold_refused [OF probes_refused [OF assms] False, of "(None, links)"] Some show ?thesis
      by (auto simp: AttachPID_def)
  qed (simp add: AttachPID_def Some)
qed (simp add: AttachPID_def)

text \<open>
  C32: The collection files its programs under the names of their C functions, as the generated bindings
  list them, and the observer looks them up by section names such as \<^verbatim>\<open>uprobe/SSL_write\<close>. So no uprobe is
  ever attached: for a process that maps \<^verbatim>\<open>libssl\<close> the attachment ends with an error, which the caller of
  \<^verbatim>\<open>AttachPID\<close> drops, and the system-wide attachment changes nothing.
\<close>

theorem ssl_probes_never_attach:
  assumes "shPrograms h = sslPrograms" and "parseMapsLibs fs pid = Some libs" and "map_of libs ''libssl'' = Some path"
  shows "(\<exists>m. AttachPID h fs pid links = (Some m, links)) \<and> AttachAllSSLProcesses h fs links = links"
proof
  have "lib_probes h libs pid \<noteq> []" using assms(3) by (simp add: lib_probes_def)
  with fold_refused [OF probes_refused [OF assms(1)], of libs pid "(None, links)"] assms(2)
  show "\<exists>m. AttachPID h fs pid links = (Some m, links)" by (auto simp: AttachPID_def)
  have "fold (attach_entry h fs) es links = links" for es
    by (induction es) (auto simp: attach_entry_def AttachPID_refused [OF assms(1)] split: prod.splits option.splits)
  then show "AttachAllSSLProcesses h fs links = links" by (simp add: AttachAllSSLProcesses_def split: option.splits)
qed

definition ssl_maps :: procfs where
  "ssl_maps = \<lparr>readFile = \<lambda>_. Some ''1-2 r-xp 0 8:1 9 /lib/libssl.so.3'', readLink = \<lambda>_. None,
     readDir = \<lambda>_. Some [(''7'', True)]\<rparr>"

definition loaded_host :: ssl_host where
  "loaded_host = \<lparr>shPrograms = sslPrograms, shOpen = \<lambda>_. None, shAttach = \<lambda>_. None, shElf = \<lambda>_. Inl ''no ELF file''\<rparr>"

lemma ssl_probes_never_attach_witness:
  "(\<exists>m. AttachPID loaded_host ssl_maps 7 [] = (Some m, [])) \<and> AttachAllSSLProcesses loaded_host ssl_maps [] = []"
proof -
  have "lib_of_line ''1-2 r-xp 0 8:1 9 /lib/libssl.so.3'' = Some (''libssl'', ''/lib/libssl.so.3'')"
    by (simp add: lib_of_line_def lib_name_of_def Base_def HasSuffix_def HasPrefix_def go_strings)
  then have libs: "parseMapsLibs ssl_maps 7 = Some [(''libssl'', ''/lib/libssl.so.3'')]"
    by (simp add: parseMapsLibs_def ssl_maps_def scan_lines_def drop_cr_def HasSuffix_def map_filter_simps see_lib_def go_strings)
  show ?thesis
    by (rule ssl_probes_never_attach [OF _ libs, of loaded_host "''/lib/libssl.so.3''"])
      (simp_all add: loaded_host_def)
qed

section \<open>The first page of every write arrives\<close>

text \<open>
  \<^verbatim>\<open>emit_ssl\<close> of \<^verbatim>\<open>ebpf/ssl/ssl.bpf.c\<close>: at most 4096 bytes of the buffer are copied over what the reserved
  record holds.
\<close>

definition emit_ssl :: "u64 \<Rightarrow> u32 \<Rightarrow> u32 \<Rightarrow> u8 \<Rightarrow> string \<Rightarrow> string \<Rightarrow> string \<Rightarrow> string \<Rightarrow> ssl_event" where
  "emit_ssl ts pid tid dir pad comm buf page =
     (let cap = min (length buf) 4096 in
      \<lparr>seTs = ts, sePID = pid, seTID = tid, seDirection = dir, sePad = pad, seDataLen = of_nat cap, seComm = comm,
       seData = take cap buf @ drop cap page\<rparr>)"

definition encode_ssl :: "ssl_event \<Rightarrow> string" where
  "encode_ssl e =
     le_bytes 8 (unat (seTs e)) @ le_bytes 4 (unat (sePID e)) @ le_bytes 4 (unat (seTID e))
     @ le_bytes 1 (unat (seDirection e)) @ sePad e @ le_bytes 4 (unat (seDataLen e)) @ seComm e @ seData e"

definition ssl_event_ok :: "ssl_event \<Rightarrow> bool" where
  "ssl_event_ok e \<longleftrightarrow> length (sePad e) = 3 \<and> length (seComm e) = 16 \<and> length (seData e) = 4096"

lemma decode_encode_ssl:
  assumes "ssl_event_ok e"
  shows "decode_ssl (encode_ssl e) = Some e"
proof -
  from assms have len: "length (sePad e) = 3" "length (seComm e) = 16" "length (seData e) = 4096"
    by (simp_all add: ssl_event_ok_def)
  have "length (encode_ssl e) = ssl_event_size"
    by (simp add: encode_ssl_def ssl_event_size_def len)
  then show ?thesis
    by (simp add: decode_ssl_def encode_ssl_def event_fields len le_u64 le_u32 le_u8 del: le_bytes.simps)
qed

text \<open>One call of \<^verbatim>\<open>emit_ssl\<close>, and the clock when its record is read.\<close>

record ssl_write =
  swTs :: u64
  swPID :: u32
  swTID :: u32
  swDir :: u8
  swPad :: string
  swComm :: string
  swBuf :: string
  swPage :: string
  swRead :: gotime

definition ssl_write_ok :: "ssl_write \<Rightarrow> bool" where
  "ssl_write_ok w \<longleftrightarrow> length (swPad w) = 3 \<and> length (swComm w) = 16 \<and> length (swPage w) = 4096"

definition written :: "ssl_write \<Rightarrow> ssl_event" where
  "written w = emit_ssl (swTs w) (swPID w) (swTID w) (swDir w) (swPad w) (swComm w) (swBuf w) (swPage w)"

text \<open>
  C13: What a process writes to or reads from its TLS library reaches the Go side unchanged and in order,
  up to the first 4096 bytes of each call; the goroutine never panics on records of the kernel.
\<close>

theorem ssl_first_page_delivered:
  assumes "\<forall>w \<in> set ws. ssl_write_ok w"
  shows "ssl_Start (map (\<lambda>w. (Sample (encode_ssl (written w)), swRead w)) ws) =
    (map (\<lambda>w. \<lparr>peTimestamp = swRead w, pePid = swPID w, peCommand = TrimRightNul (swComm w), peDirection = swDir w,
               peBytes = take 4096 (swBuf w)\<rparr>) ws, StillReading)"
  using assms
proof (induction ws)
  case (Cons w ws)
  then have ok: "ssl_event_ok (written w)"
    by (simp add: written_def emit_ssl_def Let_def ssl_event_ok_def ssl_write_ok_def)
  have len: "unat (of_nat (min (length (swBuf w)) 4096) :: u32) = min (length (swBuf w)) 4096"
    by (simp add: unat_of_nat take_bit_nat_eq_self min_def)
  have "\<not> 4096 < (of_nat (min (length (swBuf w)) 4096) :: u32)"
    unfolding word_less_nat_alt len by simp
  with Cons len show ?case
    by (simp add: decode_encode_ssl [OF ok]) (simp add: written_def emit_ssl_def Let_def parse_ssl_def min_def)
qed simp

lemma ssl_first_page_delivered_witness:
  "ssl_Start [(Sample (encode_ssl (emit_ssl 1 7 7 DirWrite (replicate 3 (CHR 0x00)) (replicate 16 (CHR 0x00)) ''GET /''
       (replicate 4096 (CHR 0x00)))), 5)] =
   ([\<lparr>peTimestamp = 5, pePid = 7, peCommand = [], peDirection = DirWrite, peBytes = ''GET /''\<rparr>], StillReading)"
  using ssl_first_page_delivered [of "[\<lparr>swTs = 1, swPID = 7, swTID = 7, swDir = DirWrite, swPad = replicate 3 (CHR 0x00),
      swComm = replicate 16 (CHR 0x00), swBuf = ''GET /'', swPage = replicate 4096 (CHR 0x00), swRead = 5\<rparr>]"]
  by (simp add: ssl_write_ok_def written_def TrimRightNul_def)

section \<open>Addresses and file offsets\<close>

definition segment_plain :: "elf_segment \<Rightarrow> bool" where
  "segment_plain sg \<longleftrightarrow> unat (sgVaddr sg) + unat (sgFilesz sg) < 2 ^ 64 \<and> unat (sgOff sg) + unat (sgFilesz sg) < 2 ^ 64"

definition holds_addr :: "u64 \<Rightarrow> elf_segment \<Rightarrow> bool" where
  "holds_addr v sg \<longleftrightarrow> sgLoad sg \<and> unat (sgVaddr sg) \<le> unat v \<and> unat v < unat (sgVaddr sg) + unat (sgFilesz sg)"

lemma in_segment_iff: "segment_plain sg \<Longrightarrow> in_segment v sg \<longleftrightarrow> holds_addr v sg"
  by (simp add: in_segment_def holds_addr_def segment_plain_def word_less_nat_alt word_le_nat_alt unat_word_ariths)

lemma segment_offset:
  assumes "segment_plain sg" and "holds_addr v sg"
  shows "unat (v - sgVaddr sg + sgOff sg) = unat v - unat (sgVaddr sg) + unat (sgOff sg)"
proof -
  have "unat (v - sgVaddr sg) = unat v - unat (sgVaddr sg)"
    using assms(2) by (intro unat_sub) (simp add: holds_addr_def word_le_nat_alt)
  moreover have "unat v - unat (sgVaddr sg) + unat (sgOff sg) < 2 ^ 64"
    using assms by (auto simp: segment_plain_def holds_addr_def)
  ultimately show ?thesis by (simp add: unat_word_ariths(1))
qed

text \<open>
  For ELF files whose segments do not wrap around the address space, an address has a file offset
  exactly if a loaded segment holds it, and the offset lies as far behind the start of that segment in the
  file as the address behind its start in memory.
\<close>

theorem vAddrToFileOffset_exact:
  assumes "\<forall>sg \<in> set (efProgs f). segment_plain sg"
  shows "case vAddrToFileOffset f v of
      None \<Rightarrow> \<forall>sg \<in> set (efProgs f). \<not> holds_addr v sg
    | Some off \<Rightarrow> \<exists>sg \<in> set (efProgs f). holds_addr v sg
        \<and> unat off + unat (sgVaddr sg) = unat v + unat (sgOff sg)"
proof (cases "find (in_segment v) (efProgs f)")
  case None
  then have "vAddrToFileOffset f v = None" by (simp add: vAddrToFileOffset_def)
  with None assms show ?thesis by (auto simp: find_None_iff in_segment_iff)
next
  case (Some sg)
  then have sg: "sg \<in> set (efProgs f)" "in_segment v sg" by (auto simp: find_Some_iff)
  with assms have h: "segment_plain sg" "holds_addr v sg" by (auto simp: in_segment_iff)
  then have "unat (v - sgVaddr sg + sgOff sg) + unat (sgVaddr sg) = unat v + unat (sgOff sg)"
    using segment_offset [OF h] by (simp add: holds_addr_def)
  with Some sg(1) h(2) show ?thesis by (auto simp: vAddrToFileOffset_def)
qed

lemma vAddrToFileOffset_exact_witness:
  "vAddrToFileOffset \<lparr>efSections = [], efSymbols = None, efDynamic = None,
     efProgs = [\<lparr>sgLoad = True, sgVaddr = 4096, sgFilesz = 100, sgOff = 64\<rparr>]\<rparr> 4100 \<noteq> None"
  using vAddrToFileOffset_exact [of "\<lparr>efSections = [], efSymbols = None, efDynamic = None,
     efProgs = [\<lparr>sgLoad = True, sgVaddr = 4096, sgFilesz = 100, sgOff = 64\<rparr>]\<rparr>" 4100]
  by (simp add: segment_plain_def holds_addr_def split: option.splits)

end
