(* ===== verification/HttpRecon.thy ===== *)
theory HttpRecon
  imports SslProbe
begin

text \<open>
  The reconstruction of HTTP calls from intercepted TLS traffic (\<^verbatim>\<open>context/http_reconstructor.go\<close>):
  path templates, the buffers of a process, and the map of endpoints that an interception of bounded
  length fills. The HTTP parser of Go's library is an argument: the request, or the status of the response,
  at the start of some bytes, or nothing when it reports an error. What the loop of \<^verbatim>\<open>SSLIntercept\<close> meets
  is a list of turns: the clock at its head, the outcome of the \<^verbatim>\<open>select\<close>, and the order of the range over
  the endpoints.
\<close>

section \<open>Types\<close>

record EndpointStats =
  epMethod :: string
  epPathTemplate :: string
  epCount :: int
  epAuthSeen :: bool
  epAuthType :: string
  epLastSeen :: gotime
  epStatusCodes :: "(int, int) gomap"

record APIMap =
  amEndpoints :: "(string, EndpointStats) gomap"
  amPID :: u32
  amComm :: string
  amDuration :: duration
  amCaptureAt :: gotime

definition newAPIMap :: "gotime \<Rightarrow> u32 \<Rightarrow> string \<Rightarrow> APIMap" where
  "newAPIMap now pid comm =
     \<lparr>amEndpoints = [], amPID = pid, amComm = comm, amDuration = 0, amCaptureAt = now\<rparr>"

record http_request =
  hrMethod :: string
  hrPath :: string
  hrHeader :: "string \<Rightarrow> string"

record http_parser =
  hpRequest :: "string \<Rightarrow> http_request option"
  hpResponse :: "string \<Rightarrow> int option"

section \<open>Path templates\<close>

definition hex_lower :: re where
  "hex_lower = Chr (\<lambda>c. is_digit 10 c \<or> c \<in> set ''abcdef'')"

definition reUUID :: re where
  "reUUID = re_seq [re_times 8 hex_lower, re_lit ''-'', re_times 4 hex_lower, re_lit ''-'', re_times 4 hex_lower,
     re_lit ''-'', re_times 4 hex_lower, re_lit ''-'', re_times 12 hex_lower]"

definition reNumeric :: re where
  "reNumeric = re_seq [re_lit ''/'', re_plus (Chr (is_digit 10)), Alt (re_lit ''/'') AtEnd]"

definition reHex :: re where
  "reHex = re_seq [re_lit ''/'', re_at_least 16 hex_lower]"

definition replace_numbers :: "string \<Rightarrow> string" where
  "replace_numbers p = ReplaceAllFunc reNumeric (\<lambda>s. if HasSuffix s ''/'' then ''/{id}/'' else ''/{id}'') p"

definition normalizePath :: "string \<Rightarrow> string" where
  "normalizePath path =
     (let p1 = ReplaceAllFunc reUUID (\<lambda>_. ''{uuid}'') path;
          p2 = replace_numbers p1;
          p3 = ReplaceAllFunc reHex (\<lambda>_. ''/{id}'') p2
      in case Index p3 ''?'' of None \<Rightarrow> p3 | Some i \<Rightarrow> take i p3)"

definition detectAuth :: "http_request \<Rightarrow> bool \<times> string" where
  "detectAuth req =
     (let auth = hrHeader req ''Authorization'' in
      if auth = [] then
        (if list_ex (\<lambda>h. hrHeader req h \<noteq> []) [''X-Api-Key'', ''X-API-Key'', ''Api-Key'', ''X-Auth-Token'']
         then (True, ''ApiKey'') else (False, []))
      else if HasPrefix auth ''Bearer '' then (True, ''Bearer'')
      else if HasPrefix auth ''Basic '' then (True, ''Basic'')
      else (True, ''Other''))"

section \<open>Buffers\<close>

record streamBuffer =
  readBuf :: string
  writeBuf :: string

text \<open>An unparsed buffer of more than 64 kB keeps its last 4 kB.\<close>

definition shorten :: "string \<Rightarrow> string" where
  "shorten buf = (if 65536 < length buf then drop (length buf - 4096) buf else buf)"

definition endpoint_key :: "http_request \<Rightarrow> string" where
  "endpoint_key req = hrMethod req @ '' '' @ normalizePath (hrPath req)"

definition new_endpoint :: "http_request \<Rightarrow> EndpointStats" where
  "new_endpoint req =
     \<lparr>epMethod = hrMethod req, epPathTemplate = normalizePath (hrPath req), epCount = 0, epAuthSeen = False,
      epAuthType = [], epLastSeen = zeroTime, epStatusCodes = []\<rparr>"

definition count_request :: "gotime \<Rightarrow> http_request \<Rightarrow> APIMap \<Rightarrow> APIMap" where
  "count_request now req m =
     (let key = endpoint_key req;
          ep = (case map_of (amEndpoints m) key of Some ep \<Rightarrow> ep | None \<Rightarrow> new_endpoint req);
          (authSeen, authType) = detectAuth req;
          ep1 = ep\<lparr>epCount := epCount ep + 1, epLastSeen := now\<rparr>;
          ep2 = (if authSeen then ep1\<lparr>epAuthSeen := True, epAuthType := authType\<rparr> else ep1)
      in m\<lparr>amEndpoints := go_put key ep2 (amEndpoints m)\<rparr>)"

definition tryParseRequest :: "http_parser \<Rightarrow> gotime \<Rightarrow> streamBuffer \<Rightarrow> APIMap \<Rightarrow> streamBuffer \<times> APIMap" where
  "tryParseRequest hp now buf m =
     (if writeBuf buf = [] then (buf, m)
      else case hpRequest hp (writeBuf buf) of
             None \<Rightarrow> (buf\<lparr>writeBuf := shorten (writeBuf buf)\<rparr>, m)
           | Some req \<Rightarrow> (buf\<lparr>writeBuf := []\<rparr>, count_request now req m))"

text \<open>The status is given to the first endpoint that the range delivers.\<close>

definition count_status :: "(string list \<Rightarrow> string list) \<Rightarrow> int \<Rightarrow> APIMap \<Rightarrow> APIMap" where
  "count_status ord status m =
     (case go_range ord (amEndpoints m) of
        [] \<Rightarrow> m
      | (key, ep) # _ \<Rightarrow>
          (let n = (case map_of (epStatusCodes ep) status of None \<Rightarrow> 0 | Some n \<Rightarrow> n) in
           m\<lparr>amEndpoints := go_put key (ep\<lparr>epStatusCodes := go_put status (n + 1) (epStatusCodes ep)\<rparr>) (amEndpoints m)\<rparr>))"

definition tryParseResponse ::
  "http_parser \<Rightarrow> (string list \<Rightarrow> string list) \<Rightarrow> streamBuffer \<Rightarrow> APIMap \<Rightarrow> streamBuffer \<times> APIMap" where
  "tryParseResponse hp ord buf m =
     (if readBuf buf = [] then (buf, m)
      else case hpResponse hp (readBuf buf) of
             None \<Rightarrow> (buf\<lparr>readBuf := shorten (readBuf buf)\<rparr>, m)
           | Some status \<Rightarrow> (buf\<lparr>readBuf := []\<rparr>, count_status ord status m))"

section \<open>The interception\<close>

datatype selected = CtxDone | EventsClosed | TlsEvent ParsedEvent

record turn =
  tnHead :: gotime
  tnWhat :: selected
  tnNow :: gotime
  tnOrd :: "string list \<Rightarrow> string list"

type_synonym capture = "(u32, streamBuffer) gomap \<times> APIMap"

definition buffer_of :: "(u32, streamBuffer) gomap \<Rightarrow> u32 \<Rightarrow> streamBuffer" where
  "buffer_of bufs pid = (case map_of bufs pid of Some buf \<Rightarrow> buf | None \<Rightarrow> \<lparr>readBuf = [], writeBuf = []\<rparr>)"

definition take_event :: "http_parser \<Rightarrow> turn \<Rightarrow> ParsedEvent \<Rightarrow> capture \<Rightarrow> capture" where
  "take_event hp tn evt st =
     (let (bufs, m) = st; buf = buffer_of bufs (pePid evt);
          (buf', m') = (if peDirection evt = DirWrite
             then tryParseRequest hp (tnNow tn) (buf\<lparr>writeBuf := writeBuf buf @ peBytes evt\<rparr>) m
             else tryParseResponse hp (tnOrd tn) (buf\<lparr>readBuf := readBuf buf @ peBytes evt\<rparr>) m)
      in (go_put (pePid evt) buf' bufs, m'))"

text \<open>After the last turn the context has ended.\<close>

fun intercept_loop :: "http_parser \<Rightarrow> u32 \<Rightarrow> gotime \<Rightarrow> turn list \<Rightarrow> capture \<Rightarrow> capture" where
  "intercept_loop hp pid deadline [] st = st"
| "intercept_loop hp pid deadline (tn # tns) st =
     (if deadline \<le> tnHead tn then st
      else case tnWhat tn of
             CtxDone \<Rightarrow> st
           | EventsClosed \<Rightarrow> st
           | TlsEvent evt \<Rightarrow>
               intercept_loop hp pid deadline tns (if pePid evt \<noteq> pid then st else take_event hp tn evt st))"

text \<open>The orders of the ranges over endpoints and over the statuses of an endpoint are arguments.\<close>

definition status_text :: "((int list) \<Rightarrow> int list) \<Rightarrow> EndpointStats \<Rightarrow> string" where
  "status_text ordS ep =
     (let parts = map (\<lambda>(status, n). dec_int status @ times_sign @ dec_int n) (go_range ordS (epStatusCodes ep)) in
      if Join parts '', '' = [] then em_dash else Join parts '', '')"

definition endpoint_row :: "(int list \<Rightarrow> int list) \<Rightarrow> EndpointStats \<Rightarrow> string" where
  "endpoint_row ordS ep =
     (let path = epPathTemplate ep; shown = (if 50 < length path then take 47 path @ ''...'' else path) in
      pad_right 8 (epMethod ep) @ '' '' @ pad_right 50 shown @ '' '' @ pad_right 8 (dec_int (epCount ep)) @ '' ''
      @ pad_right 12 (if epAuthSeen ep then epAuthType ep else ''none'') @ '' '' @ status_text ordS ep @ nl)"

definition unauth_line :: "EndpointStats \<Rightarrow> string" where
  "unauth_line ep = ''  '' @ [CHR 0xE2, CHR 0x9A, CHR 0xA0] @ '' Unauthenticated endpoint: '' @ epMethod ep @ '' '' @ epPathTemplate ep @ nl"

definition formatAPIMap ::
  "(gotime \<Rightarrow> int) \<Rightarrow> (string list \<Rightarrow> string list) \<Rightarrow> (string list \<Rightarrow> string list) \<Rightarrow> (int list \<Rightarrow> int list) \<Rightarrow> APIMap \<Rightarrow> string" where
  "formatAPIMap zone ord1 ord2 ordS m =
     ''[SSL Intercept: PID '' @ pid_str (amPID m) @ '' ('' @ amComm m @ '')] Duration: ''
     @ Duration_String (Duration_Round (amDuration m) millisecond) @ '', Captured at: '' @ fmt_clock zone (amCaptureAt m) @ nl
     @ ''Endpoints discovered: '' @ dec (length (amEndpoints m)) @ nl @ nl
     @ (if amEndpoints m = [] then
          ''No HTTP/1.1 traffic observed. The process may:'' @ nl
          @ ''  - Use a library not attached (e.g. embedded BoringSSL)'' @ nl
          @ ''  - Not have made any requests during the capture window'' @ nl
          @ ''  - Use HTTP/2 (not yet supported '' @ [CHR 0xE2, CHR 0x80, CHR 0x94] @ '' only HTTP/1.1 reconstructed)'' @ nl
        else
          (let unauth = filter (\<lambda>ep. \<not> epAuthSeen ep) (map snd (go_range ord2 (amEndpoints m))) in
           pad_right 8 ''METHOD'' @ '' '' @ pad_right 50 ''PATH TEMPLATE'' @ '' '' @ pad_right 8 ''CALLS'' @ '' ''
           @ pad_right 12 ''AUTH'' @ '' STATUS CODES'' @ nl @ concat (replicate 90 box_h) @ nl
           @ concat (map (endpoint_row ordS) (map snd (go_range ord1 (amEndpoints m))))
           @ nl @ ''Security signals:'' @ nl @ concat (map unauth_line unauth)
           @ (if unauth = [] then ''  '' @ [CHR 0xE2, CHR 0x9C, CHR 0x93] @ '' All observed endpoints used authentication'' @ nl else [])))"

text \<open>Clock readings: 0 for the map, 1 for the deadline, 2 at the end. The error of \<^verbatim>\<open>AttachPID\<close> is dropped.\<close>

definition SSLIntercept ::
  "http_parser \<Rightarrow> (gotime \<Rightarrow> int) \<Rightarrow> (nat \<Rightarrow> gotime) \<Rightarrow> (ssl_step \<Rightarrow> string option) \<Rightarrow> turn list
   \<Rightarrow> (string list \<Rightarrow> string list) \<Rightarrow> (string list \<Rightarrow> string list) \<Rightarrow> (int list \<Rightarrow> int list)
   \<Rightarrow> FrozenSnapshot \<Rightarrow> u32 \<Rightarrow> int \<Rightarrow> string + string" where
  "SSLIntercept hp zone now fails turns ord1 ord2 ordS snap pid dur =
     (let secs = (if dur \<le> 0 then 10 else if 120 < dur then 120 else dur) in
      case snap_lookup snap pid of
        None \<Rightarrow> Inl (''PID '' @ pid_str pid @ '' not found in snapshot'')
      | Some p \<Rightarrow>
          (case fst (ssl_New fails) of
             Some e \<Rightarrow> Inl (''create SSL observer: '' @ e)
           | None \<Rightarrow>
               (let (_, m) = intercept_loop hp pid (now 1 + secs * second) turns ([], newAPIMap (now 0) pid (Comm p))
                in Inr (formatAPIMap zone ord1 ord2 ordS (m\<lparr>amDuration := timeSub (now 2) (amCaptureAt m)\<rparr>)))))"

section \<open>Requests are counted\<close>

definition writes_of :: "u32 \<Rightarrow> turn list \<Rightarrow> string list" where
  "writes_of pid tns = List.map_filter
     (\<lambda>tn. case tnWhat tn of
        TlsEvent e \<Rightarrow> if pePid e = pid \<and> peDirection e = DirWrite then Some (peBytes e) else None
      | _ \<Rightarrow> None) tns"

text \<open>
  The turns that the loop takes: those before the deadline, until the context is cancelled or the channel of
  events closed.
\<close>

definition taken :: "gotime \<Rightarrow> turn list \<Rightarrow> turn list" where
  "taken deadline tns = takeWhile (\<lambda>tn. tnHead tn < deadline \<and> (\<exists>e. tnWhat tn = TlsEvent e)) tns"

text \<open>
  The writes that carry one request: the parser accepts their bytes together, and nothing that it is given
  before; what waits in the buffer stays below the bound. The writes of an unfinished request are never accepted.
\<close>

definition pending :: "http_parser \<Rightarrow> string list \<Rightarrow> bool" where
  "pending hp ws \<longleftrightarrow> (let bs = concat ws in length bs \<le> 65536 \<and> (bs = [] \<or> hpRequest hp bs = None))"

definition unfinished :: "http_parser \<Rightarrow> string list \<Rightarrow> bool" where
  "unfinished hp ws \<longleftrightarrow> list_all (\<lambda>i. pending hp (take i ws)) [0..<Suc (length ws)]"

definition carries :: "http_parser \<Rightarrow> string list \<Rightarrow> http_request \<Rightarrow> bool" where
  "carries hp ws r \<longleftrightarrow>
     ws \<noteq> [] \<and> unfinished hp (butlast ws) \<and> concat ws \<noteq> [] \<and> hpRequest hp (concat ws) = Some r"

text \<open>The requests that the parser meets in the writes of a process, with the bytes it holds before them.\<close>

fun arrivals :: "http_parser \<Rightarrow> string \<Rightarrow> string list \<Rightarrow> http_request list" where
  "arrivals hp acc [] = []"
| "arrivals hp acc (w # ws) =
     (if acc @ w = [] then arrivals hp [] ws
      else case hpRequest hp (acc @ w) of
             None \<Rightarrow> arrivals hp (shorten (acc @ w)) ws
           | Some r \<Rightarrow> r # arrivals hp [] ws)"

lemma unfinishedD: "unfinished hp ws \<Longrightarrow> i \<le> length ws \<Longrightarrow> pending hp (take i ws)"
  by (auto simp: unfinished_def list_all_iff)

lemma arrivals_kept:
  "length (acc @ w) \<le> 65536 \<Longrightarrow> acc @ w = [] \<or> hpRequest hp (acc @ w) = None \<Longrightarrow>
    arrivals hp acc (w # ws) = arrivals hp (acc @ w) ws"
  by (auto simp: shorten_def)

lemma arrivals_pending:
  assumes "pending hp (pre @ [w])"
  shows "arrivals hp (concat pre) (w # ws) = arrivals hp (concat (pre @ [w])) ws"
proof -
  have c: "concat (pre @ [w]) = concat pre @ w" by simp
  show ?thesis using assms unfolding pending_def Let_def c by (intro arrivals_kept) auto
qed

lemma arrivals_unfinished:
  assumes "unfinished hp (pre @ ws)"
  shows "arrivals hp (concat pre) (ws @ rest) = arrivals hp (concat (pre @ ws)) rest"
  using assms
proof (induction ws arbitrary: pre)
  case (Cons w ws)
  have "pending hp (pre @ [w])"
    using unfinishedD [OF Cons.prems, of "Suc (length pre)"] by simp
  from arrivals_pending [OF this, of "ws @ rest"] show ?case
    using Cons.IH [of "pre @ [w]"] Cons.prems by (simp del: arrivals.simps)
qed simp

lemma arrivals_carries:
  assumes "carries hp ws r"
  shows "arrivals hp [] (ws @ rest) = r # arrivals hp [] rest"
proof -
  obtain w ws' where w: "ws = ws' @ [w]" using assms by (cases ws rule: rev_cases) (auto simp: carries_def)
  with assms have u: "unfinished hp ([] @ ws')" by (simp add: carries_def)
  have "arrivals hp [] (ws @ rest) = arrivals hp (concat ws') (w # rest)"
    using arrivals_unfinished [OF u, of "w # rest"] by (simp add: w del: arrivals.simps)
  with assms w show ?thesis by (auto simp: carries_def)
qed

lemma arrivals_groups:
  assumes "list_all2 (carries hp) groups reqs" and "unfinished hp rest"
  shows "arrivals hp [] (concat groups @ rest) = reqs"
  using assms(1)
proof (induction rule: list_all2_induct)
  case Nil
  show ?case using arrivals_unfinished [of hp "[]" rest "[]"] assms(2) by simp
next
  case (Cons ws groups r reqs)
  then show ?case by (simp add: arrivals_carries)
qed

text \<open>What the endpoints say of the requests so far.\<close>

definition endpoint_counts :: "http_request list \<Rightarrow> string \<Rightarrow> EndpointStats option \<Rightarrow> bool" where
  "endpoint_counts reqs k entry \<longleftrightarrow>
     (case entry of
        None \<Rightarrow> k \<notin> endpoint_key ` set reqs
      | Some ep \<Rightarrow>
          k \<in> endpoint_key ` set reqs \<and> epCount ep = int (count_list (map endpoint_key reqs) k)
          \<and> epAuthSeen ep = (\<exists>r \<in> set reqs. endpoint_key r = k \<and> fst (detectAuth r)))"

definition counted :: "http_request list \<Rightarrow> APIMap \<Rightarrow> bool" where
  "counted reqs m \<longleftrightarrow> (\<forall>k. endpoint_counts reqs k (map_of (amEndpoints m) k))"

lemma counted_request:
  assumes "counted reqs m"
  shows "counted (reqs @ [r]) (count_request now r m)"
  unfolding counted_def
proof
  fix k
  have k: "endpoint_counts reqs k (map_of (amEndpoints m) k)" using assms by (simp add: counted_def)
  obtain has kind where auth: "detectAuth r = (has, kind)" by (cases "detectAuth r")
  show "endpoint_counts (reqs @ [r]) k (map_of (amEndpoints (count_request now r m)) k)"
  proof (cases "k = endpoint_key r")
    case True
    with k auth show ?thesis
      by (cases "map_of (amEndpoints m) k")
        (auto simp: endpoint_counts_def count_request_def new_endpoint_def Let_def count_list_0_iff image_iff)
  next
    case False
    with k auth show ?thesis
      by (auto simp: endpoint_counts_def count_request_def Let_def split: option.splits)
  qed
qed

lemma go_range_known: "(k, v) \<in> set (go_range ord m) \<Longrightarrow> map_of m k = Some v"
  by (auto simp: go_range_def List.map_filter_def)

lemma counted_status:
  assumes "counted reqs m"
  shows "counted reqs (count_status ord status m)"
proof (cases "go_range ord (amEndpoints m)")
  case (Cons x xs)
  obtain key ep where x: "x = (key, ep)" by (cases x)
  then have "map_of (amEndpoints m) key = Some ep" using go_range_known [of key ep ord] Cons by auto
  moreover have all: "endpoint_counts reqs k (map_of (amEndpoints m) k)" for k using assms by (simp add: counted_def)
  ultimately have "endpoint_counts reqs key (Some ep)" by (metis all)
  then have "endpoint_counts reqs key (Some (ep\<lparr>epStatusCodes := cs\<rparr>))" for cs by (simp add: endpoint_counts_def)
  with all show ?thesis unfolding counted_def by (simp add: count_status_def Cons x Let_def)
qed (simp add: count_status_def assms)

lemma buffer_of_put [simp]: "buffer_of (go_put pid buf bufs) pid = buf"
  by (simp add: buffer_of_def)

lemma writes_of_Cons:
  "tnWhat tn = TlsEvent e \<Longrightarrow> writes_of pid (tn # tns) =
     (if pePid e = pid \<and> peDirection e = DirWrite then [peBytes e] else []) @ writes_of pid tns"
  by (simp add: writes_of_def map_filter_simps)

lemma request_taken:
  assumes "pePid e = pid" and "peDirection e = DirWrite" and "counted reqs m"
    and "take_event hp tn e (bufs, m) = (bufs', m')"
  shows "\<exists>new. counted (reqs @ new) m' \<and>
    (\<forall>ws. arrivals hp (writeBuf (buffer_of bufs pid)) (peBytes e # ws) = new @ arrivals hp (writeBuf (buffer_of bufs' pid)) ws)"
proof (cases "hpRequest hp (writeBuf (buffer_of bufs pid) @ peBytes e)")
  case None
  then show ?thesis using assms
    by (intro exI [of _ "[]"]) (auto simp: take_event_def tryParseRequest_def Let_def split: if_splits)
next
  case (Some r)
  then show ?thesis using assms counted_request [OF assms(3)]
    by (cases "writeBuf (buffer_of bufs pid) @ peBytes e = []")
      (auto simp: take_event_def tryParseRequest_def Let_def intro: exI [of _ "[]"] exI [of _ "[r]"])
qed

lemma response_taken:
  assumes "pePid e = pid" and "peDirection e \<noteq> DirWrite" and "counted reqs m"
    and "take_event hp tn e (bufs, m) = (bufs', m')"
  shows "counted reqs m' \<and> writeBuf (buffer_of bufs' pid) = writeBuf (buffer_of bufs pid)"
  using assms counted_status [OF assms(3)]
  by (auto simp: take_event_def tryParseResponse_def Let_def split: if_splits option.splits)

lemma intercept_counted:
  assumes "counted reqs m"
  shows "counted (reqs @ arrivals hp (writeBuf (buffer_of bufs pid)) (writes_of pid (taken deadline tns)))
    (snd (intercept_loop hp pid deadline tns (bufs, m)))"
  using assms
proof (induction tns arbitrary: reqs m bufs)
  case Nil
  then show ?case by (simp add: writes_of_def taken_def map_filter_simps)
next
  case (Cons tn tns)
  consider (stop) "\<not> (tnHead tn < deadline \<and> (\<exists>e. tnWhat tn = TlsEvent e))"
    | (event) e where "tnHead tn < deadline" "tnWhat tn = TlsEvent e" by blast
  then show ?case
  proof cases
    case stop
    then have "intercept_loop hp pid deadline (tn # tns) (bufs, m) = (bufs, m)" by (auto split: selected.splits)
    moreover from stop have "taken deadline (tn # tns) = []" unfolding taken_def by (rule takeWhile.simps(2) [THEN trans, OF if_not_P])
    ultimately show ?thesis using Cons.prems by (simp add: writes_of_def map_filter_simps)
  next
    case event
    then have t: "taken deadline (tn # tns) = tn # taken deadline tns" by (simp add: taken_def)
    obtain bufs' m' where step: "take_event hp tn e (bufs, m) = (bufs', m')" by (metis prod.exhaust)
    consider (other) "pePid e \<noteq> pid" | (request) "pePid e = pid" "peDirection e = DirWrite"
      | (response) "pePid e = pid" "peDirection e \<noteq> DirWrite" by blast
    then show ?thesis
    proof cases
      case other
      with event t Cons.IH [OF Cons.prems] show ?thesis by (simp add: writes_of_Cons)
    next
      case request
      from request_taken [OF this Cons.prems step] obtain new where c: "counted (reqs @ new) m'"
        and new: "arrivals hp (writeBuf (buffer_of bufs pid)) (peBytes e # ws) =
          new @ arrivals hp (writeBuf (buffer_of bufs' pid)) ws" for ws by blast
      from Cons.IH [OF c, of bufs'] request event t step show ?thesis
        by (simp add: writes_of_Cons new del: arrivals.simps)
    next
      case response
      from response_taken [OF this Cons.prems step] Cons.IH [of reqs m' bufs'] response event t step
      show ?thesis by (simp add: writes_of_Cons)
    qed
  qed
qed


definition get_request :: http_request where
  "get_request = \<lparr>hrMethod = ''GET'', hrPath = ''/'', hrHeader = \<lambda>_. []\<rparr>"

definition line_get :: http_parser where
  "line_get = \<lparr>hpRequest = \<lambda>bs. if HasSuffix bs [CHR 10, CHR 10] then Some get_request else None, hpResponse = \<lambda>_. None\<rparr>"

definition write_turn :: "gotime \<Rightarrow> string \<Rightarrow> turn" where
  "write_turn clk bs = \<lparr>tnHead = clk, tnWhat = TlsEvent \<lparr>peTimestamp = 0, pePid = 7, peCommand = ''curl'', peDirection = DirWrite,
     peBytes = bs\<rparr>, tnNow = clk, tnOrd = id\<rparr>"

text \<open>A request in one write, one in two writes, one that the deadline cuts off, and one after the deadline.\<close>

definition sample_turns :: "turn list" where
  "sample_turns = [write_turn 1 [CHR ''G'', CHR 10, CHR 10], write_turn 2 ''GE'', write_turn 3 [CHR ''T'', CHR 10, CHR 10],
     write_turn 4 ''GET'', write_turn 9 [CHR 10, CHR 10]]"


section \<open>Numeric segments\<close>

definition digit_word :: "string \<Rightarrow> bool" where
  "digit_word d \<longleftrightarrow> d \<noteq> [] \<and> list_all (is_digit 10) d"

definition path_of :: "string list \<Rightarrow> string" where
  "path_of ws = concat (map (\<lambda>w. CHR ''/'' # w) ws)"

fun alternate :: "string list \<Rightarrow> string list" where
  "alternate (d # d' # ds) = ''{id}'' # d' # alternate ds"
| "alternate [d] = [''{id}'']"
| "alternate [] = []"

lemma digit_byte: "is_digit 10 c \<Longrightarrow> is_ascii c \<and> c \<noteq> CHR ''/''"
  by (auto simp: is_digit_def digit_val_def is_ascii_def Let_def split: if_splits)

lemma star_digits:
  assumes "s = [] \<or> hd s = CHR ''/''"
  shows "list_all (is_digit 10) u \<Longrightarrow> length u \<le> n \<Longrightarrow>
    \<exists>xs. star_ends (ends (Chr (is_digit 10))) n (b, u @ s) = (rev u @ b, s) # xs"
proof (induction u arbitrary: b n)
  case Nil
  have "ends (Chr (is_digit 10)) (b, s) = []"
    using assms digit_byte by (cases s) auto
  then show ?case by (cases n) simp_all
next
  case (Cons c u)
  obtain n' where n: "n = Suc n'" using Cons.prems(2) by (cases n) auto
  have step: "ends (Chr (is_digit 10)) (b, (c # u) @ s) = [(c # b, u @ s)]"
    using Cons.prems(1) digit_byte [of c] by (simp add: advance_def)
  obtain xs where "star_ends (ends (Chr (is_digit 10))) n' (c # b, u @ s) = (rev u @ c # b, s) # xs"
    using Cons.IH [of n' "c # b"] Cons.prems n by (auto simp del: ends.simps)
  then show ?case unfolding n star_ends.simps step by (simp del: ends.simps)
qed

lemma ends_numeric:
  assumes "digit_word d" and "s = [] \<or> hd s = CHR ''/''"
  shows "\<exists>xs. ends reNumeric (b, CHR ''/'' # d @ s) = (rev (take 1 s) @ rev d @ CHR ''/'' # b, drop 1 s) # xs"
proof -
  obtain c u where d: "d = c # u" "is_digit 10 c" "list_all (is_digit 10) u"
    using assms(1) by (cases d) (auto simp: digit_word_def)
  obtain xs where xs: "star_ends (ends (Chr (is_digit 10))) (length (u @ s)) (c # CHR ''/'' # b, u @ s)
      = (rev u @ c # CHR ''/'' # b, s) # xs"
    using star_digits [OF assms(2) d(3), of "length (u @ s)" "c # CHR ''/'' # b"] by auto
  have slash: "ends (re_lit ''/'') (b', t) = (if HasPrefix t ''/'' then [(CHR ''/'' # b', drop 1 t)] else [])" for b' t
    by (simp add: ends_lit is_ascii_def)
  have last: "ends (Cat (Alt (re_lit ''/'') AtEnd) Eps) (b', s) = [(rev (take 1 s) @ b', drop 1 s)]" for b'
    using assms(2) by (cases s) (auto simp: slash HasPrefix_def)
  have plus: "ends (re_plus (Chr (is_digit 10))) (CHR ''/'' # b, d @ s) = (rev u @ c # CHR ''/'' # b, s) # xs"
    using xs d digit_byte [of c] by (simp add: re_plus_def advance_def)
  have "ends reNumeric (b, CHR ''/'' # d @ s) =
      concat (map (ends (Cat (Alt (re_lit ''/'') AtEnd) Eps)) (ends (re_plus (Chr (is_digit 10))) (CHR ''/'' # b, d @ s)))"
    by (simp add: reNumeric_def re_seq_def slash HasPrefix_def del: ends.simps(1,2,3,5,6,7,8,9))
  then show ?thesis unfolding plus by (simp add: last d(1) del: ends.simps)
qed

lemma ends_numeric_other: "c \<noteq> CHR ''/'' \<Longrightarrow> ends reNumeric (b, c # s) = []"
  by (simp add: reNumeric_def re_seq_def re_lit_def)

lemma find_numeric_skip:
  "CHR ''/'' \<notin> set g \<Longrightarrow> find_from reNumeric b (g @ s) = find_from reNumeric (rev g @ b) s"
  by (induction g arbitrary: b) (auto simp: ends_numeric_other)

lemma find_numeric_hit:
  assumes "digit_word d" and "s = [] \<or> hd s = CHR ''/''" and "CHR ''/'' \<notin> set g"
  shows "find_from reNumeric b (g @ CHR ''/'' # d @ s) =
    Some ((rev g @ b, CHR ''/'' # d @ s), (rev (take 1 s) @ rev d @ CHR ''/'' # rev g @ b, drop 1 s))"
  using ends_numeric [OF assms(1,2), of "rev g @ b"] by (auto simp: find_numeric_skip [OF assms(3)])

definition replaced_from :: "string \<Rightarrow> string \<Rightarrow> string" where
  "replaced_from b s = (let (ms, rest) = find_all reNumeric b s in
     concat (map (\<lambda>(gap, m). gap @ (if HasSuffix m ''/'' then ''/{id}/'' else ''/{id}'')) ms) @ rest)"

lemma replaced_none: "CHR ''/'' \<notin> set g \<Longrightarrow> replaced_from b g = g"
proof -
  assume g: "CHR ''/'' \<notin> set g"
  have "ends reNumeric (b', []) = []" for b'
    by (simp add: reNumeric_def re_seq_def re_lit_def)
  then have "find_from reNumeric b g = None"
    using find_numeric_skip [OF g, of b "[]"] by simp
  then show ?thesis by (simp add: replaced_from_def find_all.simps)
qed

lemma replaced_hit:
  assumes "digit_word d" and "s = [] \<or> hd s = CHR ''/''" and "CHR ''/'' \<notin> set g"
  shows "\<exists>b'. replaced_from b (g @ CHR ''/'' # d @ s) = g @ ''/{id}'' @ take 1 s @ replaced_from b' (drop 1 s)"
proof -
  let ?t = "g @ CHR ''/'' # d @ s" and ?b = "rev (take 1 s) @ rev d @ CHR ''/'' # rev g @ b"
  have d: "d \<noteq> []" "is_digit 10 (last d)" using assms(1) by (auto simp: digit_word_def list_all_iff)
  have m: "take (length (CHR ''/'' # d @ s) - length (drop 1 s)) (CHR ''/'' # d @ s) = CHR ''/'' # d @ take 1 s"
    by (cases s) auto
  have ends: "HasSuffix (CHR ''/'' # d @ take 1 s) ''/'' \<longleftrightarrow> s \<noteq> []"
  proof (cases s)
    case Nil
    obtain e x where "d = e @ [x]" "is_digit 10 x" using d by (cases d rule: rev_cases) auto
    with Nil digit_byte [of x] show ?thesis by (auto simp: HasSuffix_def)
  next
    case (Cons a list)
    with assms(2) show ?thesis by (simp add: HasSuffix_def)
  qed
  have "find_all reNumeric b ?t =
      (let (ms, rest) = find_all reNumeric ?b (drop 1 s) in ((g, CHR ''/'' # d @ take 1 s) # ms, rest))"
    using m by (subst find_all.simps) (simp add: find_numeric_hit [OF assms] split: prod.splits)
  then have "replaced_from b ?t = g @ ''/{id}'' @ take 1 s @ replaced_from ?b (drop 1 s)"
    using ends assms(2) by (cases s) (auto simp: replaced_from_def Let_def split: prod.splits)
  then show ?thesis by blast
qed

lemma replaced_path:
  "\<forall>d \<in> set ds. digit_word d \<Longrightarrow> CHR ''/'' \<notin> set g \<Longrightarrow>
   replaced_from b (g @ path_of ds) = g @ path_of (alternate ds)"
proof (induction ds arbitrary: g b rule: alternate.induct)
  case (1 d d' ds)
  let ?s = "CHR ''/'' # d' @ path_of ds"
  obtain b' where hit: "replaced_from b (g @ CHR ''/'' # d @ ?s) = g @ ''/{id}'' @ take 1 ?s @ replaced_from b' (drop 1 ?s)"
    using replaced_hit [of d ?s g b] 1 by auto
  have "CHR ''/'' \<notin> set d'"
    using "1.prems"(1) digit_byte [of "CHR ''/''"] by (auto simp: digit_word_def list_all_iff)
  with 1 have "replaced_from b' (d' @ path_of ds) = d' @ path_of (alternate ds)" by simp
  with hit show ?case by (simp add: path_of_def)
next
  case (2 d)
  obtain b' where "replaced_from b (g @ CHR ''/'' # d @ []) = g @ ''/{id}'' @ replaced_from b' []"
    using replaced_hit [of d "[]" g b] 2 by auto
  with replaced_none [of "[]" b'] show ?case by (simp add: path_of_def)
next
  case 3
  then show ?case by (simp add: path_of_def replaced_none)
qed

text \<open>
  The pass that replaces numeric segments of a path consumes the slash that the next segment would
  need for its own match, so of adjacent numeric segments only every other one is replaced:
  \<^verbatim>\<open>/users/1/2\<close> and \<^verbatim>\<open>/users/1/3\<close> are counted as different endpoints.
\<close>

theorem adjacent_numbers_kept:
  assumes "\<forall>d \<in> set ds. digit_word d" and "CHR ''/'' \<notin> set g"
  shows "replace_numbers (g @ path_of ds) = g @ path_of (alternate ds)"
  using replaced_path [OF assms, of "[]"]
  by (simp add: replace_numbers_def ReplaceAllFunc_def replaced_from_def)

lemma adjacent_numbers_kept_witness: "replace_numbers ''/1/2/3'' = ''/{id}/2/{id}''"
  using adjacent_numbers_kept [of "[''1'', ''2'', ''3'']" "[]"]
  by (simp add: digit_word_def is_digit_def digit_val_def path_of_def)

section \<open>Statuses\<close>

text \<open>
  A response is counted for whichever endpoint the range happens to deliver: for each endpoint known there
  is an order in which it gets the status, whatever was requested last.
\<close>

lemma status_goes_anywhere:
  assumes "wf_map (amEndpoints m)" and "map_of (amEndpoints m) k = Some ep"
  shows "\<exists>ord. is_order ord \<and> map_of (amEndpoints (count_status ord status m)) k
    = Some (ep\<lparr>epStatusCodes := go_put status
        ((case map_of (epStatusCodes ep) status of None \<Rightarrow> 0 | Some n \<Rightarrow> n) + 1) (epStatusCodes ep)\<rparr>)"
proof -
  define ord where "ord ks = (if k \<in> set ks then k # remove1 k ks else ks)" for ks :: "string list"
  have order: "is_order ord" by (simp add: is_order_def ord_def)
  have "k \<in> set (go_keys (amEndpoints m))" using assms(2) by (metis image_set map_of_eq_None_iff option.distinct(1))
  then obtain rest where "go_range ord (amEndpoints m) = (k, ep) # rest"
    using assms(2) by (simp add: go_range_def ord_def map_filter_simps)
  then have "map_of (amEndpoints (count_status ord status m)) k
    = Some (ep\<lparr>epStatusCodes := go_put status
        ((case map_of (epStatusCodes ep) status of None \<Rightarrow> 0 | Some n \<Rightarrow> n) + 1) (epStatusCodes ep)\<rparr>)"
    by (simp add: count_status_def Let_def)
  with order show ?thesis by blast
qed

section \<open>Buffers stay small\<close>

definition small_buffer :: "streamBuffer \<Rightarrow> bool" where
  "small_buffer buf \<longleftrightarrow> length (readBuf buf) \<le> 65536 \<and> length (writeBuf buf) \<le> 65536"

lemma length_shorten: "length (shorten buf) \<le> 65536"
  by (simp add: shorten_def)

lemma parse_small:
  assumes "small_buffer buf"
  shows "small_buffer (fst (tryParseRequest hp now (buf\<lparr>writeBuf := w\<rparr>) m))"
    and "small_buffer (fst (tryParseResponse hp ord (buf\<lparr>readBuf := w\<rparr>) m))"
  using assms length_shorten [of w]
  by (auto simp: small_buffer_def tryParseRequest_def tryParseResponse_def split: option.split)

lemma intercept_buffers_small:
  "small_buffer (buffer_of (fst st) p) \<Longrightarrow> small_buffer (buffer_of (fst (intercept_loop hp pid deadline tns st)) p)"
proof (induction tns arbitrary: st)
  case (Cons tn tns)
  obtain bufs m where st: "st = (bufs, m)" by (cases st)
  have put: "buffer_of (go_put q buf bufs) p = (if p = q then buf else buffer_of bufs p)" for q buf
    by (simp add: buffer_of_def)
  have "small_buffer (buffer_of (fst (take_event hp tn e st)) p)" for e
    using Cons.prems parse_small [of "buffer_of bufs p"]
    by (auto simp: take_event_def st Let_def put split: prod.split) (metis fst_conv)+
  with Cons show ?case by (simp split: selected.split)
qed simp

end
