(* ===== verification/Family.thy ===== *)
theory Family
  imports HeapScan
begin

text \<open>
  The lineage of a process (\<^verbatim>\<open>ProcessFamily\<close> and \<^verbatim>\<open>ProcessFamilyJSON\<close> in \<^verbatim>\<open>context/query.go\<close>). Both
  collect the children of every process of the snapshot, climb from the target to its oldest known
  ancestor, and list the descendants of that ancestor. Processes the snapshot lacks are read from
  \<^verbatim>\<open>/proc\<close> and remembered. Neither the climb nor the descent is bounded in the code: \<open>None\<close> is a
  climb that never ends or a recursion that overflows the stack.
\<close>

section \<open>Looking up processes\<close>

record family_state =
  untracked :: "(u32, ProcessNode) gomap"
  childrenMap :: "(u32, u32 list) gomap"

definition children_of :: "family_state \<Rightarrow> u32 \<Rightarrow> u32 list" where
  "children_of st pid = (case map_of (childrenMap st) pid of None \<Rightarrow> [] | Some cs \<Rightarrow> cs)"

definition add_child :: "u32 \<Rightarrow> u32 \<Rightarrow> family_state \<Rightarrow> family_state" where
  "add_child ppid pid st = st\<lparr>childrenMap := go_put ppid (children_of st ppid @ [pid]) (childrenMap st)\<rparr>"

text \<open>The first line that begins with \<^verbatim>\<open>PPid:\<close> ends the search, whatever it holds.\<close>

definition status_ppid :: "string \<Rightarrow> u32" where
  "status_ppid status =
     (case find (\<lambda>line. HasPrefix line ''PPid:'') (Lines status) of
        None \<Rightarrow> 0
      | Some line \<Rightarrow>
          (let flds = Fields line in
           if length flds = 2 then of_nat (ScanUint 10 32 (flds ! 1)) else 0))"

text \<open>What \<^verbatim>\<open>/proc\<close> says of a process: the node that \<^verbatim>\<open>readUntracked\<close> builds from it.\<close>

definition proc_node :: "host \<Rightarrow> u32 \<Rightarrow> ProcessNode option" where
  "proc_node h pid =
     (case hReadFile h (proc_file pid ''comm'') of
        Inl _ \<Rightarrow> None
      | Inr comm \<Rightarrow>
          (let ppid = (case hReadFile h (proc_file pid ''status'') of Inl _ \<Rightarrow> 0 | Inr status \<Rightarrow> status_ppid status)
           in Some ((newNode pid [] (TrimSpace comm @ '' [UNTRACKED]'') zeroTime)\<lparr>PPID := ppid\<rparr>)))"

definition readUntracked :: "host \<Rightarrow> u32 \<Rightarrow> family_state \<Rightarrow> ProcessNode option \<times> family_state" where
  "readUntracked h pid st =
     (case map_of (untracked st) pid of
        Some p \<Rightarrow> (Some p, st)
      | None \<Rightarrow>
          (case proc_node h pid of
             None \<Rightarrow> (None, st)
           | Some node \<Rightarrow>
               (Some node, add_child (PPID node) pid (st\<lparr>untracked := go_put pid node (untracked st)\<rparr>))))"

definition getNode :: "FrozenSnapshot \<Rightarrow> family_state \<Rightarrow> u32 \<Rightarrow> ProcessNode option" where
  "getNode snap st pid =
     (case map_of (FByPID snap) pid of
        Some p \<Rightarrow> Some p
      | None \<Rightarrow>
          (case map_of (FGhosts snap) pid of
             Some p \<Rightarrow> Some p
           | None \<Rightarrow> map_of (untracked st) pid))"

definition find_node :: "host \<Rightarrow> FrozenSnapshot \<Rightarrow> u32 \<Rightarrow> family_state \<Rightarrow> ProcessNode option \<times> family_state" where
  "find_node h snap pid st =
     (case getNode snap st pid of Some p \<Rightarrow> (Some p, st) | None \<Rightarrow> readUntracked h pid st)"

section \<open>The climb and the children\<close>

partial_function (option) family_root ::
  "host \<Rightarrow> FrozenSnapshot \<Rightarrow> ProcessNode \<Rightarrow> u32 list \<Rightarrow> family_state \<Rightarrow>
   (ProcessNode \<times> u32 list \<times> family_state) option" where
  "family_root h snap cur chain st =
     (if PPID cur = 0 \<or> PPID cur = 1 \<or> PPID cur = 2 then Some (cur, chain, st)
      else case find_node h snap (PPID cur) st of
             (None, st') \<Rightarrow> Some (cur, chain, st')
           | (Some parent, st') \<Rightarrow> family_root h snap parent (List.insert (PID parent) chain) st')"

definition add_snapshot_children :: "FrozenSnapshot \<Rightarrow> family_state \<Rightarrow> family_state" where
  "add_snapshot_children snap st =
     foldl (\<lambda>s (pid, p). add_child (PPID p) pid s) st (FByPID snap @ FGhosts snap)"

definition resolve_child :: "host \<Rightarrow> FrozenSnapshot \<Rightarrow> family_state \<Rightarrow> u32 \<Rightarrow> family_state" where
  "resolve_child h snap st cpid =
     (case getNode snap st cpid of Some _ \<Rightarrow> st | None \<Rightarrow> snd (readUntracked h cpid st))"

definition resolveChildren :: "host \<Rightarrow> FrozenSnapshot \<Rightarrow> family_state \<Rightarrow> u32 \<Rightarrow> family_state" where
  "resolveChildren h snap st pid =
     (case hReadFile h (proc_file pid (''task/'' @ pid_str pid @ ''/children'')) of
        Inl _ \<Rightarrow> st
      | Inr txt \<Rightarrow> foldl (resolve_child h snap) st (map (\<lambda>w. of_nat (ScanUint 10 32 w)) (Fields txt)))"

definition sorted_children :: "family_state \<Rightarrow> u32 \<Rightarrow> u32 list" where
  "sorted_children st pid = sort_slice (less_by id) (children_of st pid)"

text \<open>Target, root, chain and tables: the part that the two views share.\<close>

record family_view =
  fvTarget :: ProcessNode
  fvRoot :: ProcessNode
  fvChain :: "u32 list"
  fvState :: family_state

definition find_lineage ::
  "host \<Rightarrow> FrozenSnapshot \<Rightarrow> u32 \<Rightarrow> (string + family_view) option" where
  "find_lineage h snap pid =
     (case find_node h snap pid \<lparr>untracked = [], childrenMap = []\<rparr> of
        (None, _) \<Rightarrow> Some (Inl [])
      | (Some target, st0) \<Rightarrow>
          map_option (\<lambda>(anc, chain, st). Inr \<lparr>fvTarget = target, fvRoot = anc, fvChain = chain, fvState = st\<rparr>)
            (family_root h snap target [PID target] (add_snapshot_children snap st0)))"

section \<open>The text view\<close>

definition shown_children :: "FrozenSnapshot \<Rightarrow> family_view \<Rightarrow> bool \<Rightarrow> ProcessNode \<Rightarrow> ProcessNode list" where
  "shown_children snap v inSubtree node =
     List.map_filter
       (\<lambda>cpid. case getNode snap (fvState v) cpid of
          None \<Rightarrow> None
        | Some child \<Rightarrow>
            if (cpid \<in> set (fvChain v) \<or> PID node = PPID (fvTarget v) \<or> inSubtree \<or> PID node = PID (fvTarget v))
               \<and> cpid \<noteq> PID node
            then Some child else None)
       (sorted_children (fvState v) (PID node))"

definition family_name :: "family_view \<Rightarrow> ProcessNode \<Rightarrow> string" where
  "family_name v node = Comm node @ (if PID node = PID (fvTarget v) then '' [TARGET]'' else [])"

partial_function (option) printTree ::
  "FrozenSnapshot \<Rightarrow> family_view \<Rightarrow> string \<Rightarrow> bool \<Rightarrow> ProcessNode list \<Rightarrow> string option" where
  "printTree snap v prefix inSubtree nodes =
     (case nodes of
        [] \<Rightarrow> Some []
      | node # rest \<Rightarrow>
          Option.bind
            (printTree snap v (prefix @ (if rest = [] then ''     '' else box_v @ ''    ''))
               (inSubtree \<or> PID node = PID (fvTarget v)) (shown_children snap v inSubtree node))
            (\<lambda>below. Option.bind (printTree snap v prefix inSubtree rest)
            (\<lambda>after. Some (prefix @ (if rest = [] then box_corner else box_tee) @ '' '' @ family_name v node
                @ '' ('' @ pid_str (PID node) @ '')'' @ nl @ below @ after))))"

definition resolve_chain ::
  "host \<Rightarrow> (u32 list \<Rightarrow> u32 list) \<Rightarrow> FrozenSnapshot \<Rightarrow> family_view \<Rightarrow> family_view" where
  "resolve_chain h ord snap v =
     v\<lparr>fvState := foldl (resolveChildren h snap) (fvState v) (ord (fvChain v))\<rparr>"

definition ProcessFamily ::
  "host \<Rightarrow> (u32 list \<Rightarrow> u32 list) \<Rightarrow> FrozenSnapshot \<Rightarrow> u32 \<Rightarrow> string option" where
  "ProcessFamily h ord snap pid =
     Option.bind (find_lineage h snap pid)
       (\<lambda>r. case r of
          Inl _ \<Rightarrow> Some (''[Error] Process '' @ pid_str pid @ '' not found in snapshot or /proc'')
        | Inr v0 \<Rightarrow>
            (let v = resolve_chain h ord snap v0; anc = fvRoot v in
             Option.bind (printTree snap v ''  '' (PID anc = PID (fvTarget v)) (shown_children snap v False anc))
               (\<lambda>below. Some (''[Process Family: '' @ pid_str pid @ ''] '' @ taken_at h snap @ nl
                  @ family_name v anc @ '' ('' @ pid_str (PID anc) @ '')'' @ nl @ below))))"

section \<open>The JSON view\<close>

datatype FamilyNode = FamilyNode (fnPID: u32) (fnComm: string) (fnTarget: bool) (fnChildren: "FamilyNode list")

text \<open>A missing node would be dereferenced: that panic is the left value.\<close>

partial_function (option) buildNodes ::
  "FrozenSnapshot \<Rightarrow> family_view \<Rightarrow> u32 list \<Rightarrow> (string + FamilyNode list) option" where
  "buildNodes snap v pids =
     (case pids of
        [] \<Rightarrow> Some (Inr [])
      | pid # rest \<Rightarrow>
          (case getNode snap (fvState v) pid of
             None \<Rightarrow> Some (Inl ''nil pointer dereference'')
           | Some node \<Rightarrow>
               Option.bind (buildNodes snap v (sorted_children (fvState v) pid))
                 (\<lambda>r. case r of
                    Inl e \<Rightarrow> Some (Inl e)
                  | Inr children \<Rightarrow>
                      Option.bind (buildNodes snap v rest)
                        (\<lambda>r'. case r' of
                           Inl e \<Rightarrow> Some (Inl e)
                         | Inr nodes \<Rightarrow>
                             Some (Inr (FamilyNode pid (Comm node) (pid = PID (fvTarget v)) children # nodes))))))"

fun FamilyNode_json :: "FamilyNode \<Rightarrow> json" where
  "FamilyNode_json (FamilyNode pid comm target children) =
     JObj ([(''pid'', jnat (unat pid)), (''comm'', jstr comm), (''is_target'', JBool target)]
       @ omit_if (children = []) ''children'' (JArr (map FamilyNode_json children)))"

definition family_doc :: "host \<Rightarrow> FrozenSnapshot \<Rightarrow> u32 \<Rightarrow> FamilyNode go_result option" where
  "family_doc h snap pid =
     Option.bind (find_lineage h snap pid)
       (\<lambda>r. case r of
          Inl _ \<Rightarrow> Some (Failed (''process '' @ pid_str pid @ '' not found''))
        | Inr v \<Rightarrow>
            map_option (\<lambda>r. case r of Inl e \<Rightarrow> Panic e | Inr nodes \<Rightarrow> Ok (hd nodes))
              (buildNodes snap v [PID (fvRoot v)]))"

definition ProcessFamilyJSON :: "host \<Rightarrow> FrozenSnapshot \<Rightarrow> u32 \<Rightarrow> json go_result option" where
  "ProcessFamilyJSON h snap pid =
     map_option (\<lambda>r. case r of Ok n \<Rightarrow> Ok (FamilyNode_json n) | Failed e \<Rightarrow> Failed e | Panic e \<Rightarrow> Panic e)
       (family_doc h snap pid)"

section \<open>What the tables hold\<close>

text \<open>
  \<open>parent_edge p c\<close>: some record of \<open>c\<close>, in the snapshot or for an unknown process in \<^verbatim>\<open>/proc\<close>, names
  \<open>p\<close> as its parent.
\<close>

definition parent_edge :: "host \<Rightarrow> FrozenSnapshot \<Rightarrow> u32 \<Rightarrow> u32 \<Rightarrow> bool" where
  "parent_edge h snap p c \<longleftrightarrow>
     (\<exists>n. (c, n) \<in> set (FByPID snap @ FGhosts snap) \<and> PPID n = p)
     \<or> (snap_lookup snap c = None \<and> (\<exists>n. proc_node h c = Some n \<and> PPID n = p))"

definition keys_match :: "FrozenSnapshot \<Rightarrow> bool" where
  "keys_match snap \<longleftrightarrow> (\<forall>(pid, n) \<in> set (FByPID snap @ FGhosts snap). PID n = pid)"

definition family_inv :: "host \<Rightarrow> FrozenSnapshot \<Rightarrow> family_state \<Rightarrow> bool" where
  "family_inv h snap st \<longleftrightarrow>
     (\<forall>pid n. map_of (untracked st) pid = Some n \<longrightarrow>
        snap_lookup snap pid = None \<and> proc_node h pid = Some n \<and> pid \<in> set (children_of st (PPID n)))
     \<and> (\<forall>p c. c \<in> set (children_of st p) \<longrightarrow> parent_edge h snap p c \<and> getNode snap st c \<noteq> None)"

definition filled :: "FrozenSnapshot \<Rightarrow> family_state \<Rightarrow> bool" where
  "filled snap st \<longleftrightarrow> (\<forall>(c, n) \<in> set (FByPID snap @ FGhosts snap). c \<in> set (children_of st (PPID n)))"

definition known_node :: "host \<Rightarrow> FrozenSnapshot \<Rightarrow> family_state \<Rightarrow> ProcessNode \<Rightarrow> bool" where
  "known_node h snap st n \<longleftrightarrow> getNode snap st (PID n) = Some n"

lemma getNode_eq:
  "getNode snap st pid = (case snap_lookup snap pid of Some p \<Rightarrow> Some p | None \<Rightarrow> map_of (untracked st) pid)"
  by (simp add: getNode_def snap_lookup_def split: option.splits)

lemma children_of_add [simp]:
  "children_of (add_child ppid pid st) p = children_of st p @ (if p = ppid then [pid] else [])"
  by (simp add: children_of_def add_child_def)

lemma add_child_untracked [simp]: "untracked (add_child ppid pid st) = untracked st"
  by (simp add: add_child_def)

lemma children_of_untracked [simp]: "children_of (st\<lparr>untracked := m\<rparr>) = children_of st"
  by (simp add: children_of_def fun_eq_iff)

lemma getNode_add_child [simp]: "getNode snap (add_child p c st) = getNode snap st"
  by (simp add: getNode_def fun_eq_iff split: option.split)

lemma proc_node_PID: "proc_node h pid = Some n \<Longrightarrow> PID n = pid"
  by (auto simp: proc_node_def newNode_def Let_def split: sum.splits)

lemma set_sorted_children [simp]: "set (sorted_children st p) = set (children_of st p)"
  by (simp add: sorted_children_def ss.srt_set)

lemma snap_lookup_in: "snap_lookup snap pid = Some n \<Longrightarrow> (pid, n) \<in> set (FByPID snap @ FGhosts snap)"
  by (auto simp: snap_lookup_def split: option.splits dest: map_of_SomeD)

lemma snap_lookup_None: "snap_lookup snap pid = None \<longleftrightarrow> pid \<notin> fst ` set (FByPID snap @ FGhosts snap)"
proof -
  have "snap_lookup snap pid = None \<longleftrightarrow> map_of (FByPID snap) pid = None \<and> map_of (FGhosts snap) pid = None"
    by (auto simp: snap_lookup_def split: option.splits)
  then show ?thesis by (simp add: map_of_eq_None_iff image_Un)
qed

lemma family_inv_start: "family_inv h snap \<lparr>untracked = [], childrenMap = []\<rparr>"
  by (simp add: family_inv_def children_of_def)

text \<open>A step extends the tables and keeps the invariant.\<close>

definition extends :: "host \<Rightarrow> FrozenSnapshot \<Rightarrow> family_state \<Rightarrow> family_state \<Rightarrow> bool" where
  "extends h snap st st' \<longleftrightarrow>
     (family_inv h snap st \<longrightarrow> family_inv h snap st')
     \<and> (\<forall>p. set (children_of st p) \<subseteq> set (children_of st' p))
     \<and> (\<forall>pid n. getNode snap st pid = Some n \<longrightarrow> getNode snap st' pid = Some n)"

lemma extends_refl [simp]: "extends h snap st st"
  by (simp add: extends_def)

lemma extends_trans: "extends h snap st st' \<Longrightarrow> extends h snap st' st'' \<Longrightarrow> extends h snap st st''"
  unfolding extends_def by blast

lemma extends_foldl: "(\<And>s x. extends h snap s (f s x)) \<Longrightarrow> extends h snap st (foldl f st xs)"
  by (induction xs arbitrary: st) (auto intro: extends_trans)

lemma extends_filled: "extends h snap st st' \<Longrightarrow> filled snap st \<Longrightarrow> filled snap st'"
  by (fastforce simp: extends_def filled_def)

lemma readUntracked_extends:
  assumes "getNode snap st pid = None" and "readUntracked h pid st = (r, st')"
  shows "extends h snap st st' \<and> (\<forall>n. r = Some n \<longrightarrow> getNode snap st' pid = Some n \<and> PID n = pid)"
proof -
  have no: "snap_lookup snap pid = None" "map_of (untracked st) pid = None"
    using assms(1) by (auto simp: getNode_eq split: option.splits)
  show ?thesis
  proof (cases "proc_node h pid")
    case None
    with assms(2) no show ?thesis by (auto simp: readUntracked_def)
  next
    case (Some n)
    let ?s = "st\<lparr>untracked := go_put pid n (untracked st)\<rparr>"
    have st': "st' = add_child (PPID n) pid ?s" "r = Some n"
      using assms(2) Some no by (auto simp: readUntracked_def)
    have get: "getNode snap st' q = (if q = pid then Some n else getNode snap st q)" for q
      using no by (auto simp: st' getNode_eq split: option.splits)
    have "parent_edge h snap (PPID n) pid" using Some no by (simp add: parent_edge_def)
    then have "family_inv h snap st \<longrightarrow> family_inv h snap st'"
      using Some no unfolding family_inv_def get by (auto simp: st')
    then show ?thesis
      using get assms(1) by (auto simp: extends_def st' proc_node_PID [OF Some])
  qed
qed

lemma keys_matchD: "keys_match snap \<Longrightarrow> (pid, n) \<in> set (FByPID snap @ FGhosts snap) \<Longrightarrow> PID n = pid"
  unfolding keys_match_def by blast

lemma getNode_PID:
  assumes "keys_match snap" and "family_inv h snap st" and get: "getNode snap st pid = Some n"
  shows "PID n = pid"
proof (cases "snap_lookup snap pid")
  case None
  with assms(2) get show ?thesis by (auto simp: getNode_eq family_inv_def dest: proc_node_PID)
next
  case (Some m)
  with get snap_lookup_in [OF Some] keys_matchD [OF assms(1)] show ?thesis by (simp add: getNode_eq)
qed

lemma find_node_extends:
  assumes "keys_match snap" and "family_inv h snap st" and "find_node h snap pid st = (r, st')"
  shows "extends h snap st st' \<and> (\<forall>n. r = Some n \<longrightarrow> getNode snap st' pid = Some n \<and> PID n = pid)"
proof (cases "getNode snap st pid")
  case None
  with assms(3) readUntracked_extends [OF None, of h r st'] show ?thesis by (simp add: find_node_def)
next
  case (Some n)
  with assms getNode_PID [OF assms(1,2) Some] show ?thesis by (auto simp: find_node_def)
qed

lemma resolve_child_extends: "extends h snap st (resolve_child h snap st cpid)"
proof (cases "getNode snap st cpid")
  case None
  obtain r st' where "readUntracked h cpid st = (r, st')" by (cases "readUntracked h cpid st")
  with readUntracked_extends [OF None this] None show ?thesis by (simp add: resolve_child_def)
qed (simp add: resolve_child_def)

lemma resolve_chain_extends: "extends h snap (fvState v) (fvState (resolve_chain h ord snap v))"
proof -
  have "extends h snap s (resolveChildren h snap s pid)" for s pid
    by (auto simp: resolveChildren_def intro: extends_foldl resolve_child_extends split: sum.splits)
  then show ?thesis by (simp add: resolve_chain_def extends_foldl)
qed

lemma add_snapshot_children_extends:
  "extends h snap st (add_snapshot_children snap st) \<and> filled snap (add_snapshot_children snap st)"
proof -
  let ?f = "\<lambda>s (pid, p). add_child (PPID p) pid s"
  have gen: "set xs \<subseteq> set (FByPID snap @ FGhosts snap) \<Longrightarrow>
      extends h snap s (foldl ?f s xs) \<and> (\<forall>(c, n) \<in> set xs. c \<in> set (children_of (foldl ?f s xs) (PPID n)))" for s xs
  proof (induction xs arbitrary: s)
    case (Cons x xs)
    obtain c n where x: "x = (c, n)" by (cases x)
    let ?s = "add_child (PPID n) c s"
    have k: "snap_lookup snap c \<noteq> None"
      unfolding snap_lookup_None using Cons.prems x by (metis (no_types) fst_conv image_eqI list.set_intros(1) not_not subsetD)
    have "parent_edge h snap (PPID n) c" using Cons.prems x by (auto simp: parent_edge_def)
    then have e: "extends h snap s ?s"
      using k by (fastforce simp: extends_def family_inv_def getNode_eq)
    have IH: "extends h snap ?s (foldl ?f ?s xs) \<and> (\<forall>(c, n) \<in> set xs. c \<in> set (children_of (foldl ?f ?s xs) (PPID n)))"
      using Cons by simp
    then have "c \<in> set (children_of (foldl ?f ?s xs) (PPID n))" by (fastforce simp: extends_def)
    with IH e x show ?case by (auto intro: extends_trans)
  qed simp
  from gen [OF subset_refl, of st] show ?thesis by (simp add: add_snapshot_children_def filled_def)
qed

subsection \<open>The climb\<close>

lemma known_edge: "family_inv h snap st \<Longrightarrow> known_node h snap st n \<Longrightarrow> parent_edge h snap (PPID n) (PID n)"
  by (auto simp: known_node_def getNode_eq family_inv_def parent_edge_def split: option.splits dest!: snap_lookup_in)

lemma known_listed:
  "family_inv h snap st \<Longrightarrow> filled snap st \<Longrightarrow> known_node h snap st n \<Longrightarrow> PID n \<in> set (children_of st (PPID n))"
  by (auto simp: known_node_def getNode_eq family_inv_def filled_def split: option.splits dest!: snap_lookup_in)

lemma known_extends: "extends h snap st st' \<Longrightarrow> known_node h snap st n \<Longrightarrow> known_node h snap st' n"
  by (simp add: extends_def known_node_def)

definition child_rel :: "family_state \<Rightarrow> (u32 \<times> u32) set" where
  "child_rel st = {(p, c). c \<in> set (children_of st p)}"

lemma child_rel_mono: "extends h snap st st' \<Longrightarrow> (child_rel st)\<^sup>* \<subseteq> (child_rel st')\<^sup>*"
  by (intro rtrancl_mono) (auto simp: child_rel_def extends_def)

lemma family_root_step:
  assumes "keys_match snap" and "family_inv h snap st" and "filled snap st" and "known_node h snap st cur"
    and f: "find_node h snap (PPID cur) st = (r, st1)"
  shows "extends h snap st st1 \<and> (\<forall>parent. r = Some parent \<longrightarrow>
    family_inv h snap st1 \<and> filled snap st1 \<and> known_node h snap st1 parent
    \<and> PID parent = PPID cur \<and> (PID parent, PID cur) \<in> child_rel st1)"
  using find_node_extends [OF assms(1,2) f] extends_filled [of h snap st st1] known_listed [OF assms(2-4)] assms(2,3)
  by (auto simp: extends_def known_node_def child_rel_def)

lemma family_root_result:
  "family_root h snap cur chain st = Some r \<Longrightarrow>
   keys_match snap \<longrightarrow> family_inv h snap st \<longrightarrow> filled snap st \<longrightarrow> known_node h snap st cur \<longrightarrow>
   extends h snap st (snd (snd r)) \<and> known_node h snap (snd (snd r)) (fst r)
   \<and> (PID (fst r), PID cur) \<in> (child_rel (snd (snd r)))\<^sup>*"
proof (erule family_root.raw_induct [rotated], intro impI)
  fix self :: "host \<Rightarrow> FrozenSnapshot \<Rightarrow> ProcessNode \<Rightarrow> u32 list \<Rightarrow> family_state \<Rightarrow> (ProcessNode \<times> u32 list \<times> family_state) option"
    and h snap cur chain st r
  assume IH: "\<And>h snap cur chain st r. self h snap cur chain st = Some r \<Longrightarrow>
      keys_match snap \<longrightarrow> family_inv h snap st \<longrightarrow> filled snap st \<longrightarrow> known_node h snap st cur \<longrightarrow>
      extends h snap st (snd (snd r)) \<and> known_node h snap (snd (snd r)) (fst r)
      \<and> (PID (fst r), PID cur) \<in> (child_rel (snd (snd r)))\<^sup>*"
    and run: "(if PPID cur = 0 \<or> PPID cur = 1 \<or> PPID cur = 2 then Some (cur, chain, st)
      else case find_node h snap (PPID cur) st of
             (None, st') \<Rightarrow> Some (cur, chain, st')
           | (Some parent, st') \<Rightarrow> self h snap parent (List.insert (PID parent) chain) st') = Some r"
    and pre: "keys_match snap" "family_inv h snap st" "filled snap st" "known_node h snap st cur"
  obtain q st1 where f: "find_node h snap (PPID cur) st = (q, st1)" by (cases "find_node h snap (PPID cur) st")
  note one = family_root_step [OF pre f]
  show "extends h snap st (snd (snd r)) \<and> known_node h snap (snd (snd r)) (fst r)
      \<and> (PID (fst r), PID cur) \<in> (child_rel (snd (snd r)))\<^sup>*"
  proof (cases "q = None \<or> PPID cur = 0 \<or> PPID cur = 1 \<or> PPID cur = 2")
    case True
    with run f one pre(4) show ?thesis by (auto intro: known_extends split: if_splits)
  next
    case False
    then obtain parent where q: "q = Some parent" by auto
    with False run f have "self h snap parent (List.insert (PID parent) chain) st1 = Some r" by simp
    from IH [OF this] pre(1) one q
    have rest: "extends h snap st1 (snd (snd r))" "known_node h snap (snd (snd r)) (fst r)"
      "(PID (fst r), PID parent) \<in> (child_rel (snd (snd r)))\<^sup>*" by auto
    moreover have "(PID parent, PID cur) \<in> child_rel (snd (snd r))"
      using one q rest(1) unfolding child_rel_def extends_def by blast
    ultimately show ?thesis using one by (auto intro: extends_trans rtrancl_into_rtrancl)
  qed
qed

lemma family_root_returns:
  assumes older: "\<And>p c. parent_edge h snap p c \<Longrightarrow> (older p :: nat) < older c"
    and km: "keys_match snap"
  shows "family_inv h snap st \<Longrightarrow> known_node h snap st cur \<Longrightarrow> \<exists>r. family_root h snap cur chain st = Some r"
proof (induction "older (PID cur)" arbitrary: cur chain st rule: less_induct)
  case less
  obtain r st1 where f: "find_node h snap (PPID cur) st = (r, st1)" by (cases "find_node h snap (PPID cur) st")
  note ext = find_node_extends [OF km less.prems(1) f]
  show ?case
  proof (cases "r = None \<or> PPID cur = 0 \<or> PPID cur = 1 \<or> PPID cur = 2")
    case True
    with f show ?thesis by (subst family_root.simps) auto
  next
    case False
    then obtain parent where r: "r = Some parent" by auto
    have "older (PID parent) < older (PID cur)"
      using older [OF known_edge [OF less.prems]] ext r by simp
    from less.hyps [OF this, of st1 "List.insert (PID parent) chain"] ext less.prems r
    have "\<exists>x. family_root h snap parent (List.insert (PID parent) chain) st1 = Some x"
      by (auto simp: extends_def known_node_def)
    with False f r show ?thesis by (subst family_root.simps) simp
  qed
qed

text \<open>What a view guarantees once the climb is over.\<close>

definition view_ok :: "host \<Rightarrow> FrozenSnapshot \<Rightarrow> family_view \<Rightarrow> bool" where
  "view_ok h snap v \<longleftrightarrow> family_inv h snap (fvState v) \<and> filled snap (fvState v)
     \<and> known_node h snap (fvState v) (fvRoot v) \<and> known_node h snap (fvState v) (fvTarget v)
     \<and> (PID (fvRoot v), PID (fvTarget v)) \<in> (child_rel (fvState v))\<^sup>*"

lemma view_start:
  assumes "keys_match snap" and "find_node h snap pid \<lparr>untracked = [], childrenMap = []\<rparr> = (Some target, st0)"
  shows "PID target = pid \<and> family_inv h snap (add_snapshot_children snap st0)
    \<and> filled snap (add_snapshot_children snap st0) \<and> known_node h snap (add_snapshot_children snap st0) target"
  using find_node_extends [OF assms(1) family_inv_start assms(2)] family_inv_start [of h snap]
    add_snapshot_children_extends [of h snap st0]
  by (auto simp: extends_def known_node_def)

lemma find_lineage_ok:
  assumes "keys_match snap" and "find_lineage h snap pid = Some (Inr v)"
  shows "view_ok h snap v \<and> PID (fvTarget v) = pid"
proof -
  obtain r st0 where f: "find_node h snap pid \<lparr>untracked = [], childrenMap = []\<rparr> = (r, st0)" by fastforce
  with assms(2) obtain target where r: "r = Some target" by (cases r) (auto simp: find_lineage_def)
  with f assms(2) obtain anc chain st where
    w: "family_root h snap target [PID target] (add_snapshot_children snap st0) = Some (anc, chain, st)"
    and v: "v = \<lparr>fvTarget = target, fvRoot = anc, fvChain = chain, fvState = st\<rparr>"
    by (auto simp: find_lineage_def)
  note start = view_start [OF assms(1) f [unfolded r]]
  with family_root_result [OF w] assms(1) have res: "extends h snap (add_snapshot_children snap st0) st"
      "known_node h snap st anc" "(PID anc, PID target) \<in> (child_rel st)\<^sup>*" by simp_all
  from extends_filled [OF res(1)] start res show ?thesis
    by (auto simp: v view_ok_def extends_def known_node_def)
qed

lemma view_ok_extends:
  "view_ok h snap v \<Longrightarrow> extends h snap (fvState v) st \<Longrightarrow> view_ok h snap (v\<lparr>fvState := st\<rparr>)"
  using child_rel_mono [of h snap "fvState v" st] extends_filled [of h snap "fvState v" st]
  by (auto simp: view_ok_def extends_def known_node_def)

subsection \<open>The descent\<close>

text \<open>A node of the result is right when it lists the sorted children, and so are the nodes below it.\<close>

fun node_spec :: "FrozenSnapshot \<Rightarrow> family_view \<Rightarrow> FamilyNode \<Rightarrow> bool" where
  "node_spec snap v (FamilyNode pid comm target children) \<longleftrightarrow>
     target = (pid = PID (fvTarget v)) \<and> map_option Comm (getNode snap (fvState v) pid) = Some comm
     \<and> map fnPID children = sorted_children (fvState v) pid \<and> (\<forall>c \<in> set children. node_spec snap v c)"

definition children_known :: "FrozenSnapshot \<Rightarrow> family_state \<Rightarrow> bool" where
  "children_known snap st \<longleftrightarrow> (\<forall>p c. c \<in> set (children_of st p) \<longrightarrow> getNode snap st c \<noteq> None)"

lemma view_ok_known: "view_ok h snap v \<Longrightarrow> children_known snap (fvState v)"
  unfolding view_ok_def family_inv_def children_known_def by blast

lemma buildNodes_result:
  "buildNodes snap v pids = Some r \<Longrightarrow>
   children_known snap (fvState v) \<longrightarrow> (\<forall>p \<in> set pids. getNode snap (fvState v) p \<noteq> None) \<longrightarrow>
   (\<exists>ns. r = Inr ns \<and> map fnPID ns = pids \<and> (\<forall>n \<in> set ns. node_spec snap v n))"
proof (erule buildNodes.raw_induct [rotated], intro impI)
  fix self :: "FrozenSnapshot \<Rightarrow> family_view \<Rightarrow> u32 list \<Rightarrow> (string + FamilyNode list) option" and snap v pids r
  assume IH: "\<And>snap v pids r. self snap v pids = Some r \<Longrightarrow>
      children_known snap (fvState v) \<longrightarrow> (\<forall>p \<in> set pids. getNode snap (fvState v) p \<noteq> None) \<longrightarrow>
      (\<exists>ns. r = Inr ns \<and> map fnPID ns = pids \<and> (\<forall>n \<in> set ns. node_spec snap v n))"
    and run: "(case pids of
        [] \<Rightarrow> Some (Inr [])
      | pid # rest \<Rightarrow>
          (case getNode snap (fvState v) pid of
             None \<Rightarrow> Some (Inl ''nil pointer dereference'')
           | Some node \<Rightarrow>
               Option.bind (self snap v (sorted_children (fvState v) pid))
                 (\<lambda>r. case r of
                    Inl e \<Rightarrow> Some (Inl e)
                  | Inr children \<Rightarrow>
                      Option.bind (self snap v rest)
                        (\<lambda>r'. case r' of
                           Inl e \<Rightarrow> Some (Inl e)
                         | Inr nodes \<Rightarrow>
                             Some (Inr (FamilyNode pid (Comm node) (pid = PID (fvTarget v)) children # nodes)))))) = Some r"
    and known: "children_known snap (fvState v)" "\<forall>p \<in> set pids. getNode snap (fvState v) p \<noteq> None"
  show "\<exists>ns. r = Inr ns \<and> map fnPID ns = pids \<and> (\<forall>n \<in> set ns. node_spec snap v n)"
  proof (cases pids)
    case (Cons pid rest)
    with known(2) obtain node where n: "getNode snap (fvState v) pid = Some node" by auto
    have kc: "\<forall>c \<in> set (sorted_children (fvState v) pid). getNode snap (fvState v) c \<noteq> None"
      using known(1) by (simp add: children_known_def)
    from run Cons n obtain r1 where r1: "self snap v (sorted_children (fvState v) pid) = Some r1"
      by (auto simp: bind_eq_Some_conv)
    from IH [OF r1] known(1) kc obtain children where c: "r1 = Inr children"
      "map fnPID children = sorted_children (fvState v) pid" "\<forall>n \<in> set children. node_spec snap v n" by auto
    from run Cons n r1 c(1) obtain r2 where r2: "self snap v rest = Some r2" by (auto simp: bind_eq_Some_conv)
    from IH [OF r2] known Cons obtain nodes where "r2 = Inr nodes" "map fnPID nodes = rest"
      "\<forall>n \<in> set nodes. node_spec snap v n" by auto
    with run Cons n r1 r2 c show ?thesis by auto
  qed (use run in simp)
qed

lemma older_bound: "(older :: u32 \<Rightarrow> nat) p \<le> Max (range older)"
  by (rule Max_ge) simp_all

lemma older_closer:
  fixes older :: "u32 \<Rightarrow> nat"
  assumes "older p < older c" and "Max (range older) - older p < Suc n"
  shows "Max (range older) - older c < n"
  using assms older_bound [of older c] by linarith

lemma buildNodes_returns:
  fixes older :: "u32 \<Rightarrow> nat"
  assumes older: "\<And>p c. c \<in> set (children_of (fvState v) p) \<Longrightarrow> older p < older c"
  shows "(\<forall>p \<in> set pids. Max (range older) - older p < n) \<Longrightarrow> \<exists>r. buildNodes snap v pids = Some r"
proof (induction n arbitrary: pids)
  case 0
  then have "pids = []" by (cases pids) auto
  then show ?case by (simp add: buildNodes.simps)
next
  case (Suc n)
  from Suc.prems show ?case
  proof (induction pids)
    case Nil
    then show ?case by (simp add: buildNodes.simps)
  next
    case (Cons pid rest)
    have "Max (range older) - older c < n" if "c \<in> set (sorted_children (fvState v) pid)" for c
      using older_closer [of older pid c n] older [of c pid] that Cons.prems by simp
    then obtain r1 where "buildNodes snap v (sorted_children (fvState v) pid) = Some r1" using Suc.IH by blast
    moreover obtain r2 where "buildNodes snap v rest = Some r2" using Cons by auto
    ultimately show ?case by (subst buildNodes.simps) (auto split: option.splits sum.splits)
  qed
qed

lemma in_shown_children:
  assumes "keys_match snap" and "family_inv h snap (fvState v)"
  shows "child \<in> set (shown_children snap v b node) \<longleftrightarrow>
     (PID child \<in> set (children_of (fvState v) (PID node)) \<and> getNode snap (fvState v) (PID child) = Some child
      \<and> (PID child \<in> set (fvChain v) \<or> PID node = PPID (fvTarget v) \<or> b \<or> PID node = PID (fvTarget v))
      \<and> PID child \<noteq> PID node)" (is "?L \<longleftrightarrow> ?R")
proof
  assume ?L
  then obtain cpid where c: "cpid \<in> set (children_of (fvState v) (PID node))" "getNode snap (fvState v) cpid = Some child"
      "cpid \<in> set (fvChain v) \<or> PID node = PPID (fvTarget v) \<or> b \<or> PID node = PID (fvTarget v)" "cpid \<noteq> PID node"
    unfolding shown_children_def in_map_filter by (auto split: option.splits if_splits)
  with getNode_PID [OF assms c(2)] show ?R by simp
next
  assume ?R
  then show ?L unfolding shown_children_def in_map_filter by (intro bexI [of _ "PID child"]) auto
qed

lemma printTree_returns:
  fixes older :: "u32 \<Rightarrow> nat"
  assumes older: "\<And>p c. c \<in> set (children_of (fvState v) p) \<Longrightarrow> older p < older c"
    and ok: "keys_match snap" "family_inv h snap (fvState v)"
  shows "(\<forall>p \<in> set nodes. Max (range older) - older (PID p) < n) \<Longrightarrow> \<exists>r. printTree snap v pre b nodes = Some r"
proof (induction n arbitrary: pre b nodes)
  case 0
  then have "nodes = []" by (cases nodes) auto
  then show ?case by (simp add: printTree.simps)
next
  case (Suc n)
  from Suc.prems show ?case
  proof (induction nodes)
    case Nil
    then show ?case by (simp add: printTree.simps)
  next
    case (Cons node rest)
    have "Max (range older) - older (PID c) < n" if "c \<in> set (shown_children snap v b node)" for c
      using older_closer [of older "PID node" "PID c" n] older [of "PID c" "PID node"] that Cons.prems
      by (simp add: in_shown_children [OF ok])
    then obtain r1 where "printTree snap v (pre @ (if rest = [] then ''     '' else box_v @ ''    ''))
        (b \<or> PID node = PID (fvTarget v)) (shown_children snap v b node) = Some r1" using Suc.IH by blast
    moreover obtain r2 where "printTree snap v pre b rest = Some r2" using Cons by auto
    ultimately show ?case by (subst printTree.simps) simp
  qed
qed

section \<open>The views\<close>

text \<open>
  C15: both views of a family are produced, and without a panic, whenever parents are older than their
  children: the records of the snapshot and of \<^verbatim>\<open>/proc\<close> admit no cycle of parents.
\<close>

theorem family_returned_when_parents_older:
  fixes older :: "u32 \<Rightarrow> nat"
  assumes km: "keys_match snap" and older: "\<And>p c. parent_edge h snap p c \<Longrightarrow> older p < older c"
  shows "\<exists>txt r. ProcessFamily h ord snap pid = Some txt \<and> ProcessFamilyJSON h snap pid = Some r
    \<and> (\<forall>e. r \<noteq> Panic e)"
proof -
  have "\<exists>r. find_lineage h snap pid = Some r"
  proof (cases "find_node h snap pid \<lparr>untracked = [], childrenMap = []\<rparr>")
    case (Pair q st0)
    then show ?thesis
      using view_start [OF km] family_root_returns [OF older km]
      by (cases q) (auto simp: find_lineage_def)
  qed
  then obtain r where r: "find_lineage h snap pid = Some r" ..
  show ?thesis
  proof (cases r)
    case (Inl e)
    with r show ?thesis by (simp add: ProcessFamily_def ProcessFamilyJSON_def family_doc_def)
  next
    case (Inr v)
    with find_lineage_ok [OF km, of h pid v] r have v: "view_ok h snap v" by simp
    let ?v = "resolve_chain h ord snap v"
    have v': "view_ok h snap ?v"
      using view_ok_extends [OF v resolve_chain_extends, of ord] by (simp add: resolve_chain_def)
    have edges: "older p < older c" if "view_ok h snap w" "c \<in> set (children_of (fvState w) p)" for w p c
      using that older [of p c] by (auto simp: view_ok_def family_inv_def)
    have "\<exists>out. printTree snap ?v ''  '' (PID (fvRoot ?v) = PID (fvTarget ?v)) (shown_children snap ?v False (fvRoot ?v)) = Some out"
    proof (rule printTree_returns [OF edges [OF v'] km])
      show "family_inv h snap (fvState ?v)" using v' by (simp add: view_ok_def)
      show "\<forall>p \<in> set (shown_children snap ?v False (fvRoot ?v)). Max (range older) - older (PID p) < Suc (Max (range older))"
        using diff_le_self le_imp_less_Suc by blast
    qed
    then obtain out where t: "printTree snap ?v ''  '' (PID (fvRoot ?v) = PID (fvTarget ?v)) (shown_children snap ?v False (fvRoot ?v)) = Some out" ..
    obtain b where b: "buildNodes snap v [PID (fvRoot v)] = Some b"
      using buildNodes_returns [of v older "[PID (fvRoot v)]" "Suc (Max (range older))" snap] edges [OF v]
      by (auto simp: le_imp_less_Suc)
    from buildNodes_result [OF b] view_ok_known [OF v] v obtain ns where "b = Inr ns"
      by (auto simp: view_ok_def known_node_def)
    with r Inr t b show ?thesis
      by (simp add: ProcessFamily_def ProcessFamilyJSON_def family_doc_def Let_def)
  qed
qed

lemma family_returned_when_parents_older_witness:
  "\<exists>txt r. ProcessFamily (sample_host (\<lambda>_. Inl ''none'')) id sample_snap 42 = Some txt
    \<and> ProcessFamilyJSON (sample_host (\<lambda>_. Inl ''none'')) sample_snap 42 = Some r \<and> (\<forall>e. r \<noteq> Panic e)"
proof (rule family_returned_when_parents_older [where older = "\<lambda>p. if p = 42 then 1 else 0"])
  show "keys_match sample_snap" by (simp add: keys_match_def sample_snap_def newNode_def)
  show "parent_edge (sample_host (\<lambda>_. Inl ''none'')) sample_snap p c \<Longrightarrow>
      (if p = 42 then 1 else 0) < (if c = 42 then 1 else 0 :: nat)" for p c
    by (auto simp: parent_edge_def sample_snap_def newNode_def proc_node_def sample_host_def)
qed

fun fam_nodes :: "FamilyNode \<Rightarrow> FamilyNode list" where
  "fam_nodes (FamilyNode pid comm target children) =
     FamilyNode pid comm target children # concat (map fam_nodes children)"

lemma fam_nodes_self [simp]: "t \<in> set (fam_nodes t)"
  by (cases t) simp

lemma fam_nodes_spec: "node_spec snap v t \<Longrightarrow> n \<in> set (fam_nodes t) \<Longrightarrow> node_spec snap v n"
  by (induction t rule: fam_nodes.induct) auto

lemma fam_nodes_children: "n \<in> set (fam_nodes t) \<Longrightarrow> c \<in> set (fnChildren n) \<Longrightarrow> c \<in> set (fam_nodes t)"
proof (induction t rule: fam_nodes.induct)
  case (1 pid comm target children)
  then show ?case by (cases "n = FamilyNode pid comm target children") (auto intro: fam_nodes_self)
qed

lemma node_spec_children: "node_spec snap v n \<Longrightarrow> map fnPID (fnChildren n) = sorted_children (fvState v) (fnPID n)"
  by (cases n) simp

lemma fam_nodes_closed:
  assumes "node_spec snap v t" and "n \<in> set (fam_nodes t)" and "c \<in> set (children_of (fvState v) (fnPID n))"
  shows "\<exists>m \<in> set (fam_nodes t). fnPID m = c"
proof -
  have "c \<in> fnPID ` set (fnChildren n)"
    using assms(3) node_spec_children [OF fam_nodes_spec [OF assms(1,2)]] by (metis list.set_map set_sorted_children)
  then show ?thesis using fam_nodes_children [OF assms(2)] by blast
qed

lemma fam_nodes_reach:
  assumes "node_spec snap v t" and "(fnPID t, c) \<in> (child_rel (fvState v))\<^sup>*"
  shows "\<exists>m \<in> set (fam_nodes t). fnPID m = c"
  using assms(2)
proof (induction rule: rtrancl_induct)
  case (step b c)
  then show ?case using fam_nodes_closed [OF assms(1)] by (auto simp: child_rel_def)
qed (use fam_nodes_self in blast)

text \<open>
  C16: the tree of the JSON view holds the target, marks it and nothing else, lists children in ascending
  order and under a parent that some record names, and omits no descendant that the snapshot records.
\<close>

theorem family_tree_complete:
  assumes km: "keys_match snap" and doc: "family_doc h snap pid = Some (Ok t)"
  shows "pid \<in> fnPID ` set (fam_nodes t)
    \<and> (\<forall>n \<in> set (fam_nodes t). (fnTarget n \<longleftrightarrow> fnPID n = pid) \<and> sorted (map fnPID (fnChildren n))
         \<and> (\<forall>c \<in> set (fnChildren n). parent_edge h snap (fnPID n) (fnPID c)))
    \<and> (\<forall>(c, n) \<in> set (FByPID snap @ FGhosts snap).
         PPID n \<in> fnPID ` set (fam_nodes t) \<longrightarrow> c \<in> fnPID ` set (fam_nodes t))"
proof -
  from doc obtain r where r: "find_lineage h snap pid = Some r" by (auto simp: family_doc_def bind_eq_Some_conv)
  with doc obtain v where "r = Inr v" by (cases r) (auto simp: family_doc_def)
  with doc r obtain b where v: "find_lineage h snap pid = Some (Inr v)" "buildNodes snap v [PID (fvRoot v)] = Some b"
      "Ok t = (case b of Inl e \<Rightarrow> Panic e | Inr nodes \<Rightarrow> Ok (hd nodes))"
    by (auto simp: family_doc_def)
  note ok = find_lineage_ok [OF km v(1)]
  from buildNodes_result [OF v(2)] view_ok_known ok obtain ns where ns: "b = Inr ns"
      "map fnPID ns = [PID (fvRoot v)]" "\<forall>n \<in> set ns. node_spec snap v n"
    by (auto simp: view_ok_def known_node_def)
  with v(3) have t: "ns = [t]" by auto
  then have spec: "node_spec snap v t" and root: "fnPID t = PID (fvRoot v)" using ns by auto
  have "\<exists>m \<in> set (fam_nodes t). fnPID m = pid"
    using fam_nodes_reach [OF spec, of pid] ok by (auto simp: view_ok_def root)
  moreover have "(fnTarget n \<longleftrightarrow> fnPID n = pid) \<and> sorted (map fnPID (fnChildren n))
      \<and> (\<forall>c \<in> set (fnChildren n). parent_edge h snap (fnPID n) (fnPID c))" if "n \<in> set (fam_nodes t)" for n
  proof -
    have n: "node_spec snap v n" using fam_nodes_spec [OF spec that] .
    have "sorted (sorted_children (fvState v) (fnPID n))"
      using ss.srt_by_key_asc [of id] by (simp add: sorted_children_def sorted_wrt_iff_nth_less sorted_iff_nth_mono_less)
    moreover have "parent_edge h snap (fnPID n) (fnPID c)" if "c \<in> set (fnChildren n)" for c
    proof -
      have "fnPID c \<in> set (children_of (fvState v) (fnPID n))"
        using that node_spec_children [OF n] by (metis image_eqI list.set_map set_sorted_children)
      with ok show ?thesis by (simp add: view_ok_def family_inv_def)
    qed
    ultimately show ?thesis using n ok node_spec_children [OF n] by (cases n) auto
  qed
  moreover have "\<exists>m \<in> set (fam_nodes t). fnPID m = c"
    if "(c, n) \<in> set (FByPID snap @ FGhosts snap)" and "m \<in> set (fam_nodes t)" and "fnPID m = PPID n" for c n m
    using fam_nodes_closed [OF spec that(2), of c] ok that(1,3) by (auto simp: view_ok_def filled_def)
  ultimately show ?thesis by (force simp: image_iff)
qed

lemma family_tree_complete_witness:
  "\<exists>t. family_doc (sample_host (\<lambda>_. Inl ''none'')) sample_snap 42 = Some (Ok t) \<and> 42 \<in> fnPID ` set (fam_nodes t)"
proof -
  let ?h = "sample_host (\<lambda>_. Inl ''none'')"
  let ?n = "newNode 42 ''/bin/sh'' ''sh'' 0"
  let ?st = "add_snapshot_children sample_snap \<lparr>untracked = [], childrenMap = []\<rparr>"
  let ?v = "\<lparr>fvTarget = ?n, fvRoot = ?n, fvChain = [42], fvState = ?st\<rparr>"
  have km: "keys_match sample_snap" by (simp add: keys_match_def sample_snap_def newNode_def)
  have look: "getNode sample_snap st 42 = Some ?n" for st by (simp add: getNode_def sample_snap_def)
  have v: "find_lineage ?h sample_snap 42 = Some (Inr ?v)"
    by (simp add: find_lineage_def find_node_def look family_root.simps newNode_def)
  have "sorted_children ?st 42 = []"
    by (simp add: sorted_children_def children_of_def add_snapshot_children_def add_child_def sample_snap_def
        newNode_def sort_slice_def)
  then have "buildNodes sample_snap ?v [42] = Some (Inr [FamilyNode 42 ''sh'' True []])"
    by (simp add: buildNodes.simps look) (simp add: newNode_def)
  with v have d: "family_doc ?h sample_snap 42 = Some (Ok (FamilyNode 42 ''sh'' True []))"
    by (simp add: family_doc_def) (simp add: newNode_def)
  from family_tree_complete [OF km d] d show ?thesis by blast
qed

section \<open>A reused PID\<close>

lemma no_cyclic_tree:
  "node_spec snap v t \<Longrightarrow> fnPID t \<in> {a, b} \<Longrightarrow> b \<in> set (children_of (fvState v) a) \<Longrightarrow>
   a \<in> set (children_of (fvState v) b) \<Longrightarrow> False"
proof (induction t)
  case (FamilyNode pid comm target children)
  have "(if pid = a then b else a) \<in> set (sorted_children (fvState v) pid)"
    using FamilyNode.prems(2-4) by (cases "pid = a") auto
  then have "(if pid = a then b else a) \<in> set (map fnPID children)"
    using FamilyNode.prems(1) by simp
  then obtain c where "c \<in> set children" "fnPID c \<in> {a, b}" by (auto split: if_splits)
  with FamilyNode.IH [OF this(1)] FamilyNode.prems show False by auto
qed

lemma printTree_below:
  "printTree snap v pre b nodes = Some s \<Longrightarrow> n \<in> set nodes \<Longrightarrow>
   \<exists>pre' s'. printTree snap v pre' (b \<or> PID n = PID (fvTarget v)) (shown_children snap v b n) = Some s'
     \<and> length s' < length s"
proof (induction nodes arbitrary: s)
  case (Cons node rest)
  from Cons.prems(1) obtain below after where p:
      "printTree snap v (pre @ (if rest = [] then ''     '' else box_v @ ''    '')) (b \<or> PID node = PID (fvTarget v))
         (shown_children snap v b node) = Some below"
      "printTree snap v pre b rest = Some after" and len: "length below < length s" "length after < length s"
    by (subst (asm) printTree.simps) (auto simp: bind_eq_Some_conv)
  show ?case
  proof (cases "n = node")
    case True
    with p(1) len show ?thesis by blast
  next
    case False
    with Cons.IH [OF p(2)] Cons.prems(2) len(2) show ?thesis by (meson less_trans set_ConsD)
  qed
qed simp

lemma no_cyclic_print:
  assumes "\<And>n. n \<in> {x, y} \<Longrightarrow> \<exists>m \<in> {x, y}. m \<in> set (shown_children snap v True n)"
  shows "printTree snap v pre True nodes = Some s \<Longrightarrow> n \<in> set nodes \<Longrightarrow> n \<in> {x, y} \<Longrightarrow> False"
proof (induction "length s" arbitrary: s pre nodes n rule: less_induct)
  case less
  from printTree_below [OF less.prems(1,2)] obtain pre' s' where
    "printTree snap v pre' True (shown_children snap v True n) = Some s'" "length s' < length s" by auto
  with less.hyps [of s'] assms [OF less.prems(3)] show False by blast
qed

text \<open>
  when a PID was reused, a ghost and an active process have it. If the ghost's parent is a child of
  the new process, both views recurse for ever, although no process is its own ancestor.
\<close>

theorem family_loops_on_reused_pid:
  assumes km: "keys_match snap" and n: "map_of (FByPID snap) a = Some n" "PPID n = 1"
    and m: "map_of (FByPID snap) b = Some m" "PPID m = a" "a \<noteq> b"
    and g: "(a, g) \<in> set (FGhosts snap)" "PPID g = b"
  shows "ProcessFamily h ord snap a = None \<and> ProcessFamilyJSON h snap a = None"
proof -
  let ?st = "add_snapshot_children snap \<lparr>untracked = [], childrenMap = []\<rparr>"
  let ?v = "\<lparr>fvTarget = n, fvRoot = n, fvChain = [PID n], fvState = ?st\<rparr>"
  have f: "find_node h snap a \<lparr>untracked = [], childrenMap = []\<rparr> = (Some n, \<lparr>untracked = [], childrenMap = []\<rparr>)"
    using n by (simp add: find_node_def getNode_def)
  have v: "find_lineage h snap a = Some (Inr ?v)"
    unfolding find_lineage_def f using n(2) by (simp add: family_root.simps)
  have ids: "PID n = a" "PID m = b"
    using keys_matchD [OF km] map_of_SomeD [OF n(1)] map_of_SomeD [OF m(1)] by auto
  have cyc: "b \<in> set (children_of (fvState w) a)" "a \<in> set (children_of (fvState w) b)" if "view_ok h snap w" for w
    using that map_of_SomeD [OF m(1)] g m(2) by (fastforce simp: view_ok_def filled_def)+
  have ok: "view_ok h snap ?v" using find_lineage_ok [OF km v] ..
  have "buildNodes snap ?v [a] = None"
  proof (rule ccontr)
    assume "buildNodes snap ?v [a] \<noteq> None"
    then obtain r where "buildNodes snap ?v [a] = Some r" by auto
    from buildNodes_result [OF this] view_ok_known [OF ok] n(1) obtain t where "node_spec snap ?v t" "fnPID t = a"
      by (auto simp: getNode_def)
    with no_cyclic_tree [of snap ?v t a b] cyc [OF ok] show False by simp
  qed
  moreover define w where "w = resolve_chain h ord snap ?v"
  have w: "view_ok h snap w"
    using view_ok_extends [OF ok resolve_chain_extends, of ord] by (simp add: resolve_chain_def w_def)
  then have inv: "family_inv h snap (fvState w)" by (simp add: view_ok_def)
  have tgt: "fvTarget w = n" "fvRoot w = n" by (simp_all add: resolve_chain_def w_def)
  have get: "getNode snap (fvState w) a = Some n" "getNode snap (fvState w) b = Some m"
    using n(1) m(1) by (simp_all add: getNode_def)
  have shown: "m \<in> set (shown_children snap w q n)" "n \<in> set (shown_children snap w True m)" for q
    unfolding in_shown_children [OF km inv] using cyc [OF w] m(3) get by (simp_all add: ids tgt)
  have "printTree snap w ''  '' True (shown_children snap w False n) = None"
  proof (rule ccontr)
    assume "printTree snap w ''  '' True (shown_children snap w False n) \<noteq> None"
    then obtain s where "printTree snap w ''  '' True (shown_children snap w False n) = Some s" by auto
    from no_cyclic_print [OF _ this shown(1), of n m] shown show False by blast
  qed
  then have "ProcessFamily h ord snap a = None"
    unfolding ProcessFamily_def v bind.bind_lunit sum.case Let_def w_def [symmetric] tgt by simp
  moreover have "ProcessFamilyJSON h snap a = None" if "buildNodes snap ?v [a] = None"
    unfolding ProcessFamilyJSON_def family_doc_def v bind.bind_lunit sum.case family_view.simps ids(1) that
    using that by (simp add: ids)
  ultimately show ?thesis by blast
qed

definition reused_snap :: FrozenSnapshot where
  "reused_snap = \<lparr>Timestamp = 9,
     FByPID = [(500, (newNode 500 [] ''bash'' 8)\<lparr>PPID := 1\<rparr>), (600, (newNode 600 [] ''make'' 5)\<lparr>PPID := 500\<rparr>)],
     FGhosts = [(500, (newNode 500 [] ''cc'' 6)\<lparr>PPID := 600, EndTimestamp := 7\<rparr>)], FStracePath = ''strace''\<rparr>"

lemma family_loops_on_reused_pid_witness:
  "ProcessFamily (sample_host (\<lambda>_. Inl ''none'')) id reused_snap 500 = None
   \<and> ProcessFamilyJSON (sample_host (\<lambda>_. Inl ''none'')) reused_snap 500 = None"
  by (rule family_loops_on_reused_pid [where b = 600 and n = "(newNode 500 [] ''bash'' 8)\<lparr>PPID := 1\<rparr>"
        and m = "(newNode 600 [] ''make'' 5)\<lparr>PPID := 500\<rparr>"
        and g = "(newNode 500 [] ''cc'' 6)\<lparr>PPID := 600, EndTimestamp := 7\<rparr>"])
    (simp_all add: keys_match_def reused_snap_def newNode_def)

end
