(* ===== verification/SnapStore.thy ===== *)
theory SnapStore
  imports Family
begin

text \<open>
  Snapshots as JSON documents, and the snapshot store (\<^verbatim>\<open>store/store.go\<close>). SQLite is a library: its
  statements are the fields of the record \<open>sqldb\<close>, over a type \<open>'d\<close> of databases, and \<open>sql_laws\<close>
  is what SQL promises of them. The package variable \<^verbatim>\<open>db\<close> is the state: \<open>None\<close> is the nil pointer.
  A document in the column \<^verbatim>\<open>data\<close> is a value of type \<open>json\<close>; what \<^verbatim>\<open>encoding/json\<close> says of a
  document that it cannot decode is left out of the messages.
\<close>

section \<open>Snapshots as documents\<close>

text \<open>
  The members of an object come in the order of the map's list. A pointer in a document may be null;
  a snapshot of this model has no null pointers, so such a document is not decoded.
\<close>

definition node_json :: "ProcessNode \<Rightarrow> json" where
  "node_json p =
     JObj [(''PID'', jnat (unat (PID p))), (''PPID'', jnat (unat (PPID p))), (''BinaryPath'', jstr (BinaryPath p)),
           (''Comm'', jstr (Comm p)),
           (''Effects'', JObj (map (\<lambda>(k, e). (to_valid k, effect_json e)) (Effects p))),
           (''StartTimestamp'', JTime (StartTimestamp p)), (''EndTimestamp'', JTime (EndTimestamp p)),
           (''ChildrenPID'', if ChildrenPID p = [] then JNull else JArr (map (\<lambda>c. jnat (unat c)) (ChildrenPID p))),
           (''CpuUsage'', JNum (CpuUsage p)), (''MemoryUsage'', jnat (unat (MemoryUsage p))),
           (''IsEnriched'', JBool (IsEnriched p))]"

definition nodes_json :: "(u32, ProcessNode) gomap \<Rightarrow> json" where
  "nodes_json m = JObj (map (\<lambda>(pid, p). (pid_str pid, node_json p)) m)"

definition snapshot_json :: "FrozenSnapshot \<Rightarrow> json" where
  "snapshot_json s =
     JObj [(''Timestamp'', JTime (Timestamp s)), (''ByPID'', nodes_json (FByPID s)),
           (''Ghosts'', nodes_json (FGhosts s)), (''StracePath'', jstr (FStracePath s))]"

definition put_entry ::
  "(string \<Rightarrow> 'k option) \<Rightarrow> (json \<Rightarrow> 'v option) \<Rightarrow> ('k, 'v) gomap option \<Rightarrow> string \<times> json \<Rightarrow> ('k, 'v) gomap option" where
  "put_entry key conv acc kj =
     Option.bind acc (\<lambda>m.
     Option.bind (key (fst kj)) (\<lambda>k.
     Option.bind (if snd kj = JNull then None else conv (snd kj)) (\<lambda>v. Some (go_put k v m))))"

fun as_map :: "(string \<Rightarrow> 'k option) \<Rightarrow> (json \<Rightarrow> 'v option) \<Rightarrow> json \<Rightarrow> ('k, 'v) gomap option" where
  "as_map key conv (JObj fs) = foldl (put_entry key conv) (Some []) fs"
| "as_map key conv JNull = Some []"
| "as_map key conv _ = None"

fun as_list :: "(json \<Rightarrow> 'a option) \<Rightarrow> 'a \<Rightarrow> json \<Rightarrow> 'a list option" where
  "as_list conv zero (JArr js) = those (map (\<lambda>j. if j = JNull then Some zero else conv j) js)"
| "as_list conv zero _ = None"

definition pid_key :: "string \<Rightarrow> u32 option" where
  "pid_key s = (case ParseUint 10 32 s of Inl _ \<Rightarrow> None | Inr n \<Rightarrow> Some (of_nat n))"

definition UnmarshalNode :: "json \<Rightarrow> ProcessNode option" where
  "UnmarshalNode j =
     Option.bind (json_fields j) (\<lambda>fs.
     Option.bind (get_field (as_nat 32) 0 fs ''PID'') (\<lambda>pid.
     Option.bind (get_field (as_nat 32) 0 fs ''PPID'') (\<lambda>ppid.
     Option.bind (get_field as_string [] fs ''BinaryPath'') (\<lambda>bin.
     Option.bind (get_field as_string [] fs ''Comm'') (\<lambda>comm.
     Option.bind (get_field (as_map Some UnmarshalEffect) [] fs ''Effects'') (\<lambda>effs.
     Option.bind (get_field as_time zeroTime fs ''StartTimestamp'') (\<lambda>start.
     Option.bind (get_field as_time zeroTime fs ''EndTimestamp'') (\<lambda>stop.
     Option.bind (get_field (as_list (as_nat 32) 0) [] fs ''ChildrenPID'') (\<lambda>kids.
     Option.bind (get_field as_float 0 fs ''CpuUsage'') (\<lambda>cpu.
     Option.bind (get_field (as_nat 64) 0 fs ''MemoryUsage'') (\<lambda>mem.
     Option.bind (get_field as_bool False fs ''IsEnriched'') (\<lambda>enr.
     Some \<lparr>PID = of_nat pid, PPID = of_nat ppid, BinaryPath = bin, Comm = comm, Effects = effs,
           StartTimestamp = start, EndTimestamp = stop, ChildrenPID = map of_nat kids, CpuUsage = cpu,
           MemoryUsage = of_nat mem, IsEnriched = enr\<rparr>))))))))))))"

definition UnmarshalSnapshot :: "json \<Rightarrow> FrozenSnapshot option" where
  "UnmarshalSnapshot j =
     Option.bind (json_fields j) (\<lambda>fs.
     Option.bind (get_field as_time zeroTime fs ''Timestamp'') (\<lambda>t.
     Option.bind (get_field (as_map pid_key UnmarshalNode) [] fs ''ByPID'') (\<lambda>active.
     Option.bind (get_field (as_map pid_key UnmarshalNode) [] fs ''Ghosts'') (\<lambda>ghosts.
     Option.bind (get_field as_string [] fs ''StracePath'') (\<lambda>strace.
     Some \<lparr>Timestamp = t, FByPID = active, FGhosts = ghosts, FStracePath = strace\<rparr>)))))"

subsection \<open>Decoding inverts encoding\<close>

definition node_plain :: "ProcessNode \<Rightarrow> bool" where
  "node_plain p \<longleftrightarrow> utf8_valid (BinaryPath p) \<and> utf8_valid (Comm p) \<and> wf_map (Effects p)
     \<and> (\<forall>(k, e) \<in> set (Effects p). utf8_valid k \<and> effect_ok e)"

definition snapshot_plain :: "FrozenSnapshot \<Rightarrow> bool" where
  "snapshot_plain s \<longleftrightarrow> wf_map (FByPID s) \<and> wf_map (FGhosts s) \<and> utf8_valid (FStracePath s)
     \<and> (\<forall>(_, p) \<in> set (FByPID s) \<union> set (FGhosts s). node_plain p)"

lemma go_put_fresh: "k \<notin> fst ` set m \<Longrightarrow> go_put k v m = m @ [(k, v)]"
  by (induction m) auto

text \<open>
  The contract of a pair of an encoder and a decoder: decoding inverts encoding on the plain values, and
  no value is encoded as null, which decoders of lists and maps treat apart. It passes on to
  lists and to maps.
\<close>

locale codec =
  fixes enc :: "'a \<Rightarrow> json"
    and dec_json :: "json \<Rightarrow> 'a option"
    and plain :: "'a \<Rightarrow> bool"
  assumes dec_enc: "plain x \<Longrightarrow> dec_json (enc x) = Some x"
    and enc_not_null: "enc x \<noteq> JNull"
begin

lemma enc_inj: "plain x \<Longrightarrow> plain y \<Longrightarrow> enc x = enc y \<Longrightarrow> x = y"
  by (metis dec_enc option.inject)

lemma list_dec: "\<forall>x \<in> set xs. plain x \<Longrightarrow> as_list dec_json zero (JArr (map enc xs)) = Some xs"
  by (induction xs) (simp_all add: dec_enc enc_not_null)

lemma map_dec:
  assumes "wf_map m" and "\<forall>(k, v) \<in> set m. key (ek k) = Some k \<and> plain v"
  shows "as_map key dec_json (JObj (map (\<lambda>(k, v). (ek k, enc v)) m)) = Some m"
proof -
  have "foldl (put_entry key dec_json) (Some acc) (map (\<lambda>(k, v). (ek k, enc v)) m) = Some (acc @ m)"
    if "distinct (map fst acc @ map fst m)" "\<forall>(k, v) \<in> set m. key (ek k) = Some k \<and> plain v" for acc m
    using that
  proof (induction m arbitrary: acc)
    case (Cons x m)
    obtain k v where x: "x = (k, v)" by (cases x)
    have "go_put k v acc = acc @ [(k, v)]" using Cons.prems(1) x by (intro go_put_fresh) auto
    with Cons x show ?case by (simp add: put_entry_def dec_enc enc_not_null)
  qed simp
  from this [of "[]" m] assms show ?thesis by (simp add: wf_map_def)
qed

end

lemma get_field_obj: "map_of fs nm = Some (JObj js) \<Longrightarrow> get_field conv z fs nm = conv (JObj js)"
  by (simp add: get_field_def)

lemma u32_bound: "unat (c :: u32) < 2 ^ 32"
proof -
  have "unat c < 2 ^ LENGTH(32)" by (rule unsigned_less)
  then show ?thesis by simp
qed

interpretation u32s: codec jnat "as_nat 32" "\<lambda>n. n < 2 ^ 32"
  by unfold_locales (simp add: as_nat_jnat, simp add: jnat_def)

interpretation effects: codec effect_json UnmarshalEffect effect_ok
  by unfold_locales (simp add: UnmarshalEffect_json, simp add: effect_json_def)

lemma get_children:
  "map_of fs nm = Some (if cs = [] then JNull else JArr (map (\<lambda>c. jnat (unat c)) cs)) \<Longrightarrow>
   get_field (as_list (as_nat 32) 0) [] fs nm = Some (map unat (cs :: u32 list))"
  using u32s.list_dec [of "map unat cs" 0] u32_bound by (auto simp: get_field_def comp_def simp del: as_list.simps)

lemma UnmarshalNode_json:
  assumes "node_plain p"
  shows "UnmarshalNode (node_json p) = Some p"
proof -
  have effs: "as_map Some UnmarshalEffect (JObj (map (\<lambda>(k, e). (to_valid k, effect_json e)) (Effects p))) = Some (Effects p)"
    using assms by (intro effects.map_dec) (auto simp: node_plain_def to_valid_id)
  have kids: "get_field (as_list (as_nat 32) 0) [] fs ''ChildrenPID'' = Some (map unat (ChildrenPID p))"
    if "node_json p = JObj fs" for fs
    using that by (intro get_children) (auto simp: node_json_def)
  show ?thesis
    using assms kids
    by (simp add: UnmarshalNode_def node_json_def json_get get_field_obj effs node_plain_def comp_def del: as_map.simps)
qed

interpretation nodes: codec node_json UnmarshalNode node_plain
  by unfold_locales (simp add: UnmarshalNode_json, simp add: node_json_def)

lemma pid_key_str: "pid_key (pid_str pid) = Some pid"
  using ParseUint_show [of 10 "unat pid" 32] u32_bound [of pid] by (simp add: pid_key_def dec_def)

lemma nodes_decoded:
  assumes "wf_map m" and "\<forall>(_, p) \<in> set m. node_plain p"
  shows "as_map pid_key UnmarshalNode (nodes_json m) = Some m"
  unfolding nodes_json_def
  by (rule nodes.map_dec) (use assms in \<open>auto simp: pid_key_str\<close>)

lemma UnmarshalSnapshot_json:
  assumes "snapshot_plain s"
  shows "UnmarshalSnapshot (snapshot_json s) = Some s"
proof -
  have m: "as_map pid_key UnmarshalNode (nodes_json (FByPID s)) = Some (FByPID s)"
    "as_map pid_key UnmarshalNode (nodes_json (FGhosts s)) = Some (FGhosts s)"
    using assms by (auto intro!: nodes_decoded simp: snapshot_plain_def)
  then show ?thesis
    using assms by (simp add: UnmarshalSnapshot_def snapshot_json_def json_get snapshot_plain_def get_field_obj nodes_json_def
        del: as_map.simps)
qed

interpretation snapshots: codec snapshot_json UnmarshalSnapshot snapshot_plain
  by unfold_locales (simp add: UnmarshalSnapshot_json, simp add: snapshot_json_def)

section \<open>The store\<close>

record SnapshotMeta =
  smID :: int
  smLabel :: string
  smTimestamp :: gotime

text \<open>The SQL statements of the store over a database \<open>'d\<close>; the left value of a sum is an error.\<close>

record 'd sqldb =
  sqInsert :: "string \<Rightarrow> gotime \<Rightarrow> json \<Rightarrow> 'd \<Rightarrow> (string + int) \<times> 'd"
  sqSelect :: "int \<Rightarrow> 'd \<Rightarrow> string + json option"
  sqList :: "'d \<Rightarrow> string + SnapshotMeta list"
  sqPrune :: "int \<Rightarrow> 'd \<Rightarrow> (string + int) \<times> 'd"
  sqDelete :: "int \<Rightarrow> 'd \<Rightarrow> string option \<times> 'd"

text \<open>
  What opening a database comes to: the directory, \<^verbatim>\<open>sql.Open\<close>, \<^verbatim>\<open>Ping\<close>, and the creation of the table.
\<close>

record 'd db_opening =
  opMkdir :: "string option"
  opOpen :: "string + 'd"
  opPing :: "string option"
  opCreate :: "'d \<Rightarrow> string option \<times> 'd"

definition Init :: "'d db_opening \<Rightarrow> 'd option \<Rightarrow> string option \<times> 'd option" where
  "Init op db =
     (case opMkdir op of
        Some err \<Rightarrow> (Some (''failed to create db directory: '' @ err), db)
      | None \<Rightarrow>
          (case opOpen op of
             Inl err \<Rightarrow> (Some (''failed to open database: '' @ err), None)
           | Inr d \<Rightarrow>
               (case opPing op of
                  Some err \<Rightarrow> (Some (''failed to ping database: '' @ err), Some d)
                | None \<Rightarrow>
                    (case opCreate op d of
                       (Some err, d') \<Rightarrow> (Some (''failed to create snapshots table: '' @ err), Some d')
                     | (None, d') \<Rightarrow> (None, Some d')))))"

definition uninitialized :: string where
  "uninitialized = ''database not initialized''"

definition SaveSnapshot :: "'d sqldb \<Rightarrow> string \<Rightarrow> FrozenSnapshot \<Rightarrow> 'd option \<Rightarrow> (string + int) \<times> 'd option" where
  "SaveSnapshot sq label snap db =
     (case db of
        None \<Rightarrow> (Inl uninitialized, None)
      | Some d \<Rightarrow>
          (case sqInsert sq label (Timestamp snap) (snapshot_json snap) d of
             (Inl err, d') \<Rightarrow> (Inl (''failed to insert snapshot: '' @ err), Some d')
           | (Inr i, d') \<Rightarrow> (Inr i, Some d')))"

definition LoadSnapshot :: "'d sqldb \<Rightarrow> int \<Rightarrow> 'd option \<Rightarrow> string + FrozenSnapshot" where
  "LoadSnapshot sq i db =
     (case db of
        None \<Rightarrow> Inl uninitialized
      | Some d \<Rightarrow>
          (case sqSelect sq i d of
             Inl err \<Rightarrow> Inl (''failed to query snapshot: '' @ err)
           | Inr None \<Rightarrow> Inl (''snapshot '' @ dec_int i @ '' not found'')
           | Inr (Some dat) \<Rightarrow>
               (case UnmarshalSnapshot dat of
                  None \<Rightarrow> Inl ''failed to unmarshal snapshot: ''
                | Some snap \<Rightarrow> Inr snap)))"

definition ListSnapshots :: "'d sqldb \<Rightarrow> 'd option \<Rightarrow> string + SnapshotMeta list" where
  "ListSnapshots sq db =
     (case db of
        None \<Rightarrow> Inl uninitialized
      | Some d \<Rightarrow>
          (case sqList sq d of Inl err \<Rightarrow> Inl (''failed to list snapshots: '' @ err) | Inr ms \<Rightarrow> Inr ms))"

definition PruneSnapshots :: "'d sqldb \<Rightarrow> int \<Rightarrow> 'd option \<Rightarrow> (string + int) \<times> 'd option" where
  "PruneSnapshots sq hours db =
     (case db of
        None \<Rightarrow> (Inr 0, None)
      | Some d \<Rightarrow>
          if hours \<le> 0 then (Inr 0, db)
          else (case sqPrune sq hours d of
                  (Inl err, d') \<Rightarrow> (Inl (''failed to prune snapshots: '' @ err), Some d')
                | (Inr n, d') \<Rightarrow> (Inr n, Some d')))"

definition DeleteSnapshot :: "'d sqldb \<Rightarrow> int \<Rightarrow> 'd option \<Rightarrow> string option \<times> 'd option" where
  "DeleteSnapshot sq i db =
     (case db of
        None \<Rightarrow> (Some uninitialized, None)
      | Some d \<Rightarrow>
          (case sqDelete sq i d of
             (Some err, d') \<Rightarrow> (Some (''failed to delete snapshot '' @ dec_int i @ '': '' @ err), Some d')
           | (None, d') \<Rightarrow> (None, Some d')))"

text \<open>
  What SQL promises: an insertion takes an identifier that no row has and changes no other row, and a
  deletion removes its row only.
\<close>

definition sql_laws :: "'d sqldb \<Rightarrow> bool" where
  "sql_laws sq \<longleftrightarrow>
     (\<forall>label t dat d i d'. sqInsert sq label t dat d = (Inr i, d') \<longrightarrow>
        sqSelect sq i d = Inr None \<and> sqSelect sq i d' = Inr (Some dat)
        \<and> (\<forall>k. k \<noteq> i \<longrightarrow> sqSelect sq k d' = sqSelect sq k d))
     \<and> (\<forall>i d d'. sqDelete sq i d = (None, d') \<longrightarrow>
        sqSelect sq i d' = Inr None \<and> (\<forall>k. k \<noteq> i \<longrightarrow> sqSelect sq k d' = sqSelect sq k d))"

text \<open>Statements that run on the store one after the other.\<close>

datatype store_op = OpSave string FrozenSnapshot | OpDelete int

fun store_step :: "'d sqldb \<Rightarrow> store_op \<Rightarrow> 'd option \<Rightarrow> 'd option" where
  "store_step sq (OpSave label snap) db = snd (SaveSnapshot sq label snap db)"
| "store_step sq (OpDelete i) db = snd (DeleteSnapshot sq i db)"

text \<open>A statement that fails changes nothing.\<close>

definition atomic_sql :: "'d sqldb \<Rightarrow> bool" where
  "atomic_sql sq \<longleftrightarrow>
     (\<forall>label t dat d e d'. sqInsert sq label t dat d = (Inl e, d') \<longrightarrow> d' = d)
     \<and> (\<forall>i d e d'. sqDelete sq i d = (Some e, d') \<longrightarrow> d' = d)"

lemma sql_insertD:
  "sql_laws sq \<Longrightarrow> sqInsert sq label t dat d = (Inr i, d') \<Longrightarrow>
   sqSelect sq i d = Inr None \<and> sqSelect sq i d' = Inr (Some dat) \<and> (\<forall>k. k \<noteq> i \<longrightarrow> sqSelect sq k d' = sqSelect sq k d)"
  unfolding sql_laws_def by blast

lemma sql_deleteD:
  "sql_laws sq \<Longrightarrow> sqDelete sq i d = (None, d') \<Longrightarrow> k \<noteq> i \<Longrightarrow> sqSelect sq k d' = sqSelect sq k d"
  unfolding sql_laws_def by blast

lemma sql_failedD:
  "atomic_sql sq \<Longrightarrow> sqInsert sq label t dat d = (Inl e, d') \<Longrightarrow> d' = d"
  "atomic_sql sq \<Longrightarrow> sqDelete sq i d = (Some e, d') \<Longrightarrow> d' = d"
  unfolding atomic_sql_def by blast+

lemma store_step_keeps:
  assumes "sql_laws sq" and "atomic_sql sq" and "op \<noteq> OpDelete i" and "sqSelect sq i d = Inr (Some j)"
  shows "\<exists>d'. store_step sq op (Some d) = Some d' \<and> sqSelect sq i d' = Inr (Some j)"
proof (cases op)
  case (OpSave label snap)
  obtain r d' where r: "sqInsert sq label (Timestamp snap) (snapshot_json snap) d = (r, d')" by fastforce
  show ?thesis
  proof (cases r)
    case (Inl e)
    with r sql_failedD(1) [OF assms(2)] have "d' = d" by blast
    with r Inl assms(4) OpSave show ?thesis by (simp add: SaveSnapshot_def)
  next
    case (Inr k)
    with sql_insertD [OF assms(1) r [unfolded Inr]] assms(4) have "sqSelect sq i d' = Inr (Some j)"
      by (cases "k = i") simp_all
    with r Inr OpSave show ?thesis by (simp add: SaveSnapshot_def)
  qed
next
  case (OpDelete k)
  obtain r d' where r: "sqDelete sq k d = (r, d')" by fastforce
  show ?thesis
  proof (cases r)
    case None
    with sql_deleteD [OF assms(1) r [unfolded None], of i] assms(3,4) OpDelete r show ?thesis
      by (simp add: DeleteSnapshot_def)
  next
    case (Some e)
    with r sql_failedD(2) [OF assms(2)] have "d' = d" by blast
    with r Some assms(4) OpDelete show ?thesis by (simp add: DeleteSnapshot_def)
  qed
qed

text \<open>
  C12: a saved snapshot whose strings are UTF-8 is loaded back exactly as it was, whatever is saved and deleted in
  between, as long as it is not deleted itself. (Of other strings \<^verbatim>\<open>json.Marshal\<close> replaces bytes.)
\<close>

theorem saved_snapshot_loads_back:
  assumes laws: "sql_laws sq" "atomic_sql sq" and plain: "snapshot_plain snap"
    and save: "SaveSnapshot sq label snap (Some d) = (Inr i, db)" and "OpDelete i \<notin> set ops"
  shows "LoadSnapshot sq i (fold (store_step sq) ops db) = Inr snap"
proof -
  from save obtain d1 where d1: "db = Some d1" "sqInsert sq label (Timestamp snap) (snapshot_json snap) d = (Inr i, d1)"
    by (auto simp: SaveSnapshot_def split: prod.splits sum.splits)
  have sel: "sqSelect sq i d1 = Inr (Some (snapshot_json snap))" using sql_insertD [OF laws(1) d1(2)] by simp
  have "\<exists>d'. fold (store_step sq) ops (Some d1) = Some d' \<and> sqSelect sq i d' = Inr (Some (snapshot_json snap))"
    using assms(5) sel
  proof (induction ops arbitrary: d1)
    case (Cons op ops)
    with store_step_keeps [OF laws, of op i d1] show ?case by fastforce
  qed simp
  with d1 show ?thesis by (auto simp: LoadSnapshot_def UnmarshalSnapshot_json [OF plain])
qed

text \<open>A table as a list of rows, with the next identifier: it has the laws.\<close>

type_synonym rows = "int \<times> (int \<times> string \<times> gotime \<times> json) list"

definition list_sql :: "rows sqldb" where
  "list_sql = \<lparr>sqInsert = \<lambda>label t dat (n, rs).
       if map_of rs n = None then (Inr n, (n + 1, (n, label, t, dat) # rs)) else (Inl ''constraint failed'', (n, rs)),
     sqSelect = \<lambda>i (n, rs). Inr (map_option (snd \<circ> snd) (map_of rs i)),
     sqList = \<lambda>(n, rs). Inr (map (\<lambda>(i, label, t, _). \<lparr>smID = i, smLabel = label, smTimestamp = t\<rparr>)
       (sort_slice (more_by (\<lambda>(i, label, t, _). t)) rs)),
     sqPrune = \<lambda>h (n, rs). (Inr 0, (n, rs)),
     sqDelete = \<lambda>i (n, rs). (None, (n, go_del i rs))\<rparr>"

lemma list_sql_laws: "sql_laws list_sql" "atomic_sql list_sql"
  by (auto simp: sql_laws_def atomic_sql_def list_sql_def split: if_splits)

lemma sample_snap_plain: "snapshot_plain sample_snap"
proof -
  have "utf8_valid ''strace''" "utf8_valid ''/bin/sh''" "utf8_valid ''sh''"
    by (rule utf8_valid_ascii; simp add: is_ascii_def)+
  then show ?thesis by (simp add: snapshot_plain_def node_plain_def sample_snap_def newNode_def wf_map_def)
qed

lemma saved_snapshot_loads_back_witness:
  "LoadSnapshot list_sql 1 (fold (store_step list_sql) [OpSave ''auto'' sample_snap, OpDelete 2]
     (snd (SaveSnapshot list_sql ''manual'' sample_snap (Some (1, []))))) = Inr sample_snap"
  by (rule saved_snapshot_loads_back [OF list_sql_laws sample_snap_plain, of "''manual''" "(1, [])"])
    (simp_all add: SaveSnapshot_def list_sql_def)

text \<open>
  \<^verbatim>\<open>db\<close> is set as soon as \<^verbatim>\<open>sql.Open\<close> succeeds: after an \<^verbatim>\<open>Init\<close> that fails later, the store is not disabled.
\<close>

lemma Init_failed_store_enabled:
  "opMkdir op = None \<Longrightarrow> opOpen op = Inr d \<Longrightarrow> opPing op = Some err \<Longrightarrow>
   Init op None = (Some (''failed to ping database: '' @ err), Some d)"
  by (simp add: Init_def)

end
