(* ===== verification/Tools.thy ===== *)
theory Tools
  imports Family
begin

text \<open>
  The tools offered to the language model (\<^verbatim>\<open>llm/bridge.go\<close>): their declarations, their dispatch to the
  queries of a snapshot, and the test for tools that the daemon has to run. A tool either returns
  text, fails, or panics; \<open>None\<close> is a tool that never returns. The arguments are the JSON values that
  \<^verbatim>\<open>encoding/json\<close> puts into a \<^verbatim>\<open>map[string]interface{}\<close>.
\<close>

section \<open>Arguments\<close>

type_synonym tool_args = "(string, json) gomap"

text \<open>
  What the tools need of the machine and the libraries: the two hosts, the orders of ranges, the layout
  of JSON text, the rounding of a division, \<^verbatim>\<open>strace\<close>, and the conversions of a \<^verbatim>\<open>float64\<close> to
  \<^verbatim>\<open>uint32\<close>, \<^verbatim>\<open>int\<close> and \<^verbatim>\<open>int64\<close>, which Go defines only for values in range.
\<close>

record toolenv =
  teHost :: host
  teMem :: memhost
  teOrders :: orders
  teRender :: "json \<Rightarrow> string"
  teRound :: "rat \<Rightarrow> rat"
  teStrace :: "string list \<Rightarrow> int \<Rightarrow> trace_outcome"
  teU32 :: "float64 \<Rightarrow> u32"
  teInt :: "float64 \<Rightarrow> int"

definition arg_float :: "tool_args \<Rightarrow> string \<Rightarrow> float64 option" where
  "arg_float args k = (case map_of args k of Some (JNum r) \<Rightarrow> Some r | _ \<Rightarrow> None)"

definition arg_string :: "tool_args \<Rightarrow> string \<Rightarrow> string option" where
  "arg_string args k = (case map_of args k of Some (JStr s) \<Rightarrow> Some s | _ \<Rightarrow> None)"

text \<open>The two-result type assertion leaves the zero value when the type is another.\<close>

definition or_zero :: "'a \<Rightarrow> 'a option \<Rightarrow> 'a" where
  "or_zero z x = (case x of None \<Rightarrow> z | Some v \<Rightarrow> v)"

definition arg_pid :: "toolenv \<Rightarrow> tool_args \<Rightarrow> u32" where
  "arg_pid env args = teU32 env (or_zero 0 (arg_float args ''pid''))"

section \<open>Running a tool\<close>

fun of_result :: "(json \<Rightarrow> string) \<Rightarrow> string + json \<Rightarrow> string go_result" where
  "of_result render (Inl e) = Failed e"
| "of_result render (Inr j) = Ok (render j)"

fun map_result :: "('a \<Rightarrow> 'b) \<Rightarrow> 'a go_result \<Rightarrow> 'b go_result" where
  "map_result f (Ok x) = Ok (f x)"
| "map_result f (Failed e) = Failed e"
| "map_result f (Panic e) = Panic e"

definition with_pid :: "tool_args \<Rightarrow> string go_result option \<Rightarrow> string go_result option" where
  "with_pid args run = (if map_of args ''pid'' = None then Some (Failed ''missing pid argument'') else run)"

definition hex_addr :: "string \<Rightarrow> string" where
  "hex_addr s = TrimPrefix (TrimSpace s) ''0x''"

fun num_error_text :: "num_error \<Rightarrow> string" where
  "num_error_text ErrSyntax = ''invalid syntax''"
| "num_error_text ErrRange = ''value out of range''"

text \<open>The error of \<^verbatim>\<open>strconv.ParseUint\<close>, and the value it returns beside the error.\<close>

definition parse_error :: "host \<Rightarrow> string \<Rightarrow> num_error \<Rightarrow> string" where
  "parse_error h s e = ''strconv.ParseUint: parsing '' @ fmt_q (hPrintable h) s @ '': '' @ num_error_text e"

definition parsed_or_bound :: "num_error + nat \<Rightarrow> u64" where
  "parsed_or_bound r = (case r of Inr n \<Rightarrow> of_nat n | Inl ErrSyntax \<Rightarrow> 0 | Inl ErrRange \<Rightarrow> - 1)"

definition run_read_memory :: "toolenv \<Rightarrow> tool_args \<Rightarrow> FrozenSnapshot \<Rightarrow> string go_result" where
  "run_read_memory env args snap =
     (case arg_string args ''address_hex'' of
        None \<Rightarrow> Failed ''missing or invalid address_hex argument''
      | Some a \<Rightarrow>
          (let addrStr = hex_addr a in
           case ParseUint 16 64 addrStr of
             Inl e \<Rightarrow> Failed (''invalid address_hex format '' @ [CHR 0x27] @ addrStr @ [CHR 0x27] @ '': ''
                        @ parse_error (teHost env) addrStr e)
           | Inr addr \<Rightarrow>
               fst (ReadMemory (teMem env) snap (arg_pid env args) (of_nat addr)
                 (case arg_float args ''size'' of None \<Rightarrow> 1024 | Some s \<Rightarrow> teInt env s))))"

definition run_read_region :: "toolenv \<Rightarrow> tool_args \<Rightarrow> string go_result" where
  "run_read_region env args =
     (let start = TrimPrefix (or_zero [] (arg_string args ''start'')) ''0x'';
          encoding = or_zero [] (arg_string args ''encoding'')
      in fst (ReadRegion (teMem env) (arg_pid env args) (parsed_or_bound (ParseUint 16 64 start))
           (teInt env (or_zero 0 (arg_float args ''size''))) (if encoding = [] then ''hex'' else encoding)))"

definition run_scan_heap :: "toolenv \<Rightarrow> tool_args \<Rightarrow> FrozenSnapshot \<Rightarrow> string go_result" where
  "run_scan_heap env args snap =
     (let mode = or_zero [] (arg_string args ''mode'') in
      map_result (\<lambda>r. teRender env (ScanHeap_json r))
        (fst (ScanHeap (teHost env) (teMem env) snap (arg_pid env args) (if mode = [] then ''quick'' else mode))))"

definition ExecuteToolOnSnapshot ::
  "toolenv \<Rightarrow> string \<Rightarrow> tool_args \<Rightarrow> FrozenSnapshot \<Rightarrow> string go_result option" where
  "ExecuteToolOnSnapshot env toolName args snap =
     (let h = teHost env; render = teRender env; pid = arg_pid env args in
      if toolName = ''summary'' then map_option (\<lambda>j. Ok (render j)) (SummaryJSON (teOrders env) snap)
      else if toolName = ''inspect'' then
        with_pid args (Some (of_result render (InspectJSON h (teOrders env) snap pid)))
      else if toolName = ''search'' then
        (case arg_string args ''query'' of
           None \<Rightarrow> Some (Failed ''missing query argument'')
         | Some query \<Rightarrow> Some (of_result render (SearchJSON h snap query)))
      else if toolName = ''family'' then
        with_pid args (map_option (map_result render) (ProcessFamilyJSON h snap pid))
      else if toolName = ''get_maps'' then Some (Ok (ReadProcessMaps h snap pid))
      else if toolName = ''get_libraries'' then Some (Ok (GetLinkedLibraries h snap pid))
      else if toolName = ''trace'' then
        Some (Ok (TraceSyscalls h (teStrace env) snap pid (teInt env (or_zero 5 (arg_float args ''duration'')))))
      else if toolName = ''read_file'' then
        Some (Ok (ReadFile (teRound env) (teMem env) (or_zero [] (arg_string args ''path''))
          (teInt env (or_zero 0 (arg_float args ''offset''))) (teInt env (or_zero 4096 (arg_float args ''limit'')))))
      else if toolName = ''read_memory'' then Some (run_read_memory env args snap)
      else if toolName = ''goread_shell_history'' then
        (case arg_string args ''user'' of
           None \<Rightarrow> Some (Failed ''missing user argument'')
         | Some user \<Rightarrow> Some (Ok (ReadShellHistory h snap user (teInt env (or_zero 50 (arg_float args ''limit''))))))
      else if toolName = ''gonetwork_state'' then with_pid args (Some (Ok (NetworkState h snap pid)))
      else if toolName = ''goread_environ'' then with_pid args (Some (Ok (ReadEnviron h snap pid)))
      else if toolName = ''goextract_strings'' then
        (case arg_string args ''path'' of
           None \<Rightarrow> Some (Failed ''missing path argument'')
         | Some path \<Rightarrow> Some (Ok (ExtractStrings h snap path (teInt env (or_zero 8 (arg_float args ''min_length''))))))
      else if toolName = ''scan_heap'' then Some (run_scan_heap env args snap)
      else if toolName = ''list_heap_regions'' then Some (of_result render (ListHeapRegions h snap pid))
      else if toolName = ''read_region'' then Some (run_read_region env args)
      else Some (Failed (''unknown or disabled tool: '' @ toolName)))"

definition IsPrivilegedTool :: "string \<Rightarrow> bool" where
  "IsPrivilegedTool name \<longleftrightarrow>
     name \<in> {''get_maps'', ''trace'', ''read_file'', ''read_memory'',
        ''goread_shell_history'', ''gonetwork_state'',
        ''goread_environ'', ''goextract_strings'', ''ssl_intercept'', ''scan_heap'',
        ''list_heap_regions'', ''read_region''}"

section \<open>The declarations\<close>

text \<open>A declaration without its prose: the name, the parameters with their JSON types, the required ones.\<close>

record Tool =
  tlName :: string
  tlParams :: "(string \<times> string) list"
  tlRequired :: "string list"

abbreviation pid_tool :: "string \<Rightarrow> Tool" where
  "pid_tool name \<equiv> \<lparr>tlName = name, tlParams = [(''pid'', ''integer'')], tlRequired = [''pid'']\<rparr>"

definition GetToolDefinitions :: "Tool list" where
  "GetToolDefinitions =
     [\<lparr>tlName = ''summary'', tlParams = [], tlRequired = []\<rparr>,
      pid_tool ''inspect'',
      \<lparr>tlName = ''search'', tlParams = [(''query'', ''string'')], tlRequired = [''query'']\<rparr>,
      pid_tool ''family'',
      pid_tool ''get_maps'',
      pid_tool ''get_libraries'',
      \<lparr>tlName = ''trace'', tlParams = [(''pid'', ''integer''), (''duration'', ''integer'')], tlRequired = [''pid'']\<rparr>,
      pid_tool ''scan_heap'',
      pid_tool ''list_heap_regions'',
      \<lparr>tlName = ''read_region'', tlParams = [(''pid'', ''integer''), (''start'', ''string''), (''size'', ''integer''),
         (''encoding'', ''string'')], tlRequired = [''pid'', ''start'', ''size'']\<rparr>,
      \<lparr>tlName = ''read_file'', tlParams = [(''path'', ''string''), (''offset'', ''integer''), (''limit'', ''integer'')],
         tlRequired = [''path'']\<rparr>,
      \<lparr>tlName = ''read_memory'', tlParams = [(''pid'', ''integer''), (''address_hex'', ''string''), (''size'', ''integer'')],
         tlRequired = [''pid'', ''address_hex'']\<rparr>,
      pid_tool ''gohash_binary'',
      \<lparr>tlName = ''goread_shell_history'', tlParams = [(''user'', ''string''), (''limit'', ''integer'')],
         tlRequired = [''user'']\<rparr>,
      pid_tool ''gonetwork_state'',
      pid_tool ''goread_environ'',
      \<lparr>tlName = ''goextract_strings'', tlParams = [(''path'', ''string''), (''min_length'', ''integer'')],
         tlRequired = [''path'']\<rparr>]"

section \<open>What the declarations promise\<close>

text \<open>A value of the JSON type that a declaration names.\<close>

fun json_typed :: "string \<Rightarrow> json \<Rightarrow> bool" where
  "json_typed t (JNum r) \<longleftrightarrow> t = ''integer'' \<and> r = of_int \<lfloor>r\<rfloor>"
| "json_typed t (JStr s) \<longleftrightarrow> t = ''string''"
| "json_typed t _ \<longleftrightarrow> False"

text \<open>A call that follows the declaration: required parameters are there, and all have their types.\<close>

definition conforms :: "Tool \<Rightarrow> tool_args \<Rightarrow> bool" where
  "conforms tool args \<longleftrightarrow>
     (\<forall>k \<in> set (tlRequired tool). map_of args k \<noteq> None)
     \<and> (\<forall>(k, j) \<in> set args. \<exists>t. (k, t) \<in> set (tlParams tool) \<and> json_typed t j)"

definition argument_errors :: "string list" where
  "argument_errors = [''missing pid argument'', ''missing query argument'', ''missing user argument'',
     ''missing path argument'', ''missing or invalid address_hex argument'']"

lemma conforms_string:
  assumes "conforms tool args" and "k \<in> set (tlRequired tool)"
    and "\<And>t. (k, t) \<in> set (tlParams tool) \<Longrightarrow> t = ''string''"
  shows "\<exists>s. arg_string args k = Some s"
proof -
  obtain j where j: "map_of args k = Some j" using assms(1,2) by (auto simp: conforms_def)
  then have "\<exists>t. (k, t) \<in> set (tlParams tool) \<and> json_typed t j"
    using assms(1) by (auto simp: conforms_def dest!: map_of_SomeD)
  then have "json_typed ''string'' j" using assms(3) by blast
  with j show ?thesis by (cases j) (simp_all add: arg_string_def)
qed

lemma conforms_required: "conforms tool args \<Longrightarrow> k \<in> set (tlRequired tool) \<Longrightarrow> map_of args k \<noteq> None"
  by (simp add: conforms_def)

lemma of_result_Failed [simp]: "of_result render r = Failed e \<longleftrightarrow> r = Inl e"
  by (cases r) simp_all

lemma map_result_Failed [simp]: "map_result f r = Failed e \<longleftrightarrow> r = Failed e"
  by (cases r) simp_all

text \<open>
  C28: a call that follows its declaration is dispatched: no tool is unknown and no argument is reported
  missing, except for \<^verbatim>\<open>gohash_binary\<close>, which is declared and never dispatched.
\<close>

theorem declared_tools_dispatched:
  assumes re: "\<And>p e. hCompile (teHost env) p = Inl e \<Longrightarrow> HasPrefix e ''error parsing regexp''"
    and tool: "tool \<in> set GetToolDefinitions" and ok: "conforms tool args"
    and run: "ExecuteToolOnSnapshot env (tlName tool) args snap = Some (Failed e)"
  shows "if tlName tool = ''gohash_binary'' then e = ''unknown or disabled tool: gohash_binary''
    else e \<notin> set argument_errors \<and> \<not> HasPrefix e ''unknown or disabled tool''"
proof -
  have head: "e \<notin> set argument_errors \<and> \<not> HasPrefix e ''unknown or disabled tool''"
    if "e \<noteq> []" "hd e \<noteq> CHR ''m''" "hd e \<noteq> CHR ''u''" for e
    using that by (cases e) (auto simp: argument_errors_def)
  have failed_inspect: "hd e = CHR ''p'' \<and> e \<noteq> []" if "InspectJSON h ord snap pid = Inl e" for h ord pid e
    using that by (auto simp: InspectJSON_def inspect_doc_def Let_def split: option.splits sum.splits)
  have failed_family: "hd e = CHR ''p'' \<and> e \<noteq> []" if "ProcessFamilyJSON h snap pid = Some (Failed e)" for h pid e
  proof -
    from that obtain r where "family_doc h snap pid = Some r" by (auto simp: ProcessFamilyJSON_def)
    with that have d: "family_doc h snap pid = Some r" "r = Failed e"
      by (cases r; simp add: ProcessFamilyJSON_def)+
    then obtain v where v: "find_lineage h snap pid = Some v" by (auto simp: family_doc_def bind_eq_Some_conv)
    show ?thesis
    proof (cases v)
      case (Inr w)
      with d v obtain z :: "string + FamilyNode list" where "(case z of Inl e \<Rightarrow> Panic e | Inr nodes \<Rightarrow> Ok (hd nodes)) = Failed e"
        by (auto simp: family_doc_def)
      then show ?thesis by (cases z) simp_all
    qed (use d v in \<open>auto simp: family_doc_def\<close>)
  qed
  have failed_search: "hd e = CHR ''e'' \<and> e \<noteq> []" if "SearchJSON (teHost env) snap q = Inl e" for q e
    using that re [of "''(?i)'' @ q" e]
    by (cases e) (auto simp: SearchJSON_def search_doc_def split: sum.splits)
  have failed_regions: "hd e \<in> {CHR ''p'', CHR ''e''} \<and> e \<noteq> []" if "ListHeapRegions h snap pid = Inl e" for h pid e
    using that by (auto simp: ListHeapRegions_def Let_def split: if_splits sum.splits)
  have failed_region: "hd e \<in> {CHR ''p'', CHR ''w'', CHR ''o'', CHR ''s'', CHR ''r''} \<and> e \<noteq> []"
    if "run_read_region env args = Failed e" for e
    using that by (auto simp: run_read_region_def Let_def ReadRegion_def ReadMemoryRaw_def ReadMemoryRawLocked_def
        split: go_result.splits prod.splits option.splits if_splits)
  have failed_mem: "hd e = CHR ''i'' \<and> e \<noteq> []" if "run_read_memory env args snap = Failed e" "arg_string args ''address_hex'' \<noteq> None" for e
    using that by (auto simp: run_read_memory_def Let_def ReadMemory_def
        split: go_result.splits prod.splits option.splits if_splits sum.splits)
  have failed_scan: "hd e = CHR ''p'' \<and> e \<noteq> []" if "run_scan_heap env args snap = Failed e" for e
  proof -
    let ?r = "fst (ScanHeap (teHost env) (teMem env) snap (arg_pid env args)
      (if or_zero [] (arg_string args ''mode'') = [] then ''quick'' else or_zero [] (arg_string args ''mode'')))"
    have "?r = Failed e" using that by (cases ?r) (simp_all add: run_scan_heap_def Let_def)
    then show ?thesis by (auto simp: ScanHeap_def Let_def split: option.splits sum.splits prod.splits)
  qed
  note dispatch = run [unfolded ExecuteToolOnSnapshot_def Let_def with_pid_def]
  have needs: "map_of args ''pid'' \<noteq> None" if "''pid'' \<in> set (tlRequired tool)"
    using conforms_required [OF ok that] .
  have addr: "\<exists>q. arg_string args ''address_hex'' = Some q" if "tlName tool = ''read_memory''"
    by (rule conforms_string [OF ok]) (use that tool in \<open>auto simp: GetToolDefinitions_def\<close>)
  from tool consider (quiet) "tlName tool \<in> {''summary'', ''get_maps'', ''get_libraries'', ''trace'', ''read_file''}"
    | (report) "tlName tool \<in> {''gonetwork_state'', ''goread_environ''}" "''pid'' \<in> set (tlRequired tool)"
    | (inspect) "tlName tool = ''inspect''" "''pid'' \<in> set (tlRequired tool)"
    | (family) "tlName tool = ''family''" "''pid'' \<in> set (tlRequired tool)"
    | (search) "tlName tool = ''search''" "\<exists>q. arg_string args ''query'' = Some q"
    | (history) "tlName tool = ''goread_shell_history''" "\<exists>q. arg_string args ''user'' = Some q"
    | (strings) "tlName tool = ''goextract_strings''" "\<exists>q. arg_string args ''path'' = Some q"
    | (memory) "tlName tool = ''read_memory''" "\<exists>q. arg_string args ''address_hex'' = Some q"
    | (scan) "tlName tool = ''scan_heap''" | (regions) "tlName tool = ''list_heap_regions''"
    | (region) "tlName tool = ''read_region''" | (hash) "tlName tool = ''gohash_binary''"
    using conforms_string [OF ok] addr by (auto simp: GetToolDefinitions_def)
  then show ?thesis
  proof cases
    case quiet
    with dispatch show ?thesis by auto
  next
    case report
    with dispatch needs show ?thesis by auto
  next
    case inspect
    with dispatch needs have "InspectJSON (teHost env) (teOrders env) snap (arg_pid env args) = Inl e" by simp
    from failed_inspect [OF this] inspect(1) head [of e] show ?thesis by simp
  next
    case family
    with dispatch needs have "ProcessFamilyJSON (teHost env) snap (arg_pid env args) = Some (Failed e)"
      by (auto simp: map_option_eq_Some)
    from failed_family [OF this] family(1) head [of e] show ?thesis by simp
  next
    case search
    with dispatch obtain q where "SearchJSON (teHost env) snap q = Inl e" by auto
    from failed_search [OF this] search(1) head [of e] show ?thesis by simp
  next
    case history
    with dispatch show ?thesis by auto
  next
    case strings
    with dispatch show ?thesis by auto
  next
    case memory
    with dispatch failed_mem [of e] head [of e] show ?thesis by auto
  next
    case scan
    with dispatch failed_scan [of e] head [of e] show ?thesis by auto
  next
    case regions
    with dispatch failed_regions [of "teHost env" "arg_pid env args" e] head [of e] show ?thesis by auto
  next
    case region
    with dispatch failed_region [of e] head [of e] show ?thesis by auto
  next
    case hash
    with dispatch show ?thesis by simp
  qed
qed

definition sample_env :: "(string \<Rightarrow> string + string) \<Rightarrow> toolenv" where
  "sample_env files = \<lparr>teHost = (sample_host files)\<lparr>hCompile := \<lambda>_. Inl ''error parsing regexp: none''\<rparr>,
     teMem = sample_mem [], teOrders = \<lambda>_. id, teRender = \<lambda>_. [], teRound = id,
     teStrace = \<lambda>_ _. TraceNotStarted ''none'', teU32 = \<lambda>r. of_int \<lfloor>r\<rfloor>, teInt = \<lambda>r. \<lfloor>r\<rfloor>\<rparr>"

lemma declared_tools_dispatched_witness:
  "ExecuteToolOnSnapshot (sample_env (\<lambda>_. Inl [])) ''gohash_binary'' [(''pid'', JNum 42)] sample_snap
     = Some (Failed ''unknown or disabled tool: gohash_binary'')
   \<and> pid_tool ''gohash_binary'' \<in> set GetToolDefinitions"
proof -
  obtain e where e: "ExecuteToolOnSnapshot (sample_env (\<lambda>_. Inl [])) ''gohash_binary'' [(''pid'', JNum 42)] sample_snap
      = Some (Failed e)"
    by (simp add: ExecuteToolOnSnapshot_def Let_def)
  have m: "pid_tool ''gohash_binary'' \<in> set GetToolDefinitions" by (simp add: GetToolDefinitions_def)
  have "conforms (pid_tool ''gohash_binary'') [(''pid'', JNum 42)]" by (simp add: conforms_def)
  from declared_tools_dispatched [OF _ m this, of "sample_env (\<lambda>_. Inl [])" sample_snap e] e m
  show ?thesis by (simp add: sample_env_def sample_host_def)
qed

end
