(* ===== verification/DaemonApi.thy ===== *)
theory DaemonApi
  imports SnapStore Tools
begin

text \<open>
  The HTTP interface between the daemon and its clients (\<^verbatim>\<open>daemon/server.go\<close>, \<^verbatim>\<open>client/client.go\<close>): the
  handlers over the tree and the store, the routes, what \<^verbatim>\<open>net/url\<close> makes of a URL, and the client's
  calls. The tree is an abstract state \<open>'t\<close> with the operation \<open>shot\<close> that takes a snapshot, or is stopped
  by the runtime with the whole process. A body is text or a JSON document. A handler that panics, or a process
  that ends, closes the connection; \<open>None\<close> is a handler that never returns.
\<close>

section \<open>Requests and responses\<close>

datatype body = BodyText string | BodyJson json

record request =
  rqMethod :: string
  rqPath :: string
  rqQuery :: "(string \<times> string) list"
  rqBody :: "json option"

record http_response =
  hrStatus :: int
  hrType :: string
  hrBody :: body

definition http_error :: "string \<Rightarrow> int \<Rightarrow> http_response" where
  "http_error msg code = \<lparr>hrStatus = code, hrType = ''text/plain; charset=utf-8'', hrBody = BodyText (msg @ nl)\<rparr>"

definition send_json :: "json \<Rightarrow> http_response" where
  "send_json j = \<lparr>hrStatus = 200, hrType = ''application/json'', hrBody = BodyJson j\<rparr>"

definition send_text :: "string \<Rightarrow> http_response" where
  "send_text s = \<lparr>hrStatus = 200, hrType = ''text/plain'', hrBody = BodyText s\<rparr>"

definition query_get :: "(string \<times> string) list \<Rightarrow> string \<Rightarrow> string" where
  "query_get q k = or_zero [] (map_of q k)"

definition not_allowed :: http_response where
  "not_allowed = http_error ''Method not allowed'' 405"

section \<open>The server\<close>

record ('t, 'd) server =
  svTree :: 't
  svDb :: "'d option"

type_synonym ('t, 'd) handled = "(http_response go_result \<times> ('t, 'd) server) option"

definition fatal_clash :: string where
  "fatal_clash = ''fatal error: concurrent map iteration and map write''"

definition handleSnapshot :: "('t \<Rightarrow> (FrozenSnapshot \<times> 't) option) \<Rightarrow> request \<Rightarrow> ('t, 'd) server \<Rightarrow> ('t, 'd) handled" where
  "handleSnapshot shot r s =
     (if rqMethod r \<noteq> ''GET'' then Some (Ok not_allowed, s)
      else case shot (svTree s) of
             None \<Rightarrow> Some (Panic fatal_clash, s)
           | Some (snap, t) \<Rightarrow> Some (Ok (send_json (snapshot_json snap)), s\<lparr>svTree := t\<rparr>))"

text \<open>The object in the body as a Go map: of equal keys the last wins; null is the nil map.\<close>

fun decode_args :: "json option \<Rightarrow> tool_args option" where
  "decode_args (Some (JObj fs)) = Some (fold (\<lambda>(k, j). go_put k j) fs [])"
| "decode_args (Some JNull) = Some []"
| "decode_args _ = None"

definition handleToolProxy ::
  "toolenv \<Rightarrow> ('t \<Rightarrow> (FrozenSnapshot \<times> 't) option) \<Rightarrow> request \<Rightarrow> ('t, 'd) server \<Rightarrow> ('t, 'd) handled" where
  "handleToolProxy env shot r s =
     (if rqMethod r \<noteq> ''POST'' then Some (Ok not_allowed, s)
      else let toolName = query_get (rqQuery r) ''name'' in
        if toolName = [] then Some (Ok (http_error ''Missing tool name parameter'' 400), s)
        else case decode_args (rqBody r) of
               None \<Rightarrow> Some (Ok (http_error ''Failed to parse tool args: '' 400), s)
             | Some args \<Rightarrow>
                 (case shot (svTree s) of
                    None \<Rightarrow> Some (Panic fatal_clash, s)
                  | Some (snap, t) \<Rightarrow>
                      map_option
                        (\<lambda>res. (case res of
                            Ok out \<Rightarrow> Ok (send_text out)
                          | Failed e \<Rightarrow> Ok (http_error (''Tool execution failed: '' @ e) 500)
                          | Panic e \<Rightarrow> Panic e, s\<lparr>svTree := t\<rparr>))
                        (ExecuteToolOnSnapshot env toolName args snap)))"

definition handleDBSave :: "'d sqldb \<Rightarrow> request \<Rightarrow> ('t, 'd) server \<Rightarrow> ('t, 'd) handled" where
  "handleDBSave sq r s =
     (if rqMethod r \<noteq> ''POST'' then Some (Ok not_allowed, s)
      else let label = (if query_get (rqQuery r) ''label'' = [] then ''manual'' else query_get (rqQuery r) ''label'') in
        case Option.bind (rqBody r) UnmarshalSnapshot of
          None \<Rightarrow> Some (Ok (http_error ''Failed to decode snapshot json: '' 400), s)
        | Some snap \<Rightarrow>
            (case SaveSnapshot sq label snap (svDb s) of
               (Inl e, db) \<Rightarrow> Some (Ok (http_error (''Failed to save snapshot: '' @ e) 500), s\<lparr>svDb := db\<rparr>)
             | (Inr i, db) \<Rightarrow> Some (Ok (send_json (JObj [(''id'', jint i)])), s\<lparr>svDb := db\<rparr>)))"

definition handleDBLoad :: "'d sqldb \<Rightarrow> request \<Rightarrow> ('t, 'd) server \<Rightarrow> ('t, 'd) handled" where
  "handleDBLoad sq r s =
     (if rqMethod r \<noteq> ''GET'' then Some (Ok not_allowed, s)
      else case Atoi (query_get (rqQuery r) ''id'') of
             (_, Some _) \<Rightarrow> Some (Ok (http_error ''Invalid ID parameter'' 400), s)
           | (i, None) \<Rightarrow>
               (case LoadSnapshot sq i (svDb s) of
                  Inl e \<Rightarrow> Some (Ok (http_error (''Failed to load snapshot: '' @ e) 500), s)
                | Inr snap \<Rightarrow> Some (Ok (send_json (snapshot_json snap)), s)))"

definition meta_json :: "SnapshotMeta \<Rightarrow> json" where
  "meta_json m = JObj [(''id'', jint (smID m)), (''label'', jstr (smLabel m)), (''timestamp'', JTime (smTimestamp m))]"

definition handleDBList :: "'d sqldb \<Rightarrow> request \<Rightarrow> ('t, 'd) server \<Rightarrow> ('t, 'd) handled" where
  "handleDBList sq r s =
     (if rqMethod r \<noteq> ''GET'' then Some (Ok not_allowed, s)
      else case ListSnapshots sq (svDb s) of
             Inl e \<Rightarrow> Some (Ok (http_error (''Failed to list snapshots: '' @ e) 500), s)
           | Inr metas \<Rightarrow> Some (Ok (send_json (JArr (map meta_json metas))), s))"

definition handleDBDelete :: "'d sqldb \<Rightarrow> request \<Rightarrow> ('t, 'd) server \<Rightarrow> ('t, 'd) handled" where
  "handleDBDelete sq r s =
     (if rqMethod r \<noteq> ''POST'' then Some (Ok not_allowed, s)
      else case Atoi (query_get (rqQuery r) ''id'') of
             (_, Some _) \<Rightarrow> Some (Ok (http_error ''Invalid ID parameter'' 400), s)
           | (i, None) \<Rightarrow>
               (case DeleteSnapshot sq i (svDb s) of
                  (Some e, db) \<Rightarrow> Some (Ok (http_error (''Failed to delete snapshot: '' @ e) 500), s\<lparr>svDb := db\<rparr>)
                | (None, db) \<Rightarrow> Some (Ok (send_text ''OK''), s\<lparr>svDb := db\<rparr>)))"

definition serve ::
  "toolenv \<Rightarrow> ('t \<Rightarrow> (FrozenSnapshot \<times> 't) option) \<Rightarrow> 'd sqldb \<Rightarrow> request \<Rightarrow> ('t, 'd) server \<Rightarrow> ('t, 'd) handled" where
  "serve env shot sq r s =
     (if rqPath r = ''/api/snapshot'' then handleSnapshot shot r s
      else if rqPath r = ''/api/tools'' then handleToolProxy env shot r s
      else if rqPath r = ''/api/db/save'' then handleDBSave sq r s
      else if rqPath r = ''/api/db/load'' then handleDBLoad sq r s
      else if rqPath r = ''/api/db/list'' then handleDBList sq r s
      else if rqPath r = ''/api/db/delete'' then handleDBDelete sq r s
      else Some (Ok (http_error ''404 page not found'' 404), s))"

text \<open>\<^verbatim>\<open>Start\<close> up to the point where it serves: the old socket, the listener, the permissions.\<close>

definition Start :: "string \<Rightarrow> string option \<Rightarrow> string option \<Rightarrow> string option \<Rightarrow> string option" where
  "Start socket rmErr listenErr chmodErr =
     (case rmErr of
        Some e \<Rightarrow> Some (''failed to remove existing socket '' @ socket @ '': '' @ e)
      | None \<Rightarrow>
          (case listenErr of
             Some e \<Rightarrow> Some (''failed to listen on socket '' @ socket @ '': '' @ e)
           | None \<Rightarrow> map_option (\<lambda>e. ''failed to chmod socket '' @ socket @ '': '' @ e) chmodErr))"

section \<open>URLs\<close>

text \<open>\<^verbatim>\<open>url.QueryUnescape\<close> and \<^verbatim>\<open>url.ParseQuery\<close>; a pair that does not parse is left out.\<close>

fun unescape :: "string \<Rightarrow> string option" where
  "unescape [] = Some []"
| "unescape (c # s) =
     (if c = CHR ''%'' then
        (case s of
           a # b # r \<Rightarrow>
             if is_digit 16 a \<and> is_digit 16 b
             then map_option ((#) (char_of (16 * digit_of a + digit_of b))) (unescape r) else None
         | _ \<Rightarrow> None)
      else map_option ((#) (if c = CHR ''+'' then CHR '' '' else c)) (unescape s))"

definition cut :: "char \<Rightarrow> string \<Rightarrow> string \<times> string" where
  "cut c s = (case IndexByte s c of None \<Rightarrow> (s, []) | Some i \<Rightarrow> (take i s, drop (Suc i) s))"

definition parse_pair :: "string \<Rightarrow> (string \<times> string) option" where
  "parse_pair p =
     (if p = [] \<or> CHR '';'' \<in> set p then None
      else let (k, v) = cut (CHR ''='') p in
        Option.bind (unescape k) (\<lambda>k'. map_option (Pair k') (unescape v)))"

definition parse_query :: "string \<Rightarrow> (string \<times> string) list" where
  "parse_query raw = List.map_filter parse_pair (split_byte (CHR ''&'') raw)"

definition ctl_byte :: "char \<Rightarrow> bool" where
  "ctl_byte c \<longleftrightarrow> (of_char c :: nat) < 32 \<or> (of_char c :: nat) = 127"

text \<open>
  One exchange over the socket. \<open>trDial\<close> is the error of a connection that fails; the other fields
  are the messages of \<^verbatim>\<open>net/http\<close>. What follows a \<^verbatim>\<open>#\<close> in the URL is not sent. A space in the
  query breaks the request line, which the server then rejects.
\<close>

record transport =
  trDial :: "string option"
  trEOF :: string
  trBadURL :: "string \<Rightarrow> string"

datatype net_error = BadURL string | NetError string

definition exchange ::
  "transport \<Rightarrow> (request \<Rightarrow> 's \<Rightarrow> (http_response go_result \<times> 's) option) \<Rightarrow> string \<Rightarrow> string \<Rightarrow> json option \<Rightarrow>
   's \<Rightarrow> ((net_error + http_response) \<times> 's) option" where
  "exchange tr srv meth url bdy s =
     (let (target, frag) = cut (CHR ''#'') url; (path, raw) = cut (CHR ''?'') target in
      if list_ex ctl_byte url \<or> unescape frag = None then Some (Inl (BadURL (trBadURL tr url)), s)
      else case trDial tr of
             Some e \<Rightarrow> Some (Inl (NetError e), s)
           | None \<Rightarrow>
               if CHR '' '' \<in> set raw then
                 Some (Inr \<lparr>hrStatus = 400, hrType = ''text/plain; charset=utf-8'', hrBody = BodyText ''400 Bad Request''\<rparr>, s)
               else map_option (\<lambda>(res, s'). (case res of Ok resp \<Rightarrow> Inr resp | _ \<Rightarrow> Inl (NetError (trEOF tr)), s'))
                 (srv \<lparr>rqMethod = meth, rqPath = path, rqQuery = parse_query raw, rqBody = bdy\<rparr> s))"

section \<open>The client\<close>

fun body_json :: "body \<Rightarrow> json option" where
  "body_json (BodyJson j) = Some j"
| "body_json (BodyText s) = None"

fun body_text :: "(json \<Rightarrow> string) \<Rightarrow> body \<Rightarrow> string" where
  "body_text render (BodyJson j) = render j"
| "body_text render (BodyText s) = s"

type_synonym 's caller =
  "string \<Rightarrow> string \<Rightarrow> json option \<Rightarrow> 's \<Rightarrow> ((net_error + http_response) \<times> 's) option"

fun call_error :: "string \<Rightarrow> string \<Rightarrow> net_error \<Rightarrow> string" where
  "call_error badurl neterr (BadURL e) = badurl @ e"
| "call_error badurl neterr (NetError e) = neterr @ e"

text \<open>What every call does with the answer; \<open>use\<close> reads the body of a status 200.\<close>

definition call_daemon ::
  "'s caller \<Rightarrow> (json \<Rightarrow> string) \<Rightarrow> (net_error \<Rightarrow> string) \<Rightarrow> (int \<Rightarrow> string \<Rightarrow> string) \<Rightarrow> (body \<Rightarrow> string + 'a) \<Rightarrow>
   string \<Rightarrow> string \<Rightarrow> json option \<Rightarrow> 's \<Rightarrow> ((string + 'a) \<times> 's) option" where
  "call_daemon call render neterr bad useBody meth url bdy s =
     map_option
       (\<lambda>(r, s'). (case r of
           Inl e \<Rightarrow> Inl (neterr e)
         | Inr resp \<Rightarrow>
             if hrStatus resp \<noteq> 200 then Inl (bad (hrStatus resp) (body_text render (hrBody resp)))
             else useBody (hrBody resp), s'))
       (call meth url bdy s)"

definition decode_or :: "string \<Rightarrow> (json \<Rightarrow> 'a option) \<Rightarrow> body \<Rightarrow> string + 'a" where
  "decode_or msg conv b = (case Option.bind (body_json b) conv of None \<Rightarrow> Inl msg | Some x \<Rightarrow> Inr x)"

definition daemon_error :: "string \<Rightarrow> int \<Rightarrow> string \<Rightarrow> string" where
  "daemon_error what code text1 = ''daemon '' @ what @ '' error ('' @ dec_int code @ ''): '' @ text1"

definition Client_GetSnapshot ::
  "'s caller \<Rightarrow> (json \<Rightarrow> string) \<Rightarrow> 's \<Rightarrow> ((string + FrozenSnapshot) \<times> 's) option" where
  "Client_GetSnapshot call render =
     call_daemon call render (call_error ''failed to fetch snapshot from daemon: '' ''failed to fetch snapshot from daemon: '') (\<lambda>code _. ''daemon returned status '' @ dec_int code)
       (decode_or ''failed to decode snapshot json: '' UnmarshalSnapshot) ''GET'' ''/api/snapshot'' None"

definition Client_ExecuteTool ::
  "'s caller \<Rightarrow> (json \<Rightarrow> string) \<Rightarrow> string \<Rightarrow> tool_args \<Rightarrow> 's \<Rightarrow> ((string + string) \<times> 's) option" where
  "Client_ExecuteTool call render toolName args =
     call_daemon call render (call_error ''failed to create tool request: '' ''daemon tool execution failed: '') (daemon_error ''tool'') (\<lambda>b. Inr (body_text render b))
       ''POST'' (''/api/tools?name='' @ toolName) (Some (JObj args))"

definition id_of :: "json \<Rightarrow> int option" where
  "id_of j = Option.bind (json_fields j) (\<lambda>fs. get_field as_int 0 fs ''id'')"

definition Client_SaveSnapshot ::
  "'s caller \<Rightarrow> (json \<Rightarrow> string) \<Rightarrow> string \<Rightarrow> FrozenSnapshot \<Rightarrow> 's \<Rightarrow> ((string + int) \<times> 's) option" where
  "Client_SaveSnapshot call render label snap =
     call_daemon call render (call_error ''failed to create save request: '' ''daemon save failed: '') (daemon_error ''save'')
       (decode_or ''failed to decode daemon save response: '' id_of)
       ''POST'' (''/api/db/save?label='' @ label) (Some (snapshot_json snap))"

definition Client_LoadSnapshot ::
  "'s caller \<Rightarrow> (json \<Rightarrow> string) \<Rightarrow> int \<Rightarrow> 's \<Rightarrow> ((string + FrozenSnapshot) \<times> 's) option" where
  "Client_LoadSnapshot call render i =
     call_daemon call render (call_error ''failed to request snapshot from daemon: '' ''failed to request snapshot from daemon: '') (daemon_error ''load'')
       (decode_or ''failed to decode daemon load response: '' UnmarshalSnapshot)
       ''GET'' (''/api/db/load?id='' @ dec_int i) None"

definition UnmarshalMeta :: "json \<Rightarrow> SnapshotMeta option" where
  "UnmarshalMeta j =
     Option.bind (json_fields j) (\<lambda>fs.
     Option.bind (get_field as_int 0 fs ''id'') (\<lambda>i.
     Option.bind (get_field as_string [] fs ''label'') (\<lambda>l.
     Option.bind (get_field as_time zeroTime fs ''timestamp'') (\<lambda>t.
     Some \<lparr>smID = i, smLabel = l, smTimestamp = t\<rparr>))))"

definition metas_of :: "json \<Rightarrow> SnapshotMeta list option" where
  "metas_of j = (if j = JNull then Some [] else as_list UnmarshalMeta \<lparr>smID = 0, smLabel = [], smTimestamp = zeroTime\<rparr> j)"

definition Client_ListSnapshots ::
  "'s caller \<Rightarrow> (json \<Rightarrow> string) \<Rightarrow> 's \<Rightarrow> ((string + SnapshotMeta list) \<times> 's) option" where
  "Client_ListSnapshots call render =
     call_daemon call render (call_error ''failed to request snapshot list from daemon: '' ''failed to request snapshot list from daemon: '') (daemon_error ''list'')
       (decode_or ''failed to decode daemon list response: '' metas_of) ''GET'' ''/api/db/list'' None"

definition Client_DeleteSnapshot ::
  "'s caller \<Rightarrow> (json \<Rightarrow> string) \<Rightarrow> int \<Rightarrow> 's \<Rightarrow> ((string + unit) \<times> 's) option" where
  "Client_DeleteSnapshot call render i =
     call_daemon call render (call_error ''failed to create delete request: '' ''daemon delete failed: '') (daemon_error ''delete'') (\<lambda>_. Inr ())
       ''POST'' (''/api/db/delete?id='' @ dec_int i) None"

section \<open>The client refines the store\<close>

definition url_plain :: "char \<Rightarrow> bool" where
  "url_plain c \<longleftrightarrow> \<not> ctl_byte c \<and> c \<notin> {CHR ''#'', CHR ''%'', CHR ''+'', CHR ''&'', CHR '';'', CHR '' ''}"

definition plain_text :: "string \<Rightarrow> bool" where
  "plain_text s \<longleftrightarrow> list_all url_plain s"

lemma plain_text_append [simp]: "plain_text (s @ t) \<longleftrightarrow> plain_text s \<and> plain_text t"
  by (simp add: plain_text_def)

lemma IndexByte_first: "c \<notin> set u \<Longrightarrow> IndexByte (u @ c # v) c = Some (length u)"
  by (induction u) auto

lemma cut_append: "c \<notin> set u \<Longrightarrow> cut c (u @ c # v) = (u, v)"
  by (simp add: cut_def IndexByte_first)

lemma cut_none: "c \<notin> set u \<Longrightarrow> cut c u = (u, [])"
  by (simp add: cut_def IndexByte_None [THEN iffD2])

lemma unescape_plain: "plain_text s \<Longrightarrow> unescape s = Some s"
  by (induction s rule: unescape.induct) (auto simp: url_plain_def plain_text_def)

lemma url_plain_no:
  "plain_text s \<Longrightarrow> CHR ''#'' \<notin> set s \<and> CHR ''&'' \<notin> set s \<and> CHR '';'' \<notin> set s \<and> CHR '' '' \<notin> set s \<and> \<not> list_ex ctl_byte s"
  by (induction s) (auto simp: url_plain_def plain_text_def)

lemma exchange_plain:
  assumes tr: "trDial tr = None" and plain: "plain_text (p @ k @ v)"
    and sep: "CHR ''?'' \<notin> set p" "CHR ''='' \<notin> set k"
  shows "exchange tr srv meth (p @ CHR ''?'' # k @ CHR ''='' # v) bdy s =
    map_option (\<lambda>(res, s'). (case res of Ok resp \<Rightarrow> Inr resp | _ \<Rightarrow> Inl (NetError (trEOF tr)), s'))
      (srv \<lparr>rqMethod = meth, rqPath = p, rqQuery = [(k, v)], rqBody = bdy\<rparr> s)"
proof -
  have no: "CHR ''#'' \<notin> set (p @ CHR ''?'' # k @ CHR ''='' # v)" "CHR '' '' \<notin> set (k @ CHR ''='' # v)"
    "CHR ''&'' \<notin> set (k @ CHR ''='' # v)" "CHR '';'' \<notin> set (k @ CHR ''='' # v)"
    "\<not> list_ex ctl_byte (p @ CHR ''?'' # k @ CHR ''='' # v)"
    using url_plain_no [of p] url_plain_no [of k] url_plain_no [of v] plain by (auto simp: ctl_byte_def)
  have "parse_query (k @ CHR ''='' # v) = [(k, v)]"
    using no plain by (simp add: parse_query_def split_byte_single parse_pair_def cut_append [OF sep(2)]
        unescape_plain map_filter_simps)
  then show ?thesis
    using tr no by (simp add: exchange_def cut_none [OF no(1)] cut_append [OF sep(1)])
qed

lemma exchange_path:
  assumes "trDial tr = None" and "plain_text p" and "CHR ''?'' \<notin> set p"
  shows "exchange tr srv meth p bdy s =
    map_option (\<lambda>(res, s'). (case res of Ok resp \<Rightarrow> Inr resp | _ \<Rightarrow> Inl (NetError (trEOF tr)), s'))
      (srv \<lparr>rqMethod = meth, rqPath = p, rqQuery = [], rqBody = bdy\<rparr> s)"
proof -
  have "CHR ''#'' \<notin> set p" "\<not> list_ex ctl_byte p" using url_plain_no [OF assms(2)] by auto
  with assms show ?thesis by (simp add: exchange_def cut_none parse_query_def parse_pair_def map_filter_simps)
qed

lemma dec_int_plain: "plain_text (dec_int i)"
proof -
  have "plain_text (dec n)" for n
    unfolding plain_text_def using dec_digits(1) [of n]
    by (rule list.pred_mono_strong) (auto simp: is_digit_def digit_val_def url_plain_def ctl_byte_def Let_def split: if_splits)
  moreover have "url_plain (CHR ''-'')" by (simp add: url_plain_def ctl_byte_def)
  ultimately show ?thesis by (simp add: dec_int_def plain_text_def)
qed

definition int64 :: "int \<Rightarrow> bool" where
  "int64 i \<longleftrightarrow> - (2 ^ 63) \<le> i \<and> i < 2 ^ 63"

lemma id_of_sent: "int64 i \<Longrightarrow> id_of (JObj [(''id'', jint i)]) = Some i"
  by (simp add: id_of_def int64_def get_field_jint)

text \<open>The server as its clients see it, when the socket is there.\<close>

definition daemon_call ::
  "transport \<Rightarrow> toolenv \<Rightarrow> ('t \<Rightarrow> (FrozenSnapshot \<times> 't) option) \<Rightarrow> 'd sqldb \<Rightarrow> ('t, 'd) server caller" where
  "daemon_call tr env shot sq = exchange tr (serve env shot sq)"

lemma daemon_call_query:
  assumes "trDial tr = None" and "plain_text p" "plain_text k" "plain_text v"
    and "CHR ''?'' \<notin> set p" "CHR ''='' \<notin> set k"
    and "url = p @ CHR ''?'' # k @ CHR ''='' # v"
    and "serve env shot sq \<lparr>rqMethod = meth, rqPath = p, rqQuery = [(k, v)], rqBody = bdy\<rparr> s = Some (Ok resp, s')"
  shows "daemon_call tr env shot sq meth url bdy s = Some (Inr resp, s')"
  using assms exchange_plain [OF assms(1) _ assms(5,6), of v "serve env shot sq" meth bdy s] by (simp add: daemon_call_def)

lemma daemon_call_path:
  assumes "trDial tr = None" and "plain_text p" and "CHR ''?'' \<notin> set p"
    and "serve env shot sq \<lparr>rqMethod = meth, rqPath = p, rqQuery = [], rqBody = bdy\<rparr> s = Some (Ok resp, s')"
  shows "daemon_call tr env shot sq meth p bdy s = Some (Inr resp, s')"
  using assms exchange_path [OF assms(1-3), of "serve env shot sq" meth bdy s] by (simp add: daemon_call_def)

text \<open>How the client reports an error of the daemon's store.\<close>

definition remote_error :: "string \<Rightarrow> string \<Rightarrow> string \<Rightarrow> string" where
  "remote_error what msg e = daemon_error what 500 (msg @ e @ nl)"

lemmas client_calls = call_daemon_def decode_or_def send_json_def send_text_def http_error_def serve_def remote_error_def

lemma api_paths_plain [simp]:
  "plain_text ''/api/snapshot''" "plain_text ''/api/db/save''" "plain_text ''label''"
  "plain_text ''/api/db/load''" "plain_text ''/api/db/list''" "plain_text ''/api/db/delete''" "plain_text ''id''"
  by (simp_all add: plain_text_def url_plain_def ctl_byte_def)

lemma Atoi_int64: "int64 i \<Longrightarrow> Atoi (dec_int i) = (i, None)"
  by (simp add: int64_def Atoi_dec_int)

lemma query_get_single [simp]: "query_get [(k, v)] k = v"
  by (simp add: query_get_def or_zero_def)

lemma Client_GetSnapshot_daemon:
  assumes "trDial tr = None" and "shot (svTree s) = Some (snap, t)" and "snapshot_plain snap"
  shows "Client_GetSnapshot (daemon_call tr env shot sq) render s = Some (Inr snap, s\<lparr>svTree := t\<rparr>)"
proof -
  have "daemon_call tr env shot sq ''GET'' ''/api/snapshot'' None s =
    Some (Inr (send_json (snapshot_json snap)), s\<lparr>svTree := t\<rparr>)"
    by (rule daemon_call_path [OF assms(1)])
      (simp_all add: serve_def handleSnapshot_def assms(2))
  then show ?thesis by (simp add: Client_GetSnapshot_def client_calls UnmarshalSnapshot_json [OF assms(3)])
qed

definition save_label :: "string \<Rightarrow> string" where
  "save_label label = (if label = [] then ''manual'' else label)"

lemma Client_SaveSnapshot_daemon:
  assumes "trDial tr = None" and "plain_text label" and "snapshot_plain snap"
    and save: "SaveSnapshot sq (save_label label) snap (svDb s) = (r, db)" and "\<forall>i. r = Inr i \<longrightarrow> int64 i"
  shows "Client_SaveSnapshot (daemon_call tr env shot sq) render label snap s =
    Some (map_sum (remote_error ''save'' ''Failed to save snapshot: '') id r, s\<lparr>svDb := db\<rparr>)"
proof -
  have "daemon_call tr env shot sq ''POST'' (''/api/db/save?label='' @ label) (Some (snapshot_json snap)) s =
    Some (Inr (case r of Inl e \<Rightarrow> http_error (''Failed to save snapshot: '' @ e) 500
      | Inr i \<Rightarrow> send_json (JObj [(''id'', jint i)])), s\<lparr>svDb := db\<rparr>)"
    by (rule daemon_call_query [OF assms(1), of "''/api/db/save''" "''label''" label])
      (use save in \<open>auto simp: serve_def handleDBSave_def save_label_def assms(2,3) UnmarshalSnapshot_json split: sum.splits\<close>)
  then show ?thesis
    using assms(5) by (cases r) (simp_all add: Client_SaveSnapshot_def client_calls id_of_sent)
qed

lemma Client_LoadSnapshot_daemon:
  assumes "trDial tr = None" and "int64 i"
    and "\<forall>snap. LoadSnapshot sq i (svDb s) = Inr snap \<longrightarrow> snapshot_plain snap"
  shows "Client_LoadSnapshot (daemon_call tr env shot sq) render i s =
    Some (map_sum (remote_error ''load'' ''Failed to load snapshot: '') id (LoadSnapshot sq i (svDb s)), s)"
proof -
  have "daemon_call tr env shot sq ''GET'' (''/api/db/load?id='' @ dec_int i) None s =
    Some (Inr (case LoadSnapshot sq i (svDb s) of Inl e \<Rightarrow> http_error (''Failed to load snapshot: '' @ e) 500
      | Inr snap \<Rightarrow> send_json (snapshot_json snap)), s)"
    by (rule daemon_call_query [OF assms(1), of "''/api/db/load''" "''id''" "dec_int i"])
      (simp_all add: serve_def handleDBLoad_def Atoi_int64 assms(2) dec_int_plain split: sum.split)
  then show ?thesis
    using assms(3) by (cases "LoadSnapshot sq i (svDb s)") (simp_all add: Client_LoadSnapshot_def client_calls UnmarshalSnapshot_json)
qed

definition meta_plain :: "SnapshotMeta \<Rightarrow> bool" where
  "meta_plain m \<longleftrightarrow> int64 (smID m) \<and> utf8_valid (smLabel m)"

interpretation metas: codec meta_json UnmarshalMeta meta_plain
  by unfold_locales
    (simp add: UnmarshalMeta_def meta_json_def meta_plain_def int64_def json_get get_field_simps, simp add: meta_json_def)

lemma Client_ListSnapshots_daemon:
  assumes "trDial tr = None" and "\<forall>ms. ListSnapshots sq (svDb s) = Inr ms \<longrightarrow> (\<forall>m \<in> set ms. meta_plain m)"
  shows "Client_ListSnapshots (daemon_call tr env shot sq) render s =
    Some (map_sum (remote_error ''list'' ''Failed to list snapshots: '') id (ListSnapshots sq (svDb s)), s)"
proof -
  have "daemon_call tr env shot sq ''GET'' ''/api/db/list'' None s =
    Some (Inr (case ListSnapshots sq (svDb s) of Inl e \<Rightarrow> http_error (''Failed to list snapshots: '' @ e) 500
      | Inr ms \<Rightarrow> send_json (JArr (map meta_json ms))), s)"
    by (rule daemon_call_path [OF assms(1)]) (simp_all add: serve_def handleDBList_def split: sum.split)
  then show ?thesis
    using assms(2)
    by (cases "ListSnapshots sq (svDb s)")
      (simp_all add: Client_ListSnapshots_def client_calls metas_of_def metas.list_dec del: as_list.simps)
qed

lemma Client_DeleteSnapshot_daemon:
  assumes "trDial tr = None" and "int64 i" and del: "DeleteSnapshot sq i (svDb s) = (r, db)"
  shows "Client_DeleteSnapshot (daemon_call tr env shot sq) render i s =
    Some (case r of None \<Rightarrow> Inr () | Some e \<Rightarrow> Inl (remote_error ''delete'' ''Failed to delete snapshot: '' e),
      s\<lparr>svDb := db\<rparr>)"
proof -
  have "daemon_call tr env shot sq ''POST'' (''/api/db/delete?id='' @ dec_int i) None s =
    Some (Inr (case r of Some e \<Rightarrow> http_error (''Failed to delete snapshot: '' @ e) 500 | None \<Rightarrow> send_text ''OK''),
      s\<lparr>svDb := db\<rparr>)"
    by (rule daemon_call_query [OF assms(1), of "''/api/db/delete''" "''id''" "dec_int i"])
      (simp_all add: serve_def handleDBDelete_def Atoi_int64 assms(2) del dec_int_plain split: option.split)
  then show ?thesis by (cases r) (simp_all add: Client_DeleteSnapshot_def client_calls)
qed

lemma decode_args_sent:
  assumes "wf_map args"
  shows "decode_args (Some (JObj args)) = Some args"
proof -
  have "distinct (map fst (m @ xs)) \<Longrightarrow> fold (\<lambda>(k, j). go_put k j) xs m = m @ xs" for m xs :: tool_args
    by (induction xs arbitrary: m) (auto simp: go_put_fresh)
  from this [of "[]" args] assms show ?thesis by (simp add: wf_map_def)
qed

lemma daemon_call_panic:
  assumes "trDial tr = None" and "plain_text p" "plain_text k" "plain_text v"
    and "CHR ''?'' \<notin> set p" "CHR ''='' \<notin> set k"
    and "url = p @ CHR ''?'' # k @ CHR ''='' # v"
    and "serve env shot sq \<lparr>rqMethod = meth, rqPath = p, rqQuery = [(k, v)], rqBody = bdy\<rparr> s = Some (Panic e, s')"
  shows "daemon_call tr env shot sq meth url bdy s = Some (Inl (NetError (trEOF tr)), s')"
  using assms exchange_plain [OF assms(1) _ assms(5,6), of v "serve env shot sq" meth bdy s] by (simp add: daemon_call_def)

text \<open>The result of a tool, as the client sees it.\<close>

fun remote_result :: "transport \<Rightarrow> string go_result \<Rightarrow> string + string" where
  "remote_result tr (Ok out) = Inr out"
| "remote_result tr (Failed e) = Inl (remote_error ''tool'' ''Tool execution failed: '' e)"
| "remote_result tr (Panic e) = Inl (''daemon tool execution failed: '' @ trEOF tr)"

lemma Client_ExecuteTool_daemon:
  assumes "trDial tr = None" and "plain_text toolName" and "toolName \<noteq> []" and "wf_map args"
    and shot: "shot (svTree s) = Some (snap, t)" and res: "ExecuteToolOnSnapshot env toolName args snap = Some res"
  shows "Client_ExecuteTool (daemon_call tr env shot sq) render toolName args s =
    Some (remote_result tr res, s\<lparr>svTree := t\<rparr>)"
proof -
  let ?call = "daemon_call tr env shot sq ''POST'' (''/api/tools?name='' @ toolName) (Some (JObj args)) s"
  have plain: "plain_text ''/api/tools''" "plain_text ''name''"
    by (simp_all add: plain_text_def url_plain_def ctl_byte_def)
  note serve = serve_def handleToolProxy_def decode_args_sent [OF assms(4)] assms(3) shot res
  show ?thesis
  proof (cases res)
    case (Ok out)
    have "?call = Some (Inr (send_text out), s\<lparr>svTree := t\<rparr>)"
      by (rule daemon_call_query [OF assms(1) plain assms(2)]) (simp_all add: serve Ok del: decode_args.simps)
    with Ok show ?thesis by (simp add: Client_ExecuteTool_def client_calls)
  next
    case (Failed e)
    have "?call = Some (Inr (http_error (''Tool execution failed: '' @ e) 500), s\<lparr>svTree := t\<rparr>)"
      by (rule daemon_call_query [OF assms(1) plain assms(2)]) (simp_all add: serve Failed del: decode_args.simps)
    with Failed show ?thesis by (simp add: Client_ExecuteTool_def client_calls)
  next
    case (Panic e)
    have "?call = Some (Inl (NetError (trEOF tr)), s\<lparr>svTree := t\<rparr>)"
      by (rule daemon_call_panic [OF assms(1) plain assms(2)]) (simp_all add: serve Panic del: decode_args.simps)
    with Panic show ?thesis by (simp add: Client_ExecuteTool_def client_calls)
  qed
qed

text \<open>
  C6: the daemon is transparent. When it can be reached and the taking of a snapshot is not stopped, each call of
  the client does to the daemon's tree and store what the operation would do if called directly, and returns what
  it returns: snapshots whose strings are UTF-8 and 64-bit identifiers arrive unchanged, errors arrive with the
  daemon's status. A label and the name of a tool must hold no characters that are special in URLs, since the
  client does not escape them. A tool runs on a snapshot taken at the time of the call, and its panic arrives as a
  connection error.
\<close>

theorem daemon_transparent:
  assumes up: "trDial tr = None" and call: "call = daemon_call tr env shot sq"
    and shot: "shot (svTree s) = Some (snap, t)" and plain: "snapshot_plain snap" "snapshot_plain snap'"
    and label: "plain_text label" and name: "plain_text toolName" "toolName \<noteq> []" and args: "wf_map args"
    and run: "ExecuteToolOnSnapshot env toolName args snap = Some res"
    and save: "SaveSnapshot sq (save_label label) snap' (svDb s) = (saved, db1)" "\<forall>i. saved = Inr i \<longrightarrow> int64 i"
    and i: "int64 i" and load: "\<forall>old. LoadSnapshot sq i (svDb s) = Inr old \<longrightarrow> snapshot_plain old"
    and del: "DeleteSnapshot sq i (svDb s) = (deleted, db2)"
    and listed: "\<forall>ms. ListSnapshots sq (svDb s) = Inr ms \<longrightarrow> (\<forall>m \<in> set ms. meta_plain m)"
  shows "Client_GetSnapshot call render s = Some (Inr snap, s\<lparr>svTree := t\<rparr>)
    \<and> Client_ExecuteTool call render toolName args s = Some (remote_result tr res, s\<lparr>svTree := t\<rparr>)
    \<and> Client_SaveSnapshot call render label snap' s =
        Some (map_sum (remote_error ''save'' ''Failed to save snapshot: '') id saved, s\<lparr>svDb := db1\<rparr>)
    \<and> Client_LoadSnapshot call render i s =
        Some (map_sum (remote_error ''load'' ''Failed to load snapshot: '') id (LoadSnapshot sq i (svDb s)), s)
    \<and> Client_ListSnapshots call render s =
        Some (map_sum (remote_error ''list'' ''Failed to list snapshots: '') id (ListSnapshots sq (svDb s)), s)
    \<and> Client_DeleteSnapshot call render i s =
        Some (case deleted of None \<Rightarrow> Inr () | Some e \<Rightarrow> Inl (remote_error ''delete'' ''Failed to delete snapshot: '' e),
          s\<lparr>svDb := db2\<rparr>)"
  unfolding call
  using Client_GetSnapshot_daemon [where shot = shot, OF up shot plain(1)] Client_ExecuteTool_daemon [where shot = shot, OF up name args shot run]
    Client_SaveSnapshot_daemon [OF up label plain(2) save] Client_LoadSnapshot_daemon [OF up i load]
    Client_DeleteSnapshot_daemon [OF up i del] Client_ListSnapshots_daemon [OF up listed]
  by blast

text \<open>A daemon whose store holds one snapshot: every operation, a tool and the save of a second one included.\<close>

definition sample_server :: "(unit, rows) server" where
  "sample_server = \<lparr>svTree = (), svDb = snd (SaveSnapshot list_sql ''manual'' sample_snap (Some (1, [])))\<rparr>"

definition sample_daemon :: "(unit, rows) server caller" where
  "sample_daemon = daemon_call \<lparr>trDial = None, trEOF = ''EOF'', trBadURL = (\<lambda>_. [])\<rparr> (sample_env (\<lambda>_. Inl []))
     (\<lambda>t. Some (sample_snap, t)) list_sql"

lemma daemon_transparent_witness:
  "\<exists>s' s''. \<forall>render.
     Client_GetSnapshot sample_daemon render sample_server = Some (Inr sample_snap, sample_server)
   \<and> (\<exists>out. Client_ExecuteTool sample_daemon render ''get_maps'' [] sample_server = Some (Inr out, sample_server))
   \<and> Client_SaveSnapshot sample_daemon render ''auto'' sample_snap sample_server = Some (Inr 2, s')
   \<and> Client_LoadSnapshot sample_daemon render 1 sample_server = Some (Inr sample_snap, sample_server)
   \<and> Client_ListSnapshots sample_daemon render sample_server =
       Some (Inr [\<lparr>smID = 1, smLabel = ''manual'', smTimestamp = Timestamp sample_snap\<rparr>], sample_server)
   \<and> Client_DeleteSnapshot sample_daemon render 1 sample_server = Some (Inr (), s'')"
proof -
  let ?tr = "\<lparr>trDial = None, trEOF = ''EOF'', trBadURL = (\<lambda>_. [])\<rparr> :: transport" and ?env = "sample_env (\<lambda>_. Inl [])"
  let ?maps = "ReadProcessMaps (teHost ?env) sample_snap (arg_pid ?env [])"
  obtain db where db: "svDb sample_server = Some db" "db = (2, [(1, ''manual'', Timestamp sample_snap, snapshot_json sample_snap)])"
    by (simp add: sample_server_def SaveSnapshot_def list_sql_def)
  have run: "ExecuteToolOnSnapshot ?env ''get_maps'' [] sample_snap = Some (Ok ?maps)"
    by (simp add: ExecuteToolOnSnapshot_def Let_def)
  obtain db1 where save: "SaveSnapshot list_sql (save_label ''auto'') sample_snap (svDb sample_server) = (Inr 2, db1)"
    by (simp add: db SaveSnapshot_def list_sql_def)
  obtain db2 where del: "DeleteSnapshot list_sql 1 (svDb sample_server) = (None, db2)"
    by (simp add: db DeleteSnapshot_def list_sql_def)
  have load: "LoadSnapshot list_sql 1 (svDb sample_server) = Inr sample_snap"
    by (simp add: db LoadSnapshot_def list_sql_def UnmarshalSnapshot_json [OF sample_snap_plain])
  have listed: "ListSnapshots list_sql (svDb sample_server) = Inr [\<lparr>smID = 1, smLabel = ''manual'', smTimestamp = Timestamp sample_snap\<rparr>]"
    by (simp add: db ListSnapshots_def list_sql_def sort_slice_def)
  have "utf8_valid ''manual''" by (rule utf8_valid_ascii) (simp add: is_ascii_def)
  then have meta: "meta_plain \<lparr>smID = 1, smLabel = ''manual'', smTimestamp = Timestamp sample_snap\<rparr>"
    by (simp add: meta_plain_def int64_def del: utf8_valid.simps)
  have plain: "plain_text ''auto''" "plain_text ''get_maps''"
    by (simp_all add: plain_text_def url_plain_def ctl_byte_def)
  have same: "sample_server\<lparr>svTree := t\<rparr> = sample_server" for t by simp
  note transparent = daemon_transparent [where shot = "\<lambda>t. Some (sample_snap, t)" and tr = ?tr, OF _ refl refl sample_snap_plain
      sample_snap_plain plain(1) plain(2) _ _ run save _ _ _ del, unfolded sample_daemon_def [symmetric] load listed same]
  have nil: "wf_map ([] :: tool_args)" by (simp add: wf_map_def)
  have "Client_GetSnapshot sample_daemon render sample_server = Some (Inr sample_snap, sample_server)
    \<and> Client_ExecuteTool sample_daemon render ''get_maps'' [] sample_server = Some (Inr ?maps, sample_server)
    \<and> Client_SaveSnapshot sample_daemon render ''auto'' sample_snap sample_server = Some (Inr 2, sample_server\<lparr>svDb := db1\<rparr>)
    \<and> Client_LoadSnapshot sample_daemon render 1 sample_server = Some (Inr sample_snap, sample_server)
    \<and> Client_ListSnapshots sample_daemon render sample_server =
        Some (Inr [\<lparr>smID = 1, smLabel = ''manual'', smTimestamp = Timestamp sample_snap\<rparr>], sample_server)
    \<and> Client_DeleteSnapshot sample_daemon render 1 sample_server = Some (Inr (), sample_server\<lparr>svDb := db2\<rparr>)" for render
    using transparent nil meta sample_snap_plain by (simp add: int64_def same)
  then show ?thesis by blast
qed

text \<open>
  A label is put into the URL as it is: what follows an \<^verbatim>\<open>&\<close> is another parameter.
\<close>

lemma label_cut_at_ampersand:
  "query_get (parse_query (''label='' @ ''a&b'')) ''label'' = ''a''"
  by (simp add: parse_query_def parse_pair_def cut_def query_get_def or_zero_def map_filter_simps)

end
