(* ===== verification/Config.thy ===== *)
theory Config
  imports SnapStore Tools
begin

text \<open>
  The configuration (\<^verbatim>\<open>config/config.go\<close>): its defaults, where its file is, \<^verbatim>\<open>Load\<close> and \<^verbatim>\<open>Save\<close>. The API
  key lives in the keyring of the desktop session, a service behind the record \<open>keyring\<close>; the session is
  found through the environment, which \<^verbatim>\<open>bridgeDBus\<close> changes. A file holds a JSON document, or a text
  that is none (\<open>None\<close>).
\<close>

record Config =
  cfAPIKey :: string
  cfVTApiKey :: string
  cfAbuseIPKey :: string
  cfModel :: string
  cfEndpoint :: string
  cfSnapshotIntervalMin :: int
  cfGhostProcessRetentionSec :: int
  cfDBSnapshotRetentionHours :: int
  cfSnapshotConcurrency :: int
  cfDBPath :: string
  cfSocketPath :: string
  cfProcPath :: string
  cfSysPath :: string
  cfEnrichmentWorkers :: int
  cfMaxEffectsPerProcess :: int
  cfCaptureNetwork :: bool
  cfCaptureFileIO :: bool
  cfIgnoredProcesses :: "string list"
  cfStracePath :: string

text \<open>The machine: the environment, the user, the files.\<close>

record machine =
  mcEnv :: "(string, string) gomap"
  mcUid :: int
  mcExists :: "string \<Rightarrow> bool"
  mcFiles :: "(string, json option) gomap"
  mcMkdir :: "string \<Rightarrow> string option"
  mcWrite :: "string \<Rightarrow> string option"

record 'k keyring =
  krGet :: "string \<Rightarrow> string \<Rightarrow> string \<Rightarrow> 'k \<Rightarrow> string + string"
  krSet :: "string \<Rightarrow> string \<Rightarrow> string \<Rightarrow> string \<Rightarrow> 'k \<Rightarrow> string option \<times> 'k"

definition getenv :: "machine \<Rightarrow> string \<Rightarrow> string" where
  "getenv mc k = or_zero [] (map_of (mcEnv mc) k)"

section \<open>Defaults and places\<close>

definition configDir :: "machine \<Rightarrow> string" where
  "configDir mc =
     (let home = getenv mc ''HOME''; sudoUser = getenv mc ''SUDO_USER'';
          home1 = (if sudoUser \<noteq> [] \<and> home = ''/root'' \<and> mcExists mc (''/home/'' @ sudoUser)
            then ''/home/'' @ sudoUser else home)
      in PathJoin [home1, ''.config'', ''godshell''])"

definition ConfigPath :: "machine \<Rightarrow> string" where
  "ConfigPath mc = PathJoin [configDir mc, ''config.json'']"

definition EnsureDir :: "machine \<Rightarrow> string option" where
  "EnsureDir mc = mcMkdir mc (configDir mc)"

definition Default :: "machine \<Rightarrow> Config" where
  "Default mc = \<lparr>cfAPIKey = [], cfVTApiKey = [], cfAbuseIPKey = [],
     cfModel = ''google/gemini-2.5-flash-preview'',
     cfEndpoint = ''https://openrouter.ai/api/v1/chat/completions'',
     cfSnapshotIntervalMin = 0, cfGhostProcessRetentionSec = 60, cfDBSnapshotRetentionHours = 24,
     cfSnapshotConcurrency = 1, cfDBPath = PathJoin [configDir mc, ''godshell.db''],
     cfSocketPath = ''/var/run/godshell.sock'', cfProcPath = ''/proc'', cfSysPath = ''/sys'',
     cfEnrichmentWorkers = 4, cfMaxEffectsPerProcess = 1000, cfCaptureNetwork = True, cfCaptureFileIO = True,
     cfIgnoredProcesses = [''godshell'', ''systemd'', ''dbus-daemon''], cfStracePath = ''strace''\<rparr>"

section \<open>The document\<close>

text \<open>An empty list is the nil slice.\<close>

definition Config_json :: "Config \<Rightarrow> json" where
  "Config_json cfg =
     JObj [(''model'', jstr (cfModel cfg)),
           (''endpoint'', jstr (cfEndpoint cfg)),
           (''snapshot_interval_min'', jint (cfSnapshotIntervalMin cfg)),
           (''ghost_process_retention_sec'', jint (cfGhostProcessRetentionSec cfg)),
           (''db_snapshot_retention_hours'', jint (cfDBSnapshotRetentionHours cfg)),
           (''snapshot_concurrency'', jint (cfSnapshotConcurrency cfg)),
           (''db_path'', jstr (cfDBPath cfg)),
           (''socket_path'', jstr (cfSocketPath cfg)),
           (''proc_path'', jstr (cfProcPath cfg)),
           (''sys_path'', jstr (cfSysPath cfg)),
           (''enrichment_workers'', jint (cfEnrichmentWorkers cfg)),
           (''max_effects_per_process'', jint (cfMaxEffectsPerProcess cfg)),
           (''capture_network'', JBool (cfCaptureNetwork cfg)),
           (''capture_file_io'', JBool (cfCaptureFileIO cfg)),
           (''ignored_processes'', (if cfIgnoredProcesses cfg = [] then JNull else JArr (map jstr (cfIgnoredProcesses cfg)))),
           (''strace_path'', jstr (cfStracePath cfg))]"

text \<open>
  Decoding into a configuration that has values already: a member that is missing, null or of another
  type leaves the value that is there. A list replaces the list, but an element that is no string keeps
  the string at its place.
\<close>

definition set_member :: "(json \<Rightarrow> 'a option) \<Rightarrow> (('a \<Rightarrow> 'a) \<Rightarrow> Config \<Rightarrow> Config) \<Rightarrow> json \<Rightarrow> Config \<Rightarrow> Config" where
  "set_member conv upd j cfg = (case conv j of None \<Rightarrow> cfg | Some x \<Rightarrow> upd (\<lambda>_. x) cfg)"

fun set_strings :: "string list \<Rightarrow> json list \<Rightarrow> string list" where
  "set_strings old [] = []"
| "set_strings [] (j # js) = or_zero [] (as_string j) # set_strings [] js"
| "set_strings (o1 # old) (j # js) = or_zero o1 (as_string j) # set_strings old js"

definition set_ignored :: "json \<Rightarrow> Config \<Rightarrow> Config" where
  "set_ignored j cfg =
     (case j of
        JNull \<Rightarrow> cfg\<lparr>cfIgnoredProcesses := []\<rparr>
      | JArr js \<Rightarrow> cfg\<lparr>cfIgnoredProcesses := set_strings (cfIgnoredProcesses cfg) js\<rparr>
      | _ \<Rightarrow> cfg)"

definition config_setters :: "(string, json \<Rightarrow> Config \<Rightarrow> Config) gomap" where
  "config_setters =
     [(''model'', set_member as_string cfModel_update),
      (''endpoint'', set_member as_string cfEndpoint_update),
      (''snapshot_interval_min'', set_member as_int cfSnapshotIntervalMin_update),
      (''ghost_process_retention_sec'', set_member as_int cfGhostProcessRetentionSec_update),
      (''db_snapshot_retention_hours'', set_member as_int cfDBSnapshotRetentionHours_update),
      (''snapshot_concurrency'', set_member as_int cfSnapshotConcurrency_update),
      (''db_path'', set_member as_string cfDBPath_update),
      (''socket_path'', set_member as_string cfSocketPath_update),
      (''proc_path'', set_member as_string cfProcPath_update),
      (''sys_path'', set_member as_string cfSysPath_update),
      (''enrichment_workers'', set_member as_int cfEnrichmentWorkers_update),
      (''max_effects_per_process'', set_member as_int cfMaxEffectsPerProcess_update),
      (''capture_network'', set_member as_bool cfCaptureNetwork_update),
      (''capture_file_io'', set_member as_bool cfCaptureFileIO_update),
      (''ignored_processes'', set_ignored),
      (''strace_path'', set_member as_string cfStracePath_update)]"

text \<open>The names of members are compared without regard to the case of ASCII letters.\<close>

definition put_member :: "string \<times> json \<Rightarrow> Config \<Rightarrow> Config" where
  "put_member kj cfg =
     (case map_of config_setters (map ascii_lower (fst kj)) of None \<Rightarrow> cfg | Some f \<Rightarrow> f (snd kj) cfg)"

definition UnmarshalConfig :: "json \<Rightarrow> Config \<Rightarrow> Config" where
  "UnmarshalConfig j cfg = (case j of JObj fs \<Rightarrow> fold put_member fs cfg | _ \<Rightarrow> cfg)"

section \<open>The keyring\<close>

definition bus_var :: string where "bus_var = ''DBUS_SESSION_BUS_ADDRESS''"

definition setenv :: "string \<Rightarrow> string \<Rightarrow> machine \<Rightarrow> machine" where
  "setenv k v mc = mc\<lparr>mcEnv := go_put k v (mcEnv mc)\<rparr>"

text \<open>\<^verbatim>\<open>os.UserHomeDir\<close> fails when \<^verbatim>\<open>HOME\<close> is empty.\<close>

definition bridgeDBus :: "machine \<Rightarrow> machine" where
  "bridgeDBus mc =
     (let uid = getenv mc ''SUDO_UID'' in
      if uid = [] then
        if getenv mc bus_var \<noteq> [] then mc
        else
          let bus = ''/run/user/'' @ dec_int (mcUid mc) @ ''/bus'' in
          (if getenv mc ''HOME'' \<noteq> [] \<and> mcExists mc bus then setenv bus_var (''unix:path='' @ bus) mc else mc)
      else
        let bus = ''/run/user/'' @ uid @ ''/bus'' in
        (if mcExists mc bus then setenv bus_var (''unix:path='' @ bus) mc else mc))"

definition keyringService :: string where "keyringService = ''godshell''"
definition keyringUser :: string where "keyringUser = ''api_key''"

definition loadKeyring :: "'k keyring \<Rightarrow> machine \<Rightarrow> 'k \<Rightarrow> string \<times> machine" where
  "loadKeyring kr mc k =
     (let mc1 = bridgeDBus mc in
      (case krGet kr (getenv mc1 bus_var) keyringService keyringUser k of Inl _ \<Rightarrow> [] | Inr secret \<Rightarrow> secret, mc1))"

section \<open>\<^verbatim>\<open>Load\<close> and \<^verbatim>\<open>Save\<close>\<close>

definition read_config :: "machine \<Rightarrow> Config \<Rightarrow> Config" where
  "read_config mc cfg =
     (case map_of (mcFiles mc) (ConfigPath mc) of Some (Some j) \<Rightarrow> UnmarshalConfig j cfg | _ \<Rightarrow> cfg)"

definition Load :: "'k keyring \<Rightarrow> machine \<Rightarrow> 'k \<Rightarrow> Config \<times> machine" where
  "Load kr mc k =
     (let mc1 = bridgeDBus mc;
          cfg = read_config mc1 (Default mc);
          (key, mc2) = loadKeyring kr mc1 k;
          cfg1 = (if key \<noteq> [] then cfg\<lparr>cfAPIKey := key\<rparr> else cfg)
      in (cfg1\<lparr>cfVTApiKey := getenv mc2 ''VIRUSTOTAL_API_KEY'', cfAbuseIPKey := getenv mc2 ''ABUSEIPDB_API_KEY''\<rparr>, mc2))"

definition Save :: "'k keyring \<Rightarrow> Config \<Rightarrow> machine \<Rightarrow> 'k \<Rightarrow> string option \<times> machine \<times> 'k" where
  "Save kr cfg mc k =
     (case EnsureDir mc of
        Some e \<Rightarrow> (Some (''create config dir: '' @ e), mc, k)
      | None \<Rightarrow>
          (let mc1 = bridgeDBus mc;
               k1 = (if cfAPIKey cfg \<noteq> []
                 then snd (krSet kr (getenv mc1 bus_var) keyringService keyringUser (cfAPIKey cfg) k) else k)
           in case mcWrite mc1 (ConfigPath mc1) of
                Some e \<Rightarrow> (Some e, mc1, k1)
              | None \<Rightarrow> (None, mc1\<lparr>mcFiles := go_put (ConfigPath mc1) (Some (Config_json cfg)) (mcFiles mc1)\<rparr>, k1)))"

section \<open>What is saved is loaded\<close>

definition config_plain :: "Config \<Rightarrow> bool" where
  "config_plain cfg \<longleftrightarrow>
     (\<forall>s \<in> set ([cfModel cfg, cfEndpoint cfg, cfDBPath cfg, cfSocketPath cfg, cfProcPath cfg, cfSysPath cfg, cfStracePath cfg]
        @ cfIgnoredProcesses cfg). utf8_valid s)
     \<and> (\<forall>i \<in> set [cfSnapshotIntervalMin cfg, cfGhostProcessRetentionSec cfg, cfDBSnapshotRetentionHours cfg,
        cfSnapshotConcurrency cfg, cfEnrichmentWorkers cfg, cfMaxEffectsPerProcess cfg]. - (2 ^ 63) \<le> i \<and> i < 2 ^ 63)"

lemma set_strings_jstr: "\<forall>s \<in> set ss. utf8_valid s \<Longrightarrow> set_strings old (map jstr ss) = ss"
proof (induction ss arbitrary: old)
  case (Cons s ss)
  then show ?case by (cases old) (simp_all add: jstr_def to_valid_id or_zero_def)
qed simp

lemma put_member_simps:
  "put_member (''model'', j) cfg = set_member as_string cfModel_update j cfg"
  "put_member (''endpoint'', j) cfg = set_member as_string cfEndpoint_update j cfg"
  "put_member (''snapshot_interval_min'', j) cfg = set_member as_int cfSnapshotIntervalMin_update j cfg"
  "put_member (''ghost_process_retention_sec'', j) cfg = set_member as_int cfGhostProcessRetentionSec_update j cfg"
  "put_member (''db_snapshot_retention_hours'', j) cfg = set_member as_int cfDBSnapshotRetentionHours_update j cfg"
  "put_member (''snapshot_concurrency'', j) cfg = set_member as_int cfSnapshotConcurrency_update j cfg"
  "put_member (''db_path'', j) cfg = set_member as_string cfDBPath_update j cfg"
  "put_member (''socket_path'', j) cfg = set_member as_string cfSocketPath_update j cfg"
  "put_member (''proc_path'', j) cfg = set_member as_string cfProcPath_update j cfg"
  "put_member (''sys_path'', j) cfg = set_member as_string cfSysPath_update j cfg"
  "put_member (''enrichment_workers'', j) cfg = set_member as_int cfEnrichmentWorkers_update j cfg"
  "put_member (''max_effects_per_process'', j) cfg = set_member as_int cfMaxEffectsPerProcess_update j cfg"
  "put_member (''capture_network'', j) cfg = set_member as_bool cfCaptureNetwork_update j cfg"
  "put_member (''capture_file_io'', j) cfg = set_member as_bool cfCaptureFileIO_update j cfg"
  "put_member (''ignored_processes'', j) cfg = set_ignored j cfg"
  "put_member (''strace_path'', j) cfg = set_member as_string cfStracePath_update j cfg"
  by (simp_all add: put_member_def config_setters_def ascii_lower_def)

lemma set_member_simps:
  "utf8_valid t \<Longrightarrow> set_member as_string upd (jstr t) cfg = upd (\<lambda>_. t) cfg"
  "- (2 ^ 63) \<le> i \<Longrightarrow> i < 2 ^ 63 \<Longrightarrow> set_member as_int upd2 (jint i) cfg = upd2 (\<lambda>_. i) cfg"
  "set_member as_bool upd3 (JBool b) cfg = upd3 (\<lambda>_. b) cfg"
  by (simp_all add: set_member_def jstr_def jint_def to_valid_id)

lemma set_ignored_json:
  "\<forall>s \<in> set ss. utf8_valid s \<Longrightarrow>
   set_ignored (if ss = [] then JNull else JArr (map jstr ss)) cfg = cfg\<lparr>cfIgnoredProcesses := ss\<rparr>"
  by (simp add: set_ignored_def set_strings_jstr)

lemma UnmarshalConfig_json:
  assumes "config_plain cfg"
  shows "UnmarshalConfig (Config_json cfg) d =
    cfg\<lparr>cfAPIKey := cfAPIKey d, cfVTApiKey := cfVTApiKey d, cfAbuseIPKey := cfAbuseIPKey d\<rparr>"
  using assms
  by (simp add: UnmarshalConfig_def Config_json_def put_member_simps set_member_simps config_plain_def set_ignored_json)

lemma getenv_setenv: "getenv (setenv k v mc) k' = (if k' = k then v else getenv mc k')"
  by (simp add: getenv_def setenv_def or_zero_def)

lemma bridge_env: "k \<noteq> bus_var \<Longrightarrow> getenv (bridgeDBus mc) k = getenv mc k"
  by (simp add: bridgeDBus_def Let_def getenv_setenv)

lemma setenv_simps [simp]: "mcFiles (setenv k v mc) = mcFiles mc" "mcExists (setenv k v mc) = mcExists mc"
  "mcUid (setenv k v mc) = mcUid mc"
  by (simp_all add: setenv_def)

lemma bridge_simps [simp]: "mcFiles (bridgeDBus mc) = mcFiles mc" "mcExists (bridgeDBus mc) = mcExists mc"
  "mcUid (bridgeDBus mc) = mcUid mc"
  by (simp_all add: bridgeDBus_def Let_def)

lemma vars_differ: "''HOME'' \<noteq> bus_var" "''SUDO_USER'' \<noteq> bus_var" "''SUDO_UID'' \<noteq> bus_var"
  "''VIRUSTOTAL_API_KEY'' \<noteq> bus_var" "''ABUSEIPDB_API_KEY'' \<noteq> bus_var"
  by (simp_all add: bus_var_def)

lemma ConfigPath_bridge [simp]: "ConfigPath (bridgeDBus mc) = ConfigPath mc" "configDir (bridgeDBus mc) = configDir mc"
  by (simp_all add: ConfigPath_def configDir_def bridge_env vars_differ)

text \<open>The bridge is applied once: a second time changes nothing that is read of the environment.\<close>

lemma bridge_bus: "getenv (bridgeDBus (bridgeDBus mc)) bus_var = getenv (bridgeDBus mc) bus_var"
proof (cases "getenv mc ''SUDO_UID'' = []")
  case True
  have "bridgeDBus mc' = mc'" if "getenv mc' ''SUDO_UID'' = []" "getenv mc' bus_var \<noteq> []" for mc'
    using that by (simp add: bridgeDBus_def)
  moreover have "getenv (bridgeDBus mc) ''SUDO_UID'' = []" using True by (simp add: bridge_env vars_differ)
  ultimately show ?thesis
    using True by (cases "getenv (bridgeDBus mc) bus_var = []")
      (auto simp: bridgeDBus_def Let_def getenv_setenv vars_differ split: if_splits)
next
  case False
  then have "getenv (bridgeDBus mc') bus_var =
      (if mcExists mc (''/run/user/'' @ getenv mc ''SUDO_UID'' @ ''/bus'')
       then ''unix:path='' @ ''/run/user/'' @ getenv mc ''SUDO_UID'' @ ''/bus'' else getenv mc' bus_var)"
    if "getenv mc' ''SUDO_UID'' = getenv mc ''SUDO_UID''" "mcExists mc' = mcExists mc" for mc'
    using that by (simp add: bridgeDBus_def Let_def getenv_setenv)
  from this [of mc] this [of "bridgeDBus mc"] show ?thesis by (simp add: bridge_env vars_differ)
qed

definition stored_key :: "'k keyring \<Rightarrow> machine \<Rightarrow> 'k \<Rightarrow> string" where
  "stored_key kr mc k =
     (case krGet kr (getenv (bridgeDBus mc) bus_var) keyringService keyringUser k of Inl _ \<Rightarrow> [] | Inr secret \<Rightarrow> secret)"

text \<open>What a keyring promises: a secret that was set is read back.\<close>

definition keyring_laws :: "'k keyring \<Rightarrow> bool" where
  "keyring_laws kr \<longleftrightarrow> (\<forall>bus service user secret k k'.
     krSet kr bus service user secret k = (None, k') \<longrightarrow> krGet kr bus service user k' = Inr secret)"

lemma Load_after_Save:
  assumes "Save kr cfg mc k = (None, mc', k')" and "config_plain cfg" and "keyring_laws kr"
    and "cfAPIKey cfg \<noteq> [] \<Longrightarrow>
      fst (krSet kr (getenv (bridgeDBus mc) bus_var) keyringService keyringUser (cfAPIKey cfg) k) = None"
  shows "fst (Load kr mc' k') = cfg\<lparr>cfAPIKey := (if cfAPIKey cfg = [] then stored_key kr mc k else cfAPIKey cfg),
    cfVTApiKey := getenv mc ''VIRUSTOTAL_API_KEY'', cfAbuseIPKey := getenv mc ''ABUSEIPDB_API_KEY''\<rparr>"
proof -
  let ?mc1 = "bridgeDBus mc"
  have k': "k' = (if cfAPIKey cfg \<noteq> []
      then snd (krSet kr (getenv ?mc1 bus_var) keyringService keyringUser (cfAPIKey cfg) k) else k)"
    and mc': "mc' = ?mc1\<lparr>mcFiles := go_put (ConfigPath ?mc1) (Some (Config_json cfg)) (mcFiles ?mc1)\<rparr>"
    using assms(1) by (auto simp: Save_def Let_def split: option.splits)
  have env: "getenv mc' v = getenv ?mc1 v" for v by (simp add: mc' getenv_def)
  have upd: "bridgeDBus (m\<lparr>mcFiles := fs\<rparr>) = (bridgeDBus m)\<lparr>mcFiles := fs\<rparr>" for m fs
    by (simp add: bridgeDBus_def Let_def getenv_def setenv_def)
  have bus: "getenv (bridgeDBus (bridgeDBus mc')) bus_var = getenv ?mc1 bus_var"
    by (simp add: mc' upd bridge_bus) (simp add: getenv_def bridge_bus [unfolded getenv_def])
  have path: "ConfigPath mc' = ConfigPath mc"
    by (simp add: mc') (simp add: ConfigPath_def configDir_def getenv_def bridge_env [unfolded getenv_def] vars_differ)
  have filed: "read_config (bridgeDBus mc') d = cfg\<lparr>cfAPIKey := cfAPIKey d, cfVTApiKey := cfVTApiKey d, cfAbuseIPKey := cfAbuseIPKey d\<rparr>" for d
    using UnmarshalConfig_json [OF assms(2)] by (simp add: read_config_def path) (simp add: mc')
  have key: "fst (loadKeyring kr (bridgeDBus mc') k') = (if cfAPIKey cfg = [] then stored_key kr mc k else cfAPIKey cfg)"
  proof (cases "cfAPIKey cfg = []")
    case True
    then show ?thesis by (simp add: loadKeyring_def bus k' stored_key_def)
  next
    case False
    with assms(4) k' have "krSet kr (getenv ?mc1 bus_var) keyringService keyringUser (cfAPIKey cfg) k = (None, k')"
      by (metis prod.collapse)
    with assms(3) have "krGet kr (getenv ?mc1 bus_var) keyringService keyringUser k' = Inr (cfAPIKey cfg)"
      by (auto simp: keyring_laws_def)
    with False show ?thesis by (simp add: loadKeyring_def bus)
  qed
  have snd: "snd (loadKeyring kr (bridgeDBus mc') k') = bridgeDBus (bridgeDBus mc')" by (simp add: loadKeyring_def Let_def)
  have vars: "getenv (bridgeDBus (bridgeDBus mc')) v = getenv mc v" if "v \<noteq> bus_var" for v
    using that by (simp add: bridge_env env)
  show ?thesis
    unfolding Load_def Let_def case_prod_beta filed snd key
    using vars vars_differ by (auto simp: Default_def)
qed

text \<open>
  C38: a configuration that was saved is loaded again: every setting in the file comes back, the keys of
  the intelligence services come from the environment, and the API key comes from the keyring. A save
  with an empty API key leaves the key that is stored, so a key cannot be removed.
\<close>

theorem saved_config_loads_back:
  assumes "Save kr cfg mc k = (None, mc', k')" and "config_plain cfg" and "keyring_laws kr"
    and "cfAPIKey cfg \<noteq> [] \<Longrightarrow>
      fst (krSet kr (getenv (bridgeDBus mc) bus_var) keyringService keyringUser (cfAPIKey cfg) k) = None"
  shows "fst (Load kr mc' k') = cfg\<lparr>cfAPIKey := (if cfAPIKey cfg = [] then stored_key kr mc k else cfAPIKey cfg),
    cfVTApiKey := getenv mc ''VIRUSTOTAL_API_KEY'', cfAbuseIPKey := getenv mc ''ABUSEIPDB_API_KEY''\<rparr>"
  by (rule Load_after_Save [OF assms])

definition plain_keyring :: "string keyring" where
  "plain_keyring = \<lparr>krGet = (\<lambda>bus service user k. Inr k), krSet = (\<lambda>bus service user secret k. (None, secret))\<rparr>"

definition plain_machine :: machine where
  "plain_machine = \<lparr>mcEnv = [(''HOME'', ''/home/u'')], mcUid = 1000, mcExists = \<lambda>_. True, mcFiles = [],
     mcMkdir = \<lambda>_. None, mcWrite = \<lambda>_. None\<rparr>"

lemma Default_plain: "config_plain (Default plain_machine)"
proof -
  have "list_all is_ascii (cfDBPath (Default plain_machine))"
    by (simp add: Default_def configDir_def getenv_def plain_machine_def or_zero_def PathJoin_def PathClean_def clean_step_def
        HasPrefix_def is_ascii_def)
  then have "utf8_valid (cfDBPath (Default plain_machine))" by (rule utf8_valid_ascii)
  then show ?thesis
    by (simp add: config_plain_def del: utf8_valid.simps) (simp add: Default_def utf8_valid_ascii is_ascii_def del: utf8_valid.simps)
qed

lemma saved_config_loads_back_witness:
  "\<exists>mc'. Save plain_keyring ((Default plain_machine)\<lparr>cfAPIKey := ''sk''\<rparr>) plain_machine [] = (None, mc', ''sk'')
    \<and> cfAPIKey (fst (Load plain_keyring mc' ''sk'')) = ''sk''"
proof -
  let ?cfg = "(Default plain_machine)\<lparr>cfAPIKey := ''sk''\<rparr>"
  have "\<exists>mc'. Save plain_keyring ?cfg plain_machine [] = (None, mc', ''sk'')"
    by (simp add: Save_def EnsureDir_def Let_def plain_keyring_def) (simp add: plain_machine_def bridgeDBus_def setenv_def Let_def)
  then obtain mc' where s: "Save plain_keyring ?cfg plain_machine [] = (None, mc', ''sk'')" by blast
  have "config_plain ?cfg" using Default_plain by (simp add: config_plain_def)
  from saved_config_loads_back [OF s this] s show ?thesis by (simp add: keyring_laws_def plain_keyring_def)
qed

end
