(* ===== verification/Daemon.thy ===== *)
theory Daemon
  imports DaemonApi Config
begin

text \<open>
  The daemon process (\<^verbatim>\<open>runDaemon\<close> in \<^verbatim>\<open>main.go\<close>): what it starts, and the transition system that its
  goroutines make of the tree, the store and the requests, until one of them ends the process. The outcomes of
  opening the database and the socket are arguments. \<^verbatim>\<open>config.Load\<close> returns no error, so the branch for one is
  not reached.
\<close>

section \<open>The start\<close>

text \<open>A product of durations has 64 bits.\<close>

definition times64 :: "int \<Rightarrow> duration \<Rightarrow> duration" where
  "times64 n d = sint (word_of_int (n * d) :: 64 word)"

definition tree_config_of :: "Config \<Rightarrow> tree_config" where
  "tree_config_of cfg =
     \<lparr>cfgMaxEffects = cfMaxEffectsPerProcess cfg, cfgCaptureNetwork = cfCaptureNetwork cfg,
      cfgCaptureFileIO = cfCaptureFileIO cfg, cfgIgnored = cfIgnoredProcesses cfg, cfgProcPath = cfProcPath cfg,
      cfgSysPath = cfSysPath cfg, cfgStracePath = cfStracePath cfg\<rparr>"

text \<open>The \<^verbatim>\<open>go\<close> statements, in their order.\<close>

datatype job =
  Observe | HandleEvents | RefreshEvery duration | EvictOlder duration
| SnapshotEvery duration | PruneEvery duration int

definition daemon_jobs :: "Config \<Rightarrow> job list" where
  "daemon_jobs cfg =
     [Observe, HandleEvents, RefreshEvery (2 * second), EvictOlder (times64 (cfGhostProcessRetentionSec cfg) second)]
     @ (if 0 < cfSnapshotIntervalMin cfg then [SnapshotEvery (times64 (cfSnapshotIntervalMin cfg) minute)] else [])
     @ (if 0 < cfDBSnapshotRetentionHours cfg then [PruneEvery (60 * minute) (cfDBSnapshotRetentionHours cfg)] else [])"

text \<open>\<^verbatim>\<open>time.NewTicker\<close> panics on a period that is not positive; eviction ticks every ten seconds.\<close>

fun period :: "job \<Rightarrow> duration option" where
  "period (RefreshEvery d) = Some d"
| "period (EvictOlder maxAge) = Some (10 * second)"
| "period (SnapshotEvery d) = Some d"
| "period (PruneEvery d hours) = Some d"
| "period _ = None"

definition job_starts :: "job \<Rightarrow> bool" where
  "job_starts j = (case period j of None \<Rightarrow> True | Some d \<Rightarrow> 0 < d)"

record 'd daemon_start =
  dsWarnings :: "string list"
  dsServer :: "(ProcessTree \<times> (string, string) gomap, 'd) server"
  dsJobs :: "job list"
  dsExit :: "string option"

definition runDaemon ::
  "'k keyring \<Rightarrow> (string \<Rightarrow> 'd db_opening) \<Rightarrow> (string \<Rightarrow> string option \<times> string option \<times> string option) \<Rightarrow>
   procfs \<Rightarrow> (u32 \<Rightarrow> gotime) \<Rightarrow> machine \<Rightarrow> 'k \<Rightarrow> 'd daemon_start" where
  "runDaemon kr opening socket fs now mc k =
     (let cfg = fst (Load kr mc k);
          (err, db) = Init (opening (cfDBPath cfg)) None;
          (rmErr, listenErr, chmodErr) = socket (cfSocketPath cfg)
      in \<lparr>dsWarnings = (case err of None \<Rightarrow> [] | Some e \<Rightarrow> [''warning: store init: '' @ e @ '' (save/load disabled)'' @ nl]),
          dsServer = \<lparr>svTree = (DiscoverExistingProcesses fs now (NewProcessTree (tree_config_of cfg)), []), svDb = db\<rparr>,
          dsJobs = daemon_jobs cfg,
          dsExit = map_option (\<lambda>e. ''daemon server error: '' @ e @ nl) (Start (cfSocketPath cfg) rmErr listenErr chmodErr)\<rparr>)"

lemma times64_id: "- (2 ^ 63) \<le> n * d \<Longrightarrow> n * d < 2 ^ 63 \<Longrightarrow> times64 n d = n * d"
  unfolding times64_def sint_sbintrunc' by (rule signed_take_bit_int_eq_self) simp_all

text \<open>
  The tickers of the daemon start when the snapshot interval fits in 64 bits of nanoseconds, that is, up to
  153722867 minutes; one minute more and the goroutine panics, which ends the daemon.
\<close>

lemma daemon_tickers_start:
  "cfSnapshotIntervalMin cfg \<le> 153722867 \<Longrightarrow> j \<in> set (daemon_jobs cfg) \<Longrightarrow> job_starts j"
  by (auto simp: daemon_jobs_def job_starts_def second_def minute_def millisecond_def times64_id split: if_splits)

lemma interval_overflow_panics:
  "\<exists>j \<in> set (daemon_jobs (cfg\<lparr>cfSnapshotIntervalMin := 153722868\<rparr>)). \<not> job_starts j"
proof -
  have "times64 153722868 minute < 0"
    unfolding times64_def int_word_sint by (simp add: second_def minute_def millisecond_def)
  then show ?thesis by (simp add: daemon_jobs_def job_starts_def)
qed

section \<open>The daemon as a transition system\<close>

type_synonym 'd daemon = "(ProcessTree \<times> (string, string) gomap, 'd) server"

text \<open>
  While the process runs, some goroutines are still to start and some have started; \<open>prServing\<close> is set
  when the main goroutine listens on the socket.
\<close>

record 'd running =
  prServer :: "'d daemon"
  prWaiting :: "job list"
  prStarted :: "job list"
  prServing :: bool

datatype 'd process = Running "'d running" | Ended string

definition launch :: "'d daemon_start \<Rightarrow> 'd process" where
  "launch ds = Running \<lparr>prServer = dsServer ds, prWaiting = dsJobs ds, prStarted = [], prServing = False\<rparr>"

text \<open>
  What each goroutine does to the tree in one critical section. The goroutines that a connect starts do the
  enrichment of connections and processes.
\<close>

fun job_op :: "job \<Rightarrow> tree_op \<Rightarrow> bool" where
  "job_op HandleEvents (OpEvent now e) = True"
| "job_op HandleEvents (OpMetadata pid comm ppid bin) = True"
| "job_op HandleEvents (OpConnection pid key d) = True"
| "job_op (RefreshEvery d) (OpMetrics rnd fs now prev) = True"
| "job_op (EvictOlder maxAge) (OpEvict now maxAge') = (maxAge' = maxAge)"
| "job_op _ _ = False"

text \<open>
  The steps: a goroutine starts, or its ticker panics; the observer fails; the main goroutine listens, fails to,
  or stops serving with an error; a goroutine changes the tree; a tick of the automatic snapshots or of the
  pruning; a request. While a snapshot is taken, the other goroutines step in its gaps (that includes the
  enrichment by another snapshot), and a snapshot that meets a writer ends the process.
\<close>

inductive daemon_step ::
  "string option \<Rightarrow> toolenv \<Rightarrow> procfs \<Rightarrow> dns \<Rightarrow> 'd sqldb \<Rightarrow> 'd process \<Rightarrow> 'd process \<Rightarrow> bool"
  for exit env fs dns sq where
  job_starting: "j \<in> set (prWaiting r) \<Longrightarrow> job_starts j \<Longrightarrow>
    daemon_step exit env fs dns sq (Running r) (Running (r\<lparr>prWaiting := remove1 j (prWaiting r), prStarted := j # prStarted r\<rparr>))"
| ticker_panics: "j \<in> set (prWaiting r) \<Longrightarrow> \<not> job_starts j \<Longrightarrow>
    daemon_step exit env fs dns sq (Running r) (Ended ''panic: non-positive interval for NewTicker'')"
| observer_fails: "Observe \<in> set (prStarted r) \<Longrightarrow>
    daemon_step exit env fs dns sq (Running r) (Ended (''observer error (are you root?): '' @ e @ nl))"
| listening: "\<not> prServing r \<Longrightarrow> exit = None \<Longrightarrow> daemon_step exit env fs dns sq (Running r) (Running (r\<lparr>prServing := True\<rparr>))"
| start_fails: "\<not> prServing r \<Longrightarrow> exit = Some e \<Longrightarrow> daemon_step exit env fs dns sq (Running r) (Ended e)"
| serve_fails: "prServing r \<Longrightarrow> daemon_step exit env fs dns sq (Running r) (Ended (''daemon server error: '' @ e @ nl))"
| tree_step: "j \<in> set (prStarted r) \<Longrightarrow> job_op j op \<Longrightarrow> svTree (prServer r) = (t, cache) \<Longrightarrow>
    daemon_step exit env fs dns sq (Running r) (Running (r\<lparr>prServer := (prServer r)\<lparr>svTree := (apply_op op t, cache')\<rparr>\<rparr>))"
| auto_snapshot: "SnapshotEvery d \<in> set (prStarted r) \<Longrightarrow> interleaved visits \<Longrightarrow>
    TakeSnapshot fs dns now visits (svTree (prServer r)) = Some (snap, t) \<Longrightarrow>
    SaveSnapshot sq ''auto'' snap (svDb (prServer r)) = (saved, db) \<Longrightarrow>
    daemon_step exit env fs dns sq (Running r) (Running (r\<lparr>prServer := \<lparr>svTree = t, svDb = db\<rparr>\<rparr>))"
| auto_snapshot_stopped: "SnapshotEvery d \<in> set (prStarted r) \<Longrightarrow>
    TakeSnapshot fs dns now visits (svTree (prServer r)) = None \<Longrightarrow>
    daemon_step exit env fs dns sq (Running r) (Ended fatal_clash)"
| prune_tick: "PruneEvery d hours \<in> set (prStarted r) \<Longrightarrow> PruneSnapshots sq hours (svDb (prServer r)) = (pruned, db) \<Longrightarrow>
    daemon_step exit env fs dns sq (Running r) (Running (r\<lparr>prServer := (prServer r)\<lparr>svDb := db\<rparr>\<rparr>))"
| request: "prServing r \<Longrightarrow> interleaved visits \<Longrightarrow>
    serve env (TakeSnapshot fs dns now visits) sq rq (prServer r) = Some (resp, s') \<Longrightarrow> resp \<noteq> Panic fatal_clash \<Longrightarrow>
    daemon_step exit env fs dns sq (Running r) (Running (r\<lparr>prServer := s'\<rparr>))"
| request_stopped: "prServing r \<Longrightarrow>
    serve env (TakeSnapshot fs dns now visits) sq rq (prServer r) = Some (Panic fatal_clash, s') \<Longrightarrow>
    daemon_step exit env fs dns sq (Running r) (Ended fatal_clash)"

inductive_cases from_ended: "daemon_step exit env fs dns sq (Ended e) p"

lemma ended_stays: "(daemon_step exit env fs dns sq)\<^sup>*\<^sup>* (Ended e) p \<Longrightarrow> p = Ended e"
  by (induction rule: rtranclp_induct) (auto elim: from_ended)

text \<open>A request changes the tree only by taking a snapshot.\<close>

lemma serve_tree:
  assumes "serve env shot sq rq s = Some (resp, s')"
  shows "svTree s' = svTree s \<or> (\<exists>snap. shot (svTree s) = Some (snap, svTree s'))"
  using assms
  by (auto simp: serve_def handleSnapshot_def handleToolProxy_def handleDBSave_def handleDBLoad_def handleDBList_def
      handleDBDelete_def Let_def split: if_splits option.splits prod.splits sum.splits)

text \<open>What holds of a process that runs: only goroutines of the start run, and it serves only after listening.\<close>

definition process_ok :: "int \<Rightarrow> string option \<Rightarrow> job list \<Rightarrow> 'd process \<Rightarrow> bool" where
  "process_ok cap exit jobs p \<longleftrightarrow>
     (case p of
        Ended _ \<Rightarrow> True
      | Running r \<Rightarrow> kept cap (fst (svTree (prServer r))) \<and> (prServing r \<longrightarrow> exit = None)
          \<and> set (prWaiting r) \<subseteq> set jobs \<and> set (prStarted r) \<subseteq> {j \<in> set jobs. job_starts j})"

lemma daemon_step_ok:
  assumes "process_ok cap exit jobs p" and "daemon_step exit env fs dns sq p p'"
  shows "process_ok cap exit jobs p'"
  using assms(2,1)
proof cases
  case (job_starting j r)
  with assms(1) show ?thesis using set_remove1_subset [of j "prWaiting r"] by (auto simp: process_ok_def)
next
  case (tree_step j r op t cache cache')
  with assms(1) show ?thesis by (simp add: process_ok_def kept_op)
next
  case (auto_snapshot d r visits now snap t saved db)
  with assms(1) TakeSnapshot_kept [OF auto_snapshot(4) _ auto_snapshot(5), of cap] show ?thesis by (simp add: process_ok_def)
next
  case (request r visits now rq resp s')
  with assms(1) have k: "kept cap (fst (svTree (prServer r)))" by (simp add: process_ok_def)
  have "kept cap (fst (svTree s'))" if "TakeSnapshot fs dns now visits (svTree (prServer r)) = Some (snap, svTree s')" for snap
    using TakeSnapshot_kept [OF request(4) k that] by simp
  with k serve_tree [OF request(5)] have "kept cap (fst (svTree s'))" by metis
  with request assms(1) show ?thesis by (simp add: process_ok_def)
qed (simp_all add: process_ok_def)

interpretation serving: transition_invariant "daemon_step exit env fs dns sq" "process_ok cap exit jobs"
    for exit env fs dns sq cap jobs
  by unfold_locales (rule daemon_step_ok)

lemma runDaemon_kept:
  "kept (cfMaxEffectsPerProcess (fst (Load kr mc k)))
     (fst (svTree (dsServer (runDaemon kr opening socket fs now mc k))))"
proof -
  have "kept (cfMaxEffectsPerProcess cfg) (apply_op (OpDiscover fs now) (NewProcessTree (tree_config_of cfg)))" for cfg
    by (rule kept_op) (simp add: kept_def NewProcessTree_ok, simp add: NewProcessTree_def tree_config_of_def)
  then show ?thesis by (simp add: runDaemon_def Let_def split: prod.splits)
qed

lemma launch_ok:
  "process_ok (cfMaxEffectsPerProcess (fst (Load kr mc k))) exit (dsJobs (runDaemon kr opening socket fs now mc k))
     (launch (runDaemon kr opening socket fs now mc k))"
  using runDaemon_kept by (simp add: process_ok_def launch_def)

text \<open>
  C5: whatever the kernel reports, the goroutines do and the clients ask, as long as the daemon runs and serves
  (it does only if the socket could be opened, and only goroutines whose ticker has a positive period run), it
  answers a request for the snapshot, unless the runtime stops it in the middle of taking it, with a snapshot that
  is well formed and keeps the configured limit on effects, and leaves the tree well formed. If the strings of
  the snapshot are UTF-8, the client receives exactly this snapshot.
\<close>

theorem daemon_serves_well_formed:
  assumes "ds = runDaemon kr opening socket fs now mc k"
    and "(daemon_step (dsExit ds) env fs dns sq)\<^sup>*\<^sup>* (launch ds) (Running r)" and "prServing r"
    and "trDial tr = None" and "interleaved visits" and "shot = TakeSnapshot fs dns now' visits"
    and "shot (svTree (prServer r)) = Some (snap, t)"
    and "cap = cfMaxEffectsPerProcess (fst (Load kr mc k))"
  shows "dsExit ds = None \<and> set (prStarted r) \<subseteq> {j \<in> set (dsJobs ds). job_starts j}
    \<and> handleSnapshot shot \<lparr>rqMethod = ''GET'', rqPath = ''/api/snapshot'', rqQuery = [], rqBody = None\<rparr> (prServer r)
        = Some (Ok (send_json (snapshot_json snap)), (prServer r)\<lparr>svTree := t\<rparr>)
    \<and> tree_ok (fst t) \<and> table_ok cap (FByPID snap) \<and> table_ok cap (FGhosts snap) \<and> FGhosts snap = Ghosts (fst t)
    \<and> (snapshot_plain snap \<longrightarrow>
        Client_GetSnapshot (daemon_call tr env' shot sq) render (prServer r) = Some (Inr snap, (prServer r)\<lparr>svTree := t\<rparr>))"
proof -
  have "process_ok cap (dsExit ds) (dsJobs ds) (launch ds)" unfolding assms(1,8) by (rule launch_ok)
  from serving.reach_keeps [OF assms(2) this] assms(3)
  have ok: "kept cap (fst (svTree (prServer r)))" "dsExit ds = None" "set (prStarted r) \<subseteq> {j \<in> set (dsJobs ds). job_starts j}"
    by (simp_all add: process_ok_def)
  note kept = TakeSnapshot_kept [OF assms(5) ok(1) assms(7) [unfolded assms(6)]]
  have "handleSnapshot shot \<lparr>rqMethod = ''GET'', rqPath = ''/api/snapshot'', rqQuery = [], rqBody = None\<rparr> (prServer r)
      = Some (Ok (send_json (snapshot_json snap)), (prServer r)\<lparr>svTree := t\<rparr>)"
    using assms(7) by (simp add: handleSnapshot_def)
  moreover have "snapshot_plain snap \<Longrightarrow>
      Client_GetSnapshot (daemon_call tr env' shot sq) render (prServer r) = Some (Inr snap, (prServer r)\<lparr>svTree := t\<rparr>)"
    by (rule Client_GetSnapshot_daemon [where shot = shot, OF assms(4,7)])
  moreover have "tree_ok (fst t)" using kept by (simp add: kept_def)
  ultimately show ?thesis using kept ok(2,3) by blast
qed

text \<open>From the start: the daemon listens, its event handler starts, a shell is started, and a client asks.\<close>

definition sample_opening :: "string \<Rightarrow> rows db_opening" where
  "sample_opening path = \<lparr>opMkdir = None, opOpen = Inr (1, []), opPing = None, opCreate = \<lambda>d. (None, d)\<rparr>"

definition sample_start :: "rows daemon_start" where
  "sample_start = runDaemon plain_keyring sample_opening (\<lambda>_. (None, None, None)) status_fs (\<lambda>_. 0) plain_machine ''sk''"

lemma sample_start_simps: "dsExit sample_start = None" "svDb (dsServer sample_start) = Some (1, [])"
    "HandleEvents \<in> set (dsJobs sample_start)"
  by (simp_all add: sample_start_def runDaemon_def Let_def Init_def sample_opening_def Start_def daemon_jobs_def)

lemma daemon_serves_well_formed_witness:
  "\<exists>r s' snap. (daemon_step None (sample_env (\<lambda>_. Inl [])) status_fs (\<lambda>_. None) list_sql)\<^sup>*\<^sup>* (launch sample_start) (Running r)
    \<and> fst (svTree (prServer r)) = HandleEvent (\<lambda>_. 7) (sample_event EventExec 42 ''/bin/sh'') (fst (svTree (dsServer sample_start)))
    \<and> svDb (prServer r) = Some (1, [])
    \<and> handleSnapshot (TakeSnapshot status_fs (\<lambda>_. None) 9 [sample_visit])
        \<lparr>rqMethod = ''GET'', rqPath = ''/api/snapshot'', rqQuery = [], rqBody = None\<rparr> (prServer r)
      = Some (Ok (send_json (snapshot_json snap)), s') \<and> tree_ok (fst (svTree s'))"
proof -
  let ?e = "sample_event EventExec 42 ''/bin/sh''" and ?env = "sample_env (\<lambda>_. Inl [])" and ?s = "dsServer sample_start"
  let ?step = "daemon_step (dsExit sample_start) ?env status_fs (\<lambda>_. None) list_sql"
  define r1 :: "rows running" where "r1 = \<lparr>prServer = ?s, prWaiting = dsJobs sample_start, prStarted = [], prServing = True\<rparr>"
  define r2 where "r2 = r1\<lparr>prWaiting := remove1 HandleEvents (prWaiting r1), prStarted := HandleEvents # prStarted r1\<rparr>"
  define r3 where "r3 = r2\<lparr>prServer := (prServer r2)\<lparr>svTree := (apply_op (OpEvent (\<lambda>_. 7) ?e) (fst (svTree ?s)), snd (svTree ?s))\<rparr>\<rparr>"
  have "?step (launch sample_start) (Running r1)"
    unfolding launch_def by (rule daemon_step.listening [THEN back_subst [of "?step _"]]) (simp_all add: sample_start_simps r1_def)
  moreover have "?step (Running r1) (Running r2)"
    unfolding r2_def by (rule daemon_step.job_starting) (simp_all add: r1_def sample_start_simps job_starts_def)
  moreover have "?step (Running r2) (Running r3)"
    unfolding r3_def
    by (rule daemon_step.tree_step [where j = HandleEvents and cache = "snd (svTree ?s)"])
      (simp add: r2_def, simp, simp add: r2_def r1_def)
  ultimately have reach: "?step\<^sup>*\<^sup>* (launch sample_start) (Running r3)" by (meson rtranclp.rtrancl_refl rtranclp.rtrancl_into_rtrancl)
  have v: "interleaved [sample_visit]"
    by (auto simp: interleaved_def sample_visit_def intro!: exI [of _ "[]"])
  obtain snap t' c where shot: "TakeSnapshot status_fs (\<lambda>_. None) 9 [sample_visit] (svTree (prServer r3)) = Some (snap, t', c)"
    using sample_snapshot [of status_fs "\<lambda>_. None" 9 "fst (svTree (prServer r3))" "snd (svTree (prServer r3))"] by auto
  have "prServing r3" by (simp add: r3_def r2_def r1_def)
  from daemon_serves_well_formed [OF sample_start_def reach this _ v refl shot refl,
      of "\<lparr>trDial = None, trEOF = ''EOF'', trBadURL = (\<lambda>_. [])\<rparr>" ?env "\<lambda>_. []"]
  have "handleSnapshot (TakeSnapshot status_fs (\<lambda>_. None) 9 [sample_visit])
        \<lparr>rqMethod = ''GET'', rqPath = ''/api/snapshot'', rqQuery = [], rqBody = None\<rparr> (prServer r3)
      = Some (Ok (send_json (snapshot_json snap)), (prServer r3)\<lparr>svTree := (t', c)\<rparr>)" "tree_ok t'"
    by simp_all
  moreover have "fst (svTree (prServer r3)) = HandleEvent (\<lambda>_. 7) ?e (fst (svTree ?s))" by (simp add: r3_def)
  moreover have "svDb (prServer r3) = Some (1, [])" by (simp add: r3_def r2_def r1_def sample_start_simps)
  ultimately show ?thesis using reach unfolding sample_start_simps(1)
    by (intro exI [of _ r3] exI [of _ "(prServer r3)\<lparr>svTree := (t', c)\<rparr>"] exI [of _ snap]) simp
qed

end
