(* ===== verification/Conversation.thy ===== *)
theory Conversation
  imports DaemonApi Intel
begin

text \<open>
  The conversation with the language model (\<^verbatim>\<open>llm/bridge.go\<close>, \<^verbatim>\<open>llm/client.go\<close>): its messages, the
  pruning of the history, the tool calls it makes itself or hands to the daemon, and the HTTP client of
  the model's service. \<open>'s\<close> is the state of the world that a call over the network may change.
\<close>

section \<open>Messages\<close>

datatype Role = RoleSystem | RoleUser | RoleAssistant | RoleTool | RoleOther string

fun role_text :: "Role \<Rightarrow> string" where
  "role_text RoleSystem = ''system''"
| "role_text RoleUser = ''user''"
| "role_text RoleAssistant = ''assistant''"
| "role_text RoleTool = ''tool''"
| "role_text (RoleOther s) = s"

definition role_of :: "string \<Rightarrow> Role" where
  "role_of s =
     (if s = ''system'' then RoleSystem else if s = ''user'' then RoleUser
      else if s = ''assistant'' then RoleAssistant else if s = ''tool'' then RoleTool else RoleOther s)"

record ToolCall =
  tcID :: string
  tcType :: string
  tcName :: string
  tcArguments :: string

record Message =
  msgRole :: Role
  msgContent :: string
  msgToolCallID :: string
  msgName :: string
  msgToolCalls :: "ToolCall list"

definition plain_msg :: "Role \<Rightarrow> string \<Rightarrow> Message" where
  "plain_msg r s = \<lparr>msgRole = r, msgContent = s, msgToolCallID = [], msgName = [], msgToolCalls = []\<rparr>"

definition ToolCall_json :: "ToolCall \<Rightarrow> json" where
  "ToolCall_json tc =
     JObj [(''id'', jstr (tcID tc)), (''type'', jstr (tcType tc)),
       (''function'', JObj [(''name'', jstr (tcName tc)), (''arguments'', jstr (tcArguments tc))])]"

definition Message_json :: "Message \<Rightarrow> json" where
  "Message_json m =
     JObj ([(''role'', jstr (role_text (msgRole m))), (''content'', jstr (msgContent m))]
       @ omit_if (msgToolCallID m = []) ''tool_call_id'' (jstr (msgToolCallID m))
       @ omit_if (msgName m = []) ''name'' (jstr (msgName m))
       @ omit_if (msgToolCalls m = []) ''tool_calls'' (JArr (map ToolCall_json (msgToolCalls m))))"

definition zero_call :: ToolCall where
  "zero_call = \<lparr>tcID = [], tcType = [], tcName = [], tcArguments = []\<rparr>"

definition UnmarshalToolCall :: "json \<Rightarrow> ToolCall option" where
  "UnmarshalToolCall j =
     Option.bind (json_fields j) (\<lambda>fs.
     Option.bind (get_field as_string [] fs ''id'') (\<lambda>i.
     Option.bind (get_field as_string [] fs ''type'') (\<lambda>t.
     Option.bind (get_field json_fields [] fs ''function'') (\<lambda>fn.
     Option.bind (get_field as_string [] fn ''name'') (\<lambda>n.
     Option.bind (get_field as_string [] fn ''arguments'') (\<lambda>a.
     Some \<lparr>tcID = i, tcType = t, tcName = n, tcArguments = a\<rparr>))))))"

definition UnmarshalMessage :: "json \<Rightarrow> Message option" where
  "UnmarshalMessage j =
     Option.bind (json_fields j) (\<lambda>fs.
     Option.bind (get_field as_string [] fs ''role'') (\<lambda>r.
     Option.bind (get_field as_string [] fs ''content'') (\<lambda>c.
     Option.bind (get_field as_string [] fs ''tool_call_id'') (\<lambda>i.
     Option.bind (get_field as_string [] fs ''name'') (\<lambda>n.
     Option.bind (get_field (as_list UnmarshalToolCall zero_call) [] fs ''tool_calls'') (\<lambda>tcs.
     Some \<lparr>msgRole = role_of r, msgContent = c, msgToolCallID = i, msgName = n, msgToolCalls = tcs\<rparr>))))))"

section \<open>The model's service\<close>

text \<open>
  The service over the network: what \<^verbatim>\<open>http.NewRequest\<close> says of an endpoint, the answer to a request (an
  error, or the status with the body or the error of reading it), and the decoder of \<^verbatim>\<open>encoding/json\<close>
  with its message for a text that does not decode.
\<close>

record 's api =
  apInvalid :: "string \<Rightarrow> string option"
  apPost :: "string \<Rightarrow> (string \<times> string) list \<Rightarrow> json \<Rightarrow> 's \<Rightarrow> (string + int \<times> (string + string)) \<times> 's"
  apParse :: "string \<Rightarrow> json option"
  apBadJSON :: "string \<Rightarrow> string"

record OpenAIClient =
  oaAPIKey :: string
  oaEndpoint :: string
  oaModel :: string

definition NewOpenAIClient :: "string \<Rightarrow> string \<Rightarrow> string \<Rightarrow> OpenAIClient" where
  "NewOpenAIClient apiKey endpoint model = \<lparr>oaAPIKey = apiKey, oaEndpoint = endpoint, oaModel = model\<rparr>"

definition chatRequest_json :: "string \<Rightarrow> Message list \<Rightarrow> json list \<Rightarrow> json" where
  "chatRequest_json model messages tools =
     JObj ([(''model'', jstr model), (''messages'', JArr (map Message_json messages))]
       @ omit_if (tools = []) ''tools'' (JArr tools))"

text \<open>The messages of the choices, and the message of the error object when there is one.\<close>

definition UnmarshalChoice :: "json \<Rightarrow> Message option" where
  "UnmarshalChoice j =
     Option.bind (json_fields j) (\<lambda>fs. get_field UnmarshalMessage (plain_msg (RoleOther []) []) fs ''message'')"

definition UnmarshalError :: "json \<Rightarrow> string option option" where
  "UnmarshalError j = Option.bind (json_fields j) (\<lambda>fs. map_option Some (get_field as_string [] fs ''message''))"

definition UnmarshalChat :: "json \<Rightarrow> (Message list \<times> string option) option" where
  "UnmarshalChat j =
     Option.bind (json_fields j) (\<lambda>fs.
     Option.bind (get_field (as_list UnmarshalChoice (plain_msg (RoleOther []) [])) [] fs ''choices'') (\<lambda>choices.
     Option.bind (get_field UnmarshalError None fs ''error'') (\<lambda>err. Some (choices, err))))"

definition Chat :: "'s api \<Rightarrow> OpenAIClient \<Rightarrow> Message list \<Rightarrow> json list \<Rightarrow> 's \<Rightarrow> (string + Message) \<times> 's" where
  "Chat api c messages tools s =
     (case apInvalid api (oaEndpoint c) of
        Some e \<Rightarrow> (Inl e, s)
      | None \<Rightarrow>
          (case apPost api (oaEndpoint c)
                  [(''Content-Type'', ''application/json''), (''Authorization'', ''Bearer '' @ oaAPIKey c)]
                  (chatRequest_json (oaModel c) messages tools) s of
             (Inl e, s') \<Rightarrow> (Inl e, s')
           | (Inr (status, Inl e), s') \<Rightarrow> (Inl e, s')
           | (Inr (status, Inr text), s') \<Rightarrow>
               (if status \<noteq> 200 then Inl (''API error (status '' @ dec_int status @ ''): '' @ text)
                else case Option.bind (apParse api text) UnmarshalChat of
                       None \<Rightarrow> Inl (apBadJSON api text)
                     | Some (_, Some e) \<Rightarrow> Inl (''API error: '' @ e)
                     | Some ([], None) \<Rightarrow> Inl ''no choices returned from LLM''
                     | Some (m # _, None) \<Rightarrow> Inr m, s')))"

section \<open>The conversation\<close>

record Conversation =
  History :: "Message list"
  CurrentSnapshot :: "FrozenSnapshot option"
  HasDaemon :: bool
  ConvIntel :: "intel_client option"
  MaxResultChars :: int
  MaxTotalTokens :: int

definition DefaultMaxResultChars :: int where "DefaultMaxResultChars = 100000"
definition DefaultMaxTotalTokens :: int where "DefaultMaxTotalTokens = 200000"

definition system_prompt :: string where
  "system_prompt = Join
    [''You are Godshell, an elite AI Investigatory Agent operating on immutable system snapshots.'',
     ''You handle process analysis, network forensics, reverse engineering, debugging, and cybersecurity investigations.'',
     '''',
     ''CORE DIRECTIVES'',
     ''1. Never fabricate data. If it is not in the snapshot, it does not exist.'',
     ''2. The snapshot is your sole source of truth.'',
     ''3. When uncertain, say so.'',
     ''4. Cross-reference PIDs, ports, paths, and parent/child trees to build inferences.'',
     ''5. Always cite which tool or field led you to each conclusion.'',
     ''6. Be concise. No walls of text.'',
     ''7. Attack agressively, but wise, never judge or assume eagerly.'',
     ''8. '',
     '''',
     ''OUTPUT RULES'',
     ''- No markdown. No headers, no bold, no bullet symbols, no code fences.'',
     ''- Lead with the finding, then the evidence. Never the other way around.'',
     ''- Be terse. If the answer is two lines, write two lines.'',
     ''- Use plain numbered lists only when sequence or enumeration genuinely matters.'',
     ''- Never pad, summarize what was already said, or add closing remarks.'',
     ''- If you have a theory, state it clearly and back it up with evidence.'',
     ''- If you want the user to give you info, or write a command, please prompt the user shortly.'',
     ''INVESTIGATION METHODOLOGY'',
     ''- Triage first, drill second.'',
     ''- Chase the lineage. Suspicious behavior rarely starts where it appears.'',
     ''- Correlate everything. A process touching a network socket and an unusual path is more damning than either alone.'',
     ''- Ghosts matter. A process that exited is not innocent.'',
     ''- Absence is evidence. If something expected is missing, flag it.'', ''''] nl"

definition NewConversation :: "FrozenSnapshot option \<Rightarrow> bool \<Rightarrow> Conversation" where
  "NewConversation snap daemonClient =
     \<lparr>History = [plain_msg RoleSystem system_prompt], CurrentSnapshot = snap, HasDaemon = daemonClient, ConvIntel = None,
      MaxResultChars = DefaultMaxResultChars, MaxTotalTokens = DefaultMaxTotalTokens\<rparr>"

definition append_msg :: "Message \<Rightarrow> Conversation \<Rightarrow> Conversation" where
  "append_msg m c = c\<lparr>History := History c @ [m]\<rparr>"

definition UpdateSnapshot :: "(gotime \<Rightarrow> int) \<Rightarrow> FrozenSnapshot \<Rightarrow> Conversation \<Rightarrow> Conversation" where
  "UpdateSnapshot zone newSnap c =
     append_msg (plain_msg RoleSystem (''CONTEXT REFRESH: A new system snapshot was taken at ''
       @ fmt_rfc3339 zone (Timestamp newSnap) @ ''. Future tool calls will now reflect this updated state.''))
       (c\<lparr>CurrentSnapshot := Some newSnap\<rparr>)"

text \<open>\<open>None\<close> is the panic of a slice with a negative bound.\<close>

definition truncation_mark :: string where
  "truncation_mark = nl @ ''... [TRUNCATED DUE TO CONTEXT LIMITS] ...''"

definition TruncateString :: "string \<Rightarrow> int \<Rightarrow> string option" where
  "TruncateString s n =
     (if int (length s) \<le> n then Some s
      else if n < 0 then None
      else Some (take (nat n) s @ truncation_mark))"

definition content_chars :: "Message list \<Rightarrow> int" where
  "content_chars ms = (\<Sum>m\<leftarrow>ms. int (length (msgContent m)))"

fun prune :: "int \<Rightarrow> int \<Rightarrow> Message list \<Rightarrow> Message list" where
  "prune maxChars totalChars (m # m' # ms) =
     (if maxChars < totalChars then prune maxChars (totalChars - int (length (msgContent m))) (m' # ms)
      else m # m' # ms)"
| "prune maxChars totalChars ms = ms"

definition ManageHistory :: "Conversation \<Rightarrow> Conversation" where
  "ManageHistory c =
     (if length (History c) \<le> 2 then c
      else let totalChars = content_chars (History c); maxChars = MaxTotalTokens c * 4 in
        if totalChars \<le> maxChars then c
        else c\<lparr>History := hd (History c) # prune maxChars totalChars (tl (History c))\<rparr>)"

definition disabled_tools :: "string list" where
  "disabled_tools = [''browser_map'', ''ssl_intercept'', ''virustotal_hash'', ''abuseipdb_ip'',
     ''report_text'', ''report_behaviour'', ''report_family'', ''report_network'', ''report_threat'', ''report_system_state'']"

text \<open>\<open>proxy\<close> is the call of the daemon's client; without a daemon, or for other tools, the snapshot is asked.\<close>

type_synonym 's tool_proxy = "string \<Rightarrow> tool_args \<Rightarrow> 's \<Rightarrow> ((string + string) \<times> 's) option"

definition truncate_result :: "int \<Rightarrow> string go_result \<Rightarrow> string go_result" where
  "truncate_result n res =
     (case res of
        Ok out \<Rightarrow> (case TruncateString out n of None \<Rightarrow> Panic ''slice bounds out of range'' | Some t \<Rightarrow> Ok t)
      | _ \<Rightarrow> res)"

definition ExecuteTool ::
  "toolenv \<Rightarrow> 's tool_proxy \<Rightarrow> Conversation \<Rightarrow> string \<Rightarrow> tool_args \<Rightarrow> 's \<Rightarrow> (string go_result \<times> 's) option" where
  "ExecuteTool env proxy c toolName args s =
     (if toolName \<in> set disabled_tools then
        Some (Failed (''tool '' @ [CHR 0x27] @ toolName @ [CHR 0x27] @ '' is not available in this version''), s)
      else if HasDaemon c \<and> IsPrivilegedTool toolName then
        map_option (\<lambda>(r, s'). (case r of Inl e \<Rightarrow> Failed e | Inr out \<Rightarrow> Ok out, s')) (proxy toolName args s)
      else case CurrentSnapshot c of
             None \<Rightarrow> Some (Failed ''no snapshot loaded'', s)
           | Some snap \<Rightarrow>
               map_option (\<lambda>res. (truncate_result (MaxResultChars c) res, s))
                 (ExecuteToolOnSnapshot env toolName args snap))"

section \<open>Messages survive the service's format\<close>

definition call_plain :: "ToolCall \<Rightarrow> bool" where
  "call_plain tc \<longleftrightarrow> utf8_valid (tcID tc) \<and> utf8_valid (tcType tc) \<and> utf8_valid (tcName tc) \<and> utf8_valid (tcArguments tc)"

definition msg_plain :: "Message \<Rightarrow> bool" where
  "msg_plain m \<longleftrightarrow> utf8_valid (role_text (msgRole m)) \<and> role_of (role_text (msgRole m)) = msgRole m
     \<and> utf8_valid (msgContent m) \<and> utf8_valid (msgToolCallID m) \<and> utf8_valid (msgName m)
     \<and> (\<forall>tc \<in> set (msgToolCalls m). call_plain tc)"

lemma UnmarshalToolCall_json: "call_plain tc \<Longrightarrow> UnmarshalToolCall (ToolCall_json tc) = Some tc"
  by (simp add: UnmarshalToolCall_def ToolCall_json_def call_plain_def json_get)

interpretation calls: codec ToolCall_json UnmarshalToolCall call_plain
  by unfold_locales (simp add: UnmarshalToolCall_json, simp add: ToolCall_json_def)

lemma get_field_omitted:
  "map_of fs nm = (if t = [] then None else Some (jstr t)) \<Longrightarrow> utf8_valid t \<Longrightarrow> get_field as_string [] fs nm = Some t"
  by (auto simp: get_field_def json_get split: if_splits) (simp add: jstr_def to_valid_id)

lemma UnmarshalMessage_json:
  assumes "msg_plain m"
  shows "UnmarshalMessage (Message_json m) = Some m"
proof -
  obtain fs where fs: "Message_json m = JObj fs" by (simp add: Message_json_def)
  have calls: "get_field (as_list UnmarshalToolCall zero_call) [] fs ''tool_calls'' = Some (msgToolCalls m)"
    using assms fs calls.list_dec [of "msgToolCalls m" zero_call]
    by (auto simp: Message_json_def msg_plain_def omit_if_def get_field_def simp del: as_list.simps)
  have strs: "get_field as_string [] fs ''role'' = Some (role_text (msgRole m))"
    "get_field as_string [] fs ''content'' = Some (msgContent m)"
    using assms fs by (auto simp: Message_json_def msg_plain_def json_get)
  have omitted: "get_field as_string [] fs ''tool_call_id'' = Some (msgToolCallID m)"
    "get_field as_string [] fs ''name'' = Some (msgName m)"
    using assms fs by (auto simp: Message_json_def msg_plain_def omit_if_def intro!: get_field_omitted)
  show ?thesis
    using assms by (simp add: fs UnmarshalMessage_def strs omitted calls msg_plain_def)
qed

interpretation messages: codec Message_json UnmarshalMessage msg_plain
  by unfold_locales (simp add: UnmarshalMessage_json, simp add: Message_json_def)

section \<open>Pruning the history\<close>

lemma content_chars_simps [simp]:
  "content_chars [] = 0" "content_chars (m # ms) = int (length (msgContent m)) + content_chars ms"
  by (simp_all add: content_chars_def)

lemma content_chars_nonneg [simp]: "0 \<le> content_chars ms"
  by (induction ms) auto

text \<open>What pruning keeps: a suffix; what it dropped it had to drop; it fits, or is one message.\<close>

lemma prune_suffix:
  "ms \<noteq> [] \<Longrightarrow> \<exists>k < length ms. prune n (c + content_chars ms) ms = drop k ms
    \<and> (k + 1 < length ms \<longrightarrow> c + content_chars (drop k ms) \<le> n)
    \<and> (\<forall>j < k. n < c + content_chars (drop j ms))"
proof (induction ms)
  case (Cons m ms)
  show ?case
  proof (cases "ms \<noteq> [] \<and> n < c + content_chars (m # ms)")
    case True
    then obtain m' ms' where ms: "ms = m' # ms'" by (cases ms) auto
    from True Cons.IH obtain k where k: "k < length ms" "prune n (c + content_chars ms) ms = drop k ms"
      "k + 1 < length ms \<longrightarrow> c + content_chars (drop k ms) \<le> n" "\<forall>j < k. n < c + content_chars (drop j ms)"
      by blast
    have "prune n (c + content_chars (m # ms)) (m # ms) = drop (Suc k) (m # ms)"
      using True k(2) by (simp add: ms)
    moreover have "\<forall>j < Suc k. n < c + content_chars (drop j (m # ms))"
      using True k(4) by (simp add: All_less_Suc2)
    ultimately show ?thesis using k(1,3) by (intro exI [of _ "Suc k"]) simp
  next
    case False
    then have "prune n (c + content_chars (m # ms)) (m # ms) = m # ms" by (cases ms) auto
    with False show ?thesis by (intro exI [of _ 0]) auto
  qed
qed simp

text \<open>
  C36: pruning keeps the system prompt and a suffix of the rest: the longest one that fits the limit, or
  the last message alone when not even that fits. A history that fits, or has two messages, is kept.
\<close>

theorem ManageHistory_window:
  assumes "History c = sys # others"
  shows "\<exists>k. History (ManageHistory c) = sys # drop k others
    \<and> (k = 0 \<or> k < length others)
    \<and> (k + 1 < length others \<longrightarrow> content_chars (sys # drop k others) \<le> MaxTotalTokens c * 4)
    \<and> (\<forall>j < k. MaxTotalTokens c * 4 < content_chars (sys # drop j others))"
proof (cases "length others \<le> 1 \<or> content_chars (sys # others) \<le> MaxTotalTokens c * 4")
  case True
  then show ?thesis using assms by (intro exI [of _ 0]) (auto simp: ManageHistory_def)
next
  case False
  then have "others \<noteq> []" by auto
  from prune_suffix [OF this, of "MaxTotalTokens c * 4" "int (length (msgContent sys))"]
  obtain k where "k < length others"
    "prune (MaxTotalTokens c * 4) (content_chars (sys # others)) others = drop k others"
    "k + 1 < length others \<longrightarrow> content_chars (sys # drop k others) \<le> MaxTotalTokens c * 4"
    "\<forall>j < k. MaxTotalTokens c * 4 < content_chars (sys # drop j others)"
    by auto
  then show ?thesis using False assms by (intro exI [of _ k]) (simp add: ManageHistory_def)
qed

definition small_history :: "Message list" where
  "small_history = [plain_msg RoleSystem ''System Prompt'', plain_msg RoleUser ''1234567890'',
     plain_msg RoleAssistant ''1234567890'', plain_msg RoleUser ''1234567890'']"

lemma ManageHistory_window_witness:
  "\<exists>k. History (ManageHistory ((NewConversation None False)\<lparr>History := small_history, MaxTotalTokens := 10\<rparr>)) =
      plain_msg RoleSystem ''System Prompt'' # drop k (tl small_history) \<and> k \<le> 2"
  using ManageHistory_window [of "(NewConversation None False)\<lparr>History := small_history, MaxTotalTokens := 10\<rparr>"
      "plain_msg RoleSystem ''System Prompt''" "tl small_history"]
  by (fastforce simp: small_history_def)

text \<open>
  The service takes a tool message only after an assistant message that made its call.
\<close>

fun answers_follow :: "string set \<Rightarrow> Message list \<Rightarrow> bool" where
  "answers_follow open_calls [] \<longleftrightarrow> True"
| "answers_follow open_calls (m # ms) \<longleftrightarrow>
     (msgRole m = RoleTool \<longrightarrow> msgToolCallID m \<in> open_calls)
     \<and> answers_follow (open_calls \<union> tcID ` set (msgToolCalls m)) ms"

text \<open>
  pruning can cut between a tool call and its answer. Whenever the system prompt, the call and the
  answers exceed the limit and the answers alone do not, the history that is sent starts, after the
  system prompt, with a tool message that answers no call.
\<close>

theorem ManageHistory_orphans_answers:
  assumes "History c = sys # ask # ans # rest" and "msgToolCalls sys = []"
    and "msgRole ans = RoleTool" and "MaxTotalTokens c * 4 < content_chars (History c)"
    and "content_chars (sys # ans # rest) \<le> MaxTotalTokens c * 4"
  shows "History (ManageHistory c) = sys # ans # rest \<and> \<not> answers_follow {} (History (ManageHistory c))"
proof -
  have "prune n t (ans # rest) = ans # rest" if "t \<le> n" for n t
    using that by (cases rest) auto
  then have "History (ManageHistory c) = sys # ans # rest" using assms by (simp add: ManageHistory_def)
  then show ?thesis using assms(2,3) by simp
qed

lemma ManageHistory_orphans_answers_witness:
  "\<exists>c. answers_follow {} (History c) \<and> \<not> answers_follow {} (History (ManageHistory c))"
proof -
  let ?ask = "\<lparr>msgRole = RoleAssistant, msgContent = ''let me look'', msgToolCallID = [], msgName = [],
    msgToolCalls = [\<lparr>tcID = ''c1'', tcType = ''function'', tcName = ''summary'', tcArguments = ''{}''\<rparr>]\<rparr>"
  let ?ans = "(plain_msg RoleTool ''ok'')\<lparr>msgToolCallID := ''c1'', msgName := ''summary''\<rparr>"
  let ?c = "(NewConversation None False)\<lparr>History := [plain_msg RoleSystem ''hi'', ?ask, ?ans], MaxTotalTokens := 1\<rparr>"
  have "\<not> answers_follow {} (History (ManageHistory ?c))"
    using ManageHistory_orphans_answers [of ?c "plain_msg RoleSystem ''hi''" ?ask ?ans "[]"] by (simp add: plain_msg_def)
  moreover have "answers_follow {} (History ?c)" by (simp add: plain_msg_def)
  ultimately show ?thesis by blast
qed

section \<open>Results of tools\<close>

text \<open>
  C27: a conversation with a daemon runs a privileged tool on the daemon's present tree, whatever
  snapshot it has loaded, and takes the result at its full length. Every other tool runs on the snapshot of the
  conversation and leaves the daemon alone, and its result is cut to the limit of the conversation; without a
  snapshot it fails.
\<close>

theorem privileged_tools_see_the_present:
  assumes up: "trDial tr = None" and shot: "shot (svTree s) = Some (now_snap, t)" and args: "wf_map args"
    and daemon: "HasDaemon c" and name: "IsPrivilegedTool toolName" "toolName \<notin> set disabled_tools"
    and run: "ExecuteToolOnSnapshot env toolName args now_snap = Some (Ok out)"
    and other: "\<not> IsPrivilegedTool other" "other \<notin> set disabled_tools"
    and proxy: "proxy = Client_ExecuteTool (daemon_call tr env shot sq) render"
  shows "ExecuteTool env proxy (c\<lparr>CurrentSnapshot := loaded\<rparr>) toolName args s = Some (Ok out, s\<lparr>svTree := t\<rparr>)
    \<and> ExecuteTool env proxy (c\<lparr>CurrentSnapshot := Some snap\<rparr>) other args s =
        map_option (\<lambda>res. (truncate_result (MaxResultChars c) res, s)) (ExecuteToolOnSnapshot env other args snap)
    \<and> ExecuteTool env proxy (c\<lparr>CurrentSnapshot := None\<rparr>) other args s = Some (Failed ''no snapshot loaded'', s)
    \<and> (\<forall>res small. truncate_result (MaxResultChars c) res = Ok small \<longrightarrow>
         length small \<le> nat (MaxResultChars c) + length truncation_mark)"
proof (intro conjI allI impI)
  have plain: "plain_text toolName" "toolName \<noteq> []"
    using name(1) by (auto simp: IsPrivilegedTool_def plain_text_def url_plain_def ctl_byte_def)
  have call: "proxy toolName args s = Some (Inr out, s\<lparr>svTree := t\<rparr>)"
    unfolding proxy using Client_ExecuteTool_daemon [where shot = shot, OF up plain args shot run] by simp
  show "ExecuteTool env proxy (c\<lparr>CurrentSnapshot := loaded\<rparr>) toolName args s = Some (Ok out, s\<lparr>svTree := t\<rparr>)"
    using daemon name call by (simp add: ExecuteTool_def)
  show "ExecuteTool env proxy (c\<lparr>CurrentSnapshot := Some snap\<rparr>) other args s =
      map_option (\<lambda>res. (truncate_result (MaxResultChars c) res, s)) (ExecuteToolOnSnapshot env other args snap)"
    "ExecuteTool env proxy (c\<lparr>CurrentSnapshot := None\<rparr>) other args s = Some (Failed ''no snapshot loaded'', s)"
    using other by (simp_all add: ExecuteTool_def)
  fix res small
  assume "truncate_result (MaxResultChars c) res = Ok small"
  then obtain r where "TruncateString r (MaxResultChars c) = Some small"
    by (auto simp: truncate_result_def split: go_result.splits option.splits)
  then show "length small \<le> nat (MaxResultChars c) + length truncation_mark"
    by (auto simp: TruncateString_def split: if_splits)
qed

text \<open>A conversation on an old, empty snapshot: the maps come from the daemon's, the libraries from its own.\<close>

definition empty_snap :: FrozenSnapshot where
  "empty_snap = \<lparr>Timestamp = 0, FByPID = [], FGhosts = [], FStracePath = []\<rparr>"

lemma privileged_tools_see_the_present_witness:
  "let env = sample_env (\<lambda>_. Inl []); c = (NewConversation None True)\<lparr>CurrentSnapshot := Some empty_snap\<rparr>;
       proxy = Client_ExecuteTool sample_daemon (\<lambda>_. [])
   in ExecuteTool env proxy c ''get_maps'' [] sample_server =
        Some (Ok (ReadProcessMaps (teHost env) sample_snap (arg_pid env [])), sample_server)
    \<and> ExecuteTool env proxy c ''get_libraries'' [] sample_server =
        Some (truncate_result DefaultMaxResultChars (Ok (GetLinkedLibraries (teHost env) empty_snap (arg_pid env []))), sample_server)"
proof -
  let ?env = "sample_env (\<lambda>_. Inl [])" and ?tr = "\<lparr>trDial = None, trEOF = ''EOF'', trBadURL = (\<lambda>_. [])\<rparr> :: transport"
  have run: "ExecuteToolOnSnapshot ?env ''get_maps'' [] sample_snap =
      Some (Ok (ReadProcessMaps (teHost ?env) sample_snap (arg_pid ?env [])))"
    by (simp add: ExecuteToolOnSnapshot_def Let_def)
  have libs: "ExecuteToolOnSnapshot ?env ''get_libraries'' [] empty_snap =
      Some (Ok (GetLinkedLibraries (teHost ?env) empty_snap (arg_pid ?env [])))"
    by (simp add: ExecuteToolOnSnapshot_def Let_def)
  have names: "IsPrivilegedTool ''get_maps''" "''get_maps'' \<notin> set disabled_tools" "\<not> IsPrivilegedTool ''get_libraries''"
    "''get_libraries'' \<notin> set disabled_tools"
    by (simp_all add: IsPrivilegedTool_def disabled_tools_def)
  have c: "HasDaemon (NewConversation None True)" "MaxResultChars (NewConversation None True) = DefaultMaxResultChars"
    by (simp_all add: NewConversation_def)
  have same: "sample_server\<lparr>svTree := t\<rparr> = sample_server" for t by simp
  have "wf_map ([] :: tool_args)" by (simp add: wf_map_def)
  from privileged_tools_see_the_present [where shot = "\<lambda>t. Some (sample_snap, t)" and tr = ?tr and s = sample_server
      and loaded = "Some empty_snap" and snap = empty_snap and sq = list_sql,
      OF _ refl this c(1) names(1,2) run names(3,4) refl, unfolded sample_daemon_def [symmetric] libs same c(2)]
  show ?thesis by (simp add: Let_def same)
qed

end
