(* ===== verification/Cards.thy ===== *)
theory Cards
  imports Conversation
begin

text \<open>
  What the terminal shows of a tool call (\<^verbatim>\<open>main.go\<close>): the card with its one line of metadata, the
  reports, and the helpers on text. Lip Gloss is a library: a style is a function on text. The record
  \<open>ui\<close> holds the styles, the box around a report, the decoder of \<^verbatim>\<open>encoding/json\<close>, the verb \<^verbatim>\<open>%v\<close> on a
  decoded value, the upper case of a rune outside ASCII, \<^verbatim>\<open>int\<close> of a float, and the order of a range
  over a map.
\<close>

record ui =
  promptStyle :: "string \<Rightarrow> string"
  shellStyle :: "string \<Rightarrow> string"
  errorStyle :: "string \<Rightarrow> string"
  hintStyle :: "string \<Rightarrow> string"
  statusStyle :: "string \<Rightarrow> string"
  okStyle :: "string \<Rightarrow> string"
  dimStyle :: "string \<Rightarrow> string"
  bodyStyle :: "string \<Rightarrow> string"
  toolCardNameStyle :: "string \<Rightarrow> string"
  toolCardMetaStyle :: "string \<Rightarrow> string"
  toolCardHighStyle :: "string \<Rightarrow> string"
  selStyle :: "string \<Rightarrow> string"
  boxed :: "string \<Rightarrow> string \<Rightarrow> string"
  uiParse :: "string \<Rightarrow> json option"
  fmtV :: "json \<Rightarrow> string"
  upperRune :: "string \<Rightarrow> string"
  uiInt :: "float64 \<Rightarrow> int"
  uiOrder :: "string list \<Rightarrow> string list"

section \<open>Helpers on text\<close>

abbreviation esc_byte :: char where "esc_byte \<equiv> CHR 0x1B"

definition ends_escape :: "char \<Rightarrow> bool" where
  "ends_escape c \<longleftrightarrow> (CHR ''A'' \<le> c \<and> c \<le> CHR ''Z'') \<or> (CHR ''a'' \<le> c \<and> c \<le> CHR ''z'') \<or> c = CHR 0x7E"

function strip_runes :: "bool \<Rightarrow> string \<Rightarrow> string" where
  "strip_runes inEsc [] = []"
| "strip_runes inEsc (c # s) =
     (let w = rune_width (c # s); rest = drop (w - 1) s in
      if c = esc_byte then strip_runes True rest
      else if inEsc then strip_runes (\<not> ends_escape c) rest
      else (if w = 0 then replacement else take w (c # s)) @ strip_runes False rest)"
  by pat_completeness auto
termination by (relation "measure (\<lambda>(_, s). length s)") auto

definition stripAnsi :: "string \<Rightarrow> string" where
  "stripAnsi s = strip_runes False s"

definition trunc :: "string \<Rightarrow> nat \<Rightarrow> string" where
  "trunc s n = (if length s \<le> n then s else take (n - 1) s @ ellipsis)"

definition nonEmptyLines :: "string \<Rightarrow> string list" where
  "nonEmptyLines s = filter (\<lambda>l. TrimSpace l \<noteq> []) (Lines s)"

definition firstNonEmptyLine :: "string \<Rightarrow> string" where
  "firstNonEmptyLine s = (case nonEmptyLines s of [] \<Rightarrow> [] | l # _ \<Rightarrow> TrimSpace l)"

definition argStr :: "ui \<Rightarrow> tool_args \<Rightarrow> string \<Rightarrow> string" where
  "argStr u args key = (case map_of args key of None \<Rightarrow> [] | Some v \<Rightarrow> fmtV u v)"

definition dots :: "string list \<Rightarrow> string" where
  "dots parts = Join parts ('' '' @ [CHR 0xC2, CHR 0xB7] @ '' '')"

definition ascii_upper :: "char \<Rightarrow> char" where
  "ascii_upper c = (if 97 \<le> (of_char c :: nat) \<and> (of_char c :: nat) \<le> 122 then char_of (of_char c - 32 :: nat) else c)"

function upper_runes :: "(string \<Rightarrow> string) \<Rightarrow> string \<Rightarrow> string" where
  "upper_runes up [] = []"
| "upper_runes up (c # s) =
     (let w = rune_width (c # s) in
      (if w = 0 then replacement else if w = 1 then [ascii_upper c] else up (take w (c # s)))
      @ upper_runes up (drop (w - 1) s))"
  by pat_completeness auto
termination by (relation "measure (\<lambda>(_, s). length s)") auto

text \<open>\<^verbatim>\<open>strings.ToUpper\<close>.\<close>

definition ToUpper :: "ui \<Rightarrow> string \<Rightarrow> string" where
  "ToUpper u s = (if list_all is_ascii s then map ascii_upper s else upper_runes (upperRune u) s)"

definition part_if :: "bool \<Rightarrow> string \<Rightarrow> string list" where
  "part_if b s = (if b then [s] else [])"

definition count_lines :: "(string \<Rightarrow> bool) \<Rightarrow> string list \<Rightarrow> nat" where
  "count_lines P ls = length (filter P ls)"

definition last_segment :: "string \<Rightarrow> string" where
  "last_segment path = last (split_byte (CHR ''/'') path)"

text \<open>A slice in a decoded document; null is the nil slice.\<close>

definition as_slice :: "(json \<Rightarrow> 'a option) \<Rightarrow> 'a \<Rightarrow> json \<Rightarrow> 'a list option" where
  "as_slice conv zero j = (if j = JNull then Some [] else as_list conv zero j)"

definition decoded :: "ui \<Rightarrow> (json \<Rightarrow> 'a option) \<Rightarrow> string \<Rightarrow> 'a option" where
  "decoded u conv result = Option.bind (uiParse u result) conv"

section \<open>Metadata of the tools\<close>

definition browser_row :: "json \<Rightarrow> (string \<times> string \<times> string) option" where
  "browser_row j =
     Option.bind (json_fields j) (\<lambda>fs.
     Option.bind (get_field as_string [] fs ''browser'') (\<lambda>b.
     Option.bind (get_field as_string [] fs ''type'') (\<lambda>t.
     Option.bind (get_field as_string [] fs ''url'') (\<lambda>url. Some (b, t, url)))))"

definition metaBrowserMap :: "ui \<Rightarrow> string \<Rightarrow> string" where
  "metaBrowserMap u result =
     (case decoded u (as_slice browser_row ([], [], [])) result of
        None \<Rightarrow> ''browser map generated''
      | Some procs \<Rightarrow>
          (let chrome = length (filter (\<lambda>(b, _, _). b = ''chrome'') procs);
               firefox = length (filter (\<lambda>(b, _, _). b \<noteq> ''chrome'') procs);
               tabs = length (filter (\<lambda>(b, t, url). if b = ''chrome'' then url \<noteq> [] else t = ''web_content'') procs);
               parts = part_if (0 < chrome) (dec chrome @ '' chrome'')
                 @ part_if (0 < firefox) (dec firefox @ '' firefox'')
                 @ part_if (0 < tabs) (toolCardHighStyle u (dec tabs @ '' tabs''))
           in if parts = [] then ''no browsers found'' else dots parts))"

definition metaSSLIntercept :: "ui \<Rightarrow> string \<Rightarrow> tool_args \<Rightarrow> string" where
  "metaSSLIntercept u result args =
     (let pid = argStr u args ''pid''; lns = nonEmptyLines result in
      case filter (\<lambda>l. HasPrefix l ''Endpoints discovered:'') lns of
        line # _ \<Rightarrow>
          dots ([''PID '' @ pid, toolCardHighStyle u (TrimPrefix line ''Endpoints discovered: '' @ '' endpoints'')]
            @ part_if (list_ex (\<lambda>l. Contains l ''Unauthenticated endpoint'') lns)
                (errorStyle u ([CHR 0xE2, CHR 0x9A, CHR 0xA0] @ '' unauth routes detected'')))
      | [] \<Rightarrow> ''PID '' @ pid @ '' '' @ [CHR 0xC2, CHR 0xB7] @ '' '' @ trunc (firstNonEmptyLine result) 50)"

definition summary_proc :: "json \<Rightarrow> (string \<times> float64) option" where
  "summary_proc j =
     Option.bind (json_fields j) (\<lambda>fs.
     Option.bind (get_field (as_nat 32) 0 fs ''pid'') (\<lambda>_.
     Option.bind (get_field as_string [] fs ''name'') (\<lambda>name.
     Option.bind (get_field as_float 0 fs ''cpu_usage_percent'') (\<lambda>cpu.
     Option.bind (get_field (as_nat 64) 0 fs ''memory_usage_kb'') (\<lambda>_.
     Option.bind (get_field as_int 0 fs ''total_opens'') (\<lambda>_.
     Option.bind (get_field as_int 0 fs ''total_connections'') (\<lambda>_. Some (name, cpu))))))))"

definition summary_group :: "json \<Rightarrow> (string \<times> float64) list option" where
  "summary_group j =
     Option.bind (json_fields j) (\<lambda>fs.
     Option.bind (get_field as_string [] fs ''group_name'') (\<lambda>_.
     get_field (as_list summary_proc ([], 0)) [] fs ''processes''))"

definition summary_ghost :: "json \<Rightarrow> string option" where
  "summary_ghost j = Option.bind (json_fields j) (\<lambda>fs. get_field as_string [] fs ''name'')"

definition summary_shape :: "json \<Rightarrow> ((string \<times> float64) list list \<times> string list) option" where
  "summary_shape j =
     Option.bind (json_fields j) (\<lambda>fs.
     Option.bind (get_field (as_list summary_group []) [] fs ''active_groups'') (\<lambda>groups.
     Option.bind (get_field (as_list summary_ghost []) [] fs ''recently_exited'') (\<lambda>ghosts. Some (groups, ghosts))))"

definition top_cpu :: "(string \<times> float64) list \<Rightarrow> string \<times> float64" where
  "top_cpu ps = foldl (\<lambda>best p. if snd best < snd p then p else best) ([], 0) ps"

definition metaSummary :: "ui \<Rightarrow> string \<Rightarrow> string" where
  "metaSummary u result =
     (case decoded u summary_shape result of
        None \<Rightarrow> dec (length (nonEmptyLines result)) @ '' entries''
      | Some (groups, ghosts) \<Rightarrow>
          (let (topName, topCPU) = top_cpu (concat groups) in
           dots ([dec (length groups) @ '' groups'', dec (length (concat groups)) @ '' processes'']
             @ part_if (ghosts \<noteq> []) (dec (length ghosts) @ '' exited'')
             @ part_if (topName \<noteq> [] \<and> 1 / 2 < topCPU)
                 (toolCardHighStyle u (''top: '' @ trunc topName 20 @ '' '' @ fmt_fixed 1 topCPU @ CHR ''%'' # [])))))"

definition search_row :: "json \<Rightarrow> (string \<times> string) option" where
  "search_row j =
     Option.bind (json_fields j) (\<lambda>fs.
     Option.bind (get_field (as_nat 32) 0 fs ''pid'') (\<lambda>_.
     Option.bind (get_field as_string [] fs ''comm'') (\<lambda>comm.
     Option.bind (get_field as_string [] fs ''match_kind'') (\<lambda>kind.
     Option.bind (get_field as_string [] fs ''target'') (\<lambda>_. Some (comm, kind))))))"

definition metaSearch :: "ui \<Rightarrow> string \<Rightarrow> tool_args \<Rightarrow> string" where
  "metaSearch u result args =
     (let query = argStr u args ''query'' in
      case decoded u (as_slice search_row ([], [])) result of
        None \<Rightarrow> ''/'' @ query @ ''/ '' @ [CHR 0xE2, CHR 0x86, CHR 0x92] @ '' '' @ dec (length (nonEmptyLines result)) @ '' results''
      | Some items \<Rightarrow>
          (let procMatches = length (filter (\<lambda>(_, k). k = ''process'' \<or> k = ''both'') items);
               effectMatches = length (filter (\<lambda>(_, k). \<not> (k = ''process'' \<or> k = ''both'')) items);
               names = foldl (\<lambda>ns (c, _). if c \<in> set ns then ns else ns @ [c]) [] items
           in dots ([''/'' @ query @ ''/'']
                @ part_if (0 < procMatches) (toolCardHighStyle u (dec procMatches @ '' proc matches''))
                @ part_if (0 < effectMatches) (dec effectMatches @ '' effect matches'')
                @ part_if (names \<noteq> []) (Join (take 3 names) '', ''))))"

text \<open>The decoder of the recursive node; the size of the document bounds the depth.\<close>

fun family_of :: "nat \<Rightarrow> json \<Rightarrow> FamilyNode option" where
  "family_of 0 j = None"
| "family_of (Suc n) j =
     Option.bind (json_fields j) (\<lambda>fs.
     Option.bind (get_field (as_nat 32) 0 fs ''pid'') (\<lambda>pid.
     Option.bind (get_field as_string [] fs ''comm'') (\<lambda>comm.
     Option.bind (get_field as_bool False fs ''is_target'') (\<lambda>tgt.
     Option.bind (get_field (as_list (family_of n) (FamilyNode 0 [] False [])) [] fs ''children'') (\<lambda>kids.
     Some (FamilyNode (of_nat pid) comm tgt kids))))))"

definition UnmarshalFamily :: "json \<Rightarrow> FamilyNode option" where
  "UnmarshalFamily j = family_of (Suc (size j)) j"

text \<open>The walk: the target's name, its parent's, and its children's names.\<close>

fun family_walk :: "FamilyNode \<Rightarrow> string \<Rightarrow> string \<times> string \<times> string list \<Rightarrow> string \<times> string \<times> string list" where
  "family_walk (FamilyNode pid comm tgt kids) parent (t, p, cs) =
     (if tgt then (comm, parent, cs @ map fnComm kids)
      else fold (\<lambda>k st. family_walk k comm st) kids (t, p, cs))"

definition metaFamily :: "ui \<Rightarrow> string \<Rightarrow> tool_args \<Rightarrow> string" where
  "metaFamily u result args =
     (case decoded u UnmarshalFamily result of
        None \<Rightarrow> ''PID '' @ argStr u args ''pid'' @ '' lineage''
      | Some rt \<Rightarrow>
          (let (t, parentComm, childNames) = family_walk rt [] ([], [], []);
               targetComm = (if t = [] then fnComm rt else t)
           in Join (part_if (parentComm \<noteq> []) parentComm @ [toolCardHighStyle u targetComm]
                @ part_if (childNames \<noteq> []) (Join (take 3 childNames) '', '')
                @ part_if (3 < length childNames) (CHR ''+'' # dec (length childNames - 3) @ '' more''))
                ('' '' @ [CHR 0xE2, CHR 0x86, CHR 0x92] @ '' '')))"

definition metaMaps :: "ui \<Rightarrow> string \<Rightarrow> tool_args \<Rightarrow> string" where
  "metaMaps u result args =
     (let lns = nonEmptyLines result; libCount = count_lines (\<lambda>l. Contains l ''.so'') lns in
      dots ([''PID '' @ argStr u args ''pid'', dec (length lns) @ '' regions'']
        @ part_if (Contains result ''[heap]'') ''heap'' @ part_if (Contains result ''[stack]'') ''stack''
        @ part_if (0 < libCount) (dec libCount @ '' libs mapped'')))"

definition lib_name :: "string \<Rightarrow> string option" where
  "lib_name l = (case filter (\<lambda>p. Contains p ''.so'') (Fields l) of [] \<Rightarrow> None | p # _ \<Rightarrow> Some (last_segment p))"

definition metaLibraries :: "string \<Rightarrow> string" where
  "metaLibraries result =
     (let lns = nonEmptyLines result; libs = filter (\<lambda>l. Contains l ''.so'') lns; names = List.map_filter lib_name libs in
      if libs = [] then dec (length lns) @ '' entries''
      else dec (length libs) @ '' shared libraries''
        @ (if names = [] then [] else '' '' @ [CHR 0xC2, CHR 0xB7] @ '' '' @ Join (take 3 names) '', ''))"

definition syscall_of :: "string \<Rightarrow> string option" where
  "syscall_of l =
     (case IndexByte l (CHR ''('') of
        Some i \<Rightarrow>
          (let sc = TrimSpace (take i l) in
           if 0 < i \<and> sc \<noteq> [] \<and> \<not> Contains sc '' '' then Some sc else None)
      | None \<Rightarrow> None)"

definition count_names :: "string list \<Rightarrow> (string, nat) gomap" where
  "count_names ns = foldl (\<lambda>m n. go_put n (or_zero 0 (map_of m n) + 1) m) [] ns"

definition top_count :: "(string \<times> nat) list \<Rightarrow> string \<times> nat" where
  "top_count cs = foldl (\<lambda>best p. if snd best < snd p then p else best) ([], 0) cs"

definition metaTrace :: "ui \<Rightarrow> string \<Rightarrow> tool_args \<Rightarrow> string" where
  "metaTrace u result args =
     (let lns = nonEmptyLines result; syscalls = count_names (List.map_filter syscall_of lns);
          (topSC, topCount) = top_count (go_range (uiOrder u) syscalls)
      in dots ([''PID '' @ argStr u args ''pid'', dec (length lns) @ '' calls'',
            dec (length syscalls) @ '' unique syscalls'']
          @ part_if (topSC \<noteq> []) (toolCardHighStyle u (''top: '' @ topSC @ '' '' @ [CHR 0xC3, CHR 0x97] @ dec topCount))))"

definition metaReadFile :: "ui \<Rightarrow> string \<Rightarrow> tool_args \<Rightarrow> string" where
  "metaReadFile u result args =
     (let preview = trunc (TrimSpace (firstNonEmptyLine result)) 30 in
      dots ([last_segment (argStr u args ''path''), dec (length result) @ '' bytes'',
          dec (length (nonEmptyLines result)) @ '' lines'']
        @ part_if (preview \<noteq> []) (hintStyle u preview)))"

text \<open>A byte below 128 is always a rune of its own.\<close>

definition metaReadMemory :: "ui \<Rightarrow> string \<Rightarrow> tool_args \<Rightarrow> string" where
  "metaReadMemory u result args =
     (let printable = length (filter (\<lambda>c. 32 \<le> (of_char c :: nat) \<and> (of_char c :: nat) < 127) result);
          pct = (if result = [] then 0 else printable * 100 div length result)
      in ''PID '' @ argStr u args ''pid'' @ '' @ 0x'' @ argStr u args ''address_hex'' @ '' '' @ [CHR 0xC2, CHR 0xB7] @ '' '' @ dec (length result)
         @ '' bytes '' @ [CHR 0xC2, CHR 0xB7] @ '' '' @ dec pct @ ''% printable'')"

definition metaHash :: "ui \<Rightarrow> string \<Rightarrow> tool_args \<Rightarrow> string" where
  "metaHash u result args =
     (let hash = TrimSpace result in
      ''PID '' @ argStr u args ''pid'' @ '' '' @ [CHR 0xC2, CHR 0xB7] @ '' sha256:'' @ (if 16 < length hash then take 16 hash @ ellipsis else hash))"

definition metaShellHistory :: "ui \<Rightarrow> string \<Rightarrow> tool_args \<Rightarrow> string" where
  "metaShellHistory u result args =
     (let user = argStr u args ''user''; lns = nonEmptyLines result in
      if lns = [] then user @ '' '' @ [CHR 0xC2, CHR 0xB7] @ '' empty''
      else dots ([user, dec (length lns) @ '' cmds'', ''last: '' @ trunc (TrimSpace (last lns)) 35]
        @ part_if (2 \<le> length lns) (''prev: '' @ trunc (TrimSpace (lns ! (length lns - 2))) 25)))"

definition metaNetwork :: "ui \<Rightarrow> string \<Rightarrow> tool_args \<Rightarrow> string" where
  "metaNetwork u result args =
     (let lns = nonEmptyLines result; hits = \<lambda>w. count_lines (\<lambda>l. Contains (ToUpper u l) w) lns in
      dots ([''PID '' @ argStr u args ''pid'', dec (length lns) @ '' connections'']
        @ part_if (0 < hits ''ESTABLISHED'') (toolCardHighStyle u (dec (hits ''ESTABLISHED'') @ '' ESTABLISHED''))
        @ part_if (0 < hits ''LISTEN'') (dec (hits ''LISTEN'') @ '' LISTEN'')
        @ part_if (0 < hits ''CLOSE_WAIT'') (toolCardHighStyle u (dec (hits ''CLOSE_WAIT'') @ '' CLOSE_WAIT''))))"

definition sensitive_var :: "ui \<Rightarrow> string \<Rightarrow> bool" where
  "sensitive_var u l \<longleftrightarrow>
     list_ex (Contains (ToUpper u l)) [''KEY'', ''SECRET'', ''TOKEN'', ''PASS'', ''CREDENTIAL'']"

definition metaEnviron :: "ui \<Rightarrow> string \<Rightarrow> tool_args \<Rightarrow> string" where
  "metaEnviron u result args =
     (let lns = nonEmptyLines result; sensitive = count_lines (sensitive_var u) lns in
      dots ([''PID '' @ argStr u args ''pid'' @ '' '' @ [CHR 0xC2, CHR 0xB7] @ '' '' @ dec (length lns) @ '' vars'']
        @ part_if (0 < sensitive) (toolCardHighStyle u ([CHR 0xE2, CHR 0x9A, CHR 0xA0] @ '' '' @ dec sensitive @ '' sensitive''))))"

definition metaStrings :: "ui \<Rightarrow> string \<Rightarrow> tool_args \<Rightarrow> string" where
  "metaStrings u result args =
     (let lns = nonEmptyLines result; urls = count_lines (\<lambda>l. Contains l ''http'' \<or> Contains l ''://'') lns in
      last_segment (argStr u args ''path'') @ '' '' @ [CHR 0xC2, CHR 0xB7] @ '' '' @ dec (length lns) @ '' strings''
      @ (if 0 < urls then '' '' @ [CHR 0xC2, CHR 0xB7] @ '' '' @ toolCardHighStyle u (dec urls @ '' URLs'') else []))"

definition metaScanHeap :: "ui \<Rightarrow> string \<Rightarrow> tool_args \<Rightarrow> string" where
  "metaScanHeap u result args =
     (let pid = argStr u args ''pid''; lns = nonEmptyLines result;
          ips = count_lines (\<lambda>l. Contains l ''IP_ADDR'') lns; urls = count_lines (\<lambda>l. Contains l ''URL'') lns;
          keys = count_lines (\<lambda>l. Contains l ''POTENT_KEY'') lns
      in if ips + urls + keys = 0 then ''PID '' @ pid @ '' '' @ [CHR 0xC2, CHR 0xB7] @ '' No patterns found''
         else dots ([''PID '' @ pid] @ part_if (0 < ips) (dec ips @ '' IPs'') @ part_if (0 < urls) (dec urls @ '' URLs'')
           @ part_if (0 < keys) (toolCardHighStyle u (dec keys @ '' Keys''))))"

section \<open>The card\<close>

definition tool_icons :: "(string, string) gomap" where
  "tool_icons =
     [(''summary'', [CHR 0xE2, CHR 0x97, CHR 0x88]), (''inspect'', [CHR 0xE2, CHR 0x97, CHR 0x8E]), (''search'', [CHR 0xE2, CHR 0x8C, CHR 0x95]), (''family'', [CHR 0xE2, CHR 0x8E, CHR 0x87]), (''get_maps'', [CHR 0xE2, CHR 0x96, CHR 0xA4]),
      (''get_libraries'', [CHR 0xE2, CHR 0xA7, CHR 0x89]), (''trace'', [CHR 0xE2, CHR 0x9A, CHR 0xA1]), (''read_file'', [CHR 0xF0, CHR 0x9F, CHR 0x93, CHR 0x84]), (''read_memory'', [CHR 0xE2, CHR 0xAC, CHR 0xA1]),
      (''scan_heap'', [CHR 0xF0, CHR 0x9F, CHR 0x97, CHR 0x9C]), (''gohash_binary'', ''#''), (''goread_shell_history'', [CHR 0xE2, CHR 0x8F, CHR 0x8E]),
      (''gonetwork_state'', [CHR 0xF0, CHR 0x9F, CHR 0x94, CHR 0x97]), (''goread_environ'', [CHR 0xE2, CHR 0x8A, CHR 0x95]), (''goextract_strings'', [CHR 0xE2, CHR 0x9C, CHR 0x82])]"

definition iconForTool :: "string \<Rightarrow> string" where
  "iconForTool name = or_zero ([CHR 0xE2, CHR 0x9A, CHR 0x99]) (map_of tool_icons name)"

definition extractMeta :: "ui \<Rightarrow> string \<Rightarrow> tool_args \<Rightarrow> string \<Rightarrow> string" where
  "extractMeta u name args result =
     (if name = ''summary'' then metaSummary u result
      else if name = ''inspect'' then ''PID '' @ argStr u args ''pid'' @ '' '' @ [CHR 0xC2, CHR 0xB7] @ '' Inspect Completed''
      else if name = ''search'' then metaSearch u result args
      else if name = ''family'' then metaFamily u result args
      else if name = ''get_maps'' then metaMaps u result args
      else if name = ''get_libraries'' then metaLibraries result
      else if name = ''trace'' then metaTrace u result args
      else if name = ''read_file'' then metaReadFile u result args
      else if name = ''read_memory'' then metaReadMemory u result args
      else if name = ''gohash_binary'' then metaHash u result args
      else if name = ''goread_shell_history'' then metaShellHistory u result args
      else if name = ''gonetwork_state'' then metaNetwork u result args
      else if name = ''goread_environ'' then metaEnviron u result args
      else if name = ''goextract_strings'' then metaStrings u result args
      else if name = ''browser_map'' then metaBrowserMap u result
      else if name = ''ssl_intercept'' then metaSSLIntercept u result args
      else if name = ''scan_heap'' then metaScanHeap u result args
      else trunc (firstNonEmptyLine result) 60)"

definition buildToolCard :: "ui \<Rightarrow> string \<Rightarrow> tool_args \<Rightarrow> string \<Rightarrow> string" where
  "buildToolCard u name args result =
     (let pill = toolCardNameStyle u (iconForTool name @ '' '' @ name); meta = extractMeta u name args result in
      if meta = [] then ''  '' @ pill else ''  '' @ pill @ ''  '' @ toolCardMetaStyle u meta)"

section \<open>Reports\<close>

definition rule40 :: "ui \<Rightarrow> string" where
  "rule40 u = dimStyle u (concat (replicate 40 box_h)) @ nl"

definition grey :: string where "grey = ''#555555''"

text \<open>The array argument, and its lines: only the strings are shown.\<close>

definition arg_array :: "tool_args \<Rightarrow> string \<Rightarrow> json list option" where
  "arg_array args key = (case map_of args key of Some (JArr js) \<Rightarrow> Some js | _ \<Rightarrow> None)"

definition bullet_lines :: "(string \<Rightarrow> string) \<Rightarrow> string \<Rightarrow> json list \<Rightarrow> string" where
  "bullet_lines style mark js = concat (List.map_filter (\<lambda>j. map_option (\<lambda>s. style (mark @ s) @ nl) (as_string j)) js)"

definition list_section :: "ui \<Rightarrow> string \<Rightarrow> string \<Rightarrow> string \<Rightarrow> tool_args \<Rightarrow> string \<Rightarrow> string" where
  "list_section u title mark after args key =
     (case arg_array args key of
        Some (j # js) \<Rightarrow> toolCardHighStyle u (title @ nl) @ bullet_lines (dimStyle u) mark (j # js) @ after
      | _ \<Rightarrow> [])"

definition renderReportText :: "ui \<Rightarrow> tool_args \<Rightarrow> string" where
  "renderReportText u args =
     boxed u grey (toolCardNameStyle u ('' '' @ [CHR 0xF0, CHR 0x9F, CHR 0x93, CHR 0x9D] @ '' '' @ argStr u args ''title'' @ '' '') @ nl @ rule40 u
       @ argStr u args ''text'' @ nl)"

definition renderReportBehaviour :: "ui \<Rightarrow> tool_args \<Rightarrow> string" where
  "renderReportBehaviour u args =
     boxed u grey (toolCardNameStyle u ('' '' @ [CHR 0xF0, CHR 0x9F, CHR 0xA7, CHR 0xA0] @ '' Behaviour Analysis: '' @ argStr u args ''process_name'' @ '' '') @ nl
       @ rule40 u
       @ (case arg_array args ''insights'' of None \<Rightarrow> [] | Some js \<Rightarrow> bullet_lines (hintStyle u) (''  '' @ [CHR 0xE2, CHR 0x80, CHR 0xA2] @ '' '') js)
       @ nl @ toolCardHighStyle u ''Conclusion/Reasons: '' @ argStr u args ''reasons'' @ nl)"

definition renderReportFamily :: "ui \<Rightarrow> tool_args \<Rightarrow> string" where
  "renderReportFamily u args =
     (let target = argStr u args ''target_process'' in
      boxed u grey (toolCardNameStyle u ('' '' @ [CHR 0xE2, CHR 0x8E, CHR 0x87] @ '' Lineage: '' @ target @ '' '') @ nl @ rule40 u
        @ list_section u ''Ancestors:'' (''  '' @ [CHR 0xE2, CHR 0x86, CHR 0x91] @ '' '') [] args ''parents''
        @ selStyle u (''  '' @ target) @ nl
        @ list_section u ''Descendants:'' (''  '' @ [CHR 0xE2, CHR 0x86, CHR 0x93] @ '' '') [] args ''children''))"

definition connection_line :: "ui \<Rightarrow> json \<Rightarrow> string option" where
  "connection_line u j =
     (case j of
        JObj cmap \<Rightarrow>
          (let m = fold (\<lambda>(k, j). go_put k j) cmap [] in
           Some ((if map_of m ''is_suspicious'' = Some (JBool True) then errorStyle u (''  '' @ [CHR 0xE2, CHR 0x9A, CHR 0xA0] @ '' '') else ''  '' @ [CHR 0xE2, CHR 0x97, CHR 0x8B] @ '' '')
             @ pad_right 20 (argStr u m ''address'') @ '' '' @ dimStyle u (argStr u m ''state'') @ nl))
      | _ \<Rightarrow> None)"

definition renderReportNetwork :: "ui \<Rightarrow> tool_args \<Rightarrow> string" where
  "renderReportNetwork u args =
     boxed u grey (toolCardNameStyle u ('' '' @ [CHR 0xF0, CHR 0x9F, CHR 0x94, CHR 0x97] @ '' Network Intelligence '') @ nl @ rule40 u
       @ argStr u args ''summary'' @ nl @ nl
       @ (case arg_array args ''connections'' of
            None \<Rightarrow> []
          | Some js \<Rightarrow> toolCardHighStyle u (''Connections:'' @ nl) @ concat (List.map_filter (connection_line u) js)))"

definition renderReportThreat :: "ui \<Rightarrow> tool_args \<Rightarrow> string" where
  "renderReportThreat u args =
     (let harm = argStr u args ''harm_level''; high = (harm = ''High'' \<or> harm = ''Critical'');
          titleBar = (if high then errorStyle u ('' '' @ [CHR 0xE2, CHR 0x98, CHR 0xA0] @ '' CRITICAL THREAT DETECTED '')
            else if harm = ''Medium'' then '' '' @ [CHR 0xE2, CHR 0x9A, CHR 0xA0] @ '' Suspicious Activity '' else '' '' @ [CHR 0xF0, CHR 0x9F, CHR 0x9B, CHR 0xA1, CHR 0xEF, CHR 0xB8, CHR 0x8F] @ '' Threat Assessment '')
      in boxed u (if high then ''#FF0000'' else if harm = ''Medium'' then ''#FFAA00'' else grey)
        (titleBar @ nl @ rule40 u @ toolCardHighStyle u (''Level: '' @ harm) @ nl
         @ argStr u args ''threat_explanation'' @ nl @ nl
         @ list_section u ''Involved Processes:'' (''  '' @ [CHR 0xE2, CHR 0x80, CHR 0xA2] @ '' '') [] args ''involved_processes''
         @ list_section u ''Involved Effects:'' (''  '' @ [CHR 0xE2, CHR 0x80, CHR 0xA2] @ '' '') [] args ''involved_effects''
         @ nl @ errorStyle u ''Verdict: '' @ argStr u args ''conclusion'' @ nl))"

definition renderReportSystemState :: "ui \<Rightarrow> tool_args \<Rightarrow> string" where
  "renderReportSystemState u args =
     (let susp = argStr u args ''suspicious_behaviour''; ghosts = argStr u args ''ghosts_summary'';
          threatIdx = (case arg_float args ''threat_index'' of None \<Rightarrow> 0 | Some v \<Rightarrow> uiInt u v)
      in boxed u grey
        (toolCardNameStyle u ('' '' @ [CHR 0xE2, CHR 0x97, CHR 0x88] @ '' System State (Threat Index: '' @ dec_int threatIdx @ ''/10) '') @ nl @ rule40 u
         @ toolCardHighStyle u ''Current Activity: '' @ argStr u args ''user_work_summary'' @ nl @ nl
         @ list_section u ''Top Processes:'' (''  '' @ [CHR 0xE2, CHR 0x80, CHR 0xA2] @ '' '') nl args ''top_processes''
         @ (if susp \<noteq> [] then toolCardHighStyle u ''Anomalies: '' @ errorStyle u susp @ nl @ nl else [])
         @ (if ghosts \<noteq> [] then toolCardHighStyle u ''Ghosts / Recent Exits: '' @ hintStyle u ghosts @ nl else [])))"

section \<open>The inspect report\<close>

text \<open>A row with a label and a number: a child, or a group of effects.\<close>

definition child_row :: "json \<Rightarrow> (int \<times> string) option" where
  "child_row j =
     Option.bind (json_fields j) (\<lambda>fs.
     Option.bind (get_field as_int 0 fs ''pid'') (\<lambda>pid.
     Option.bind (get_field as_string [] fs ''comm'') (\<lambda>comm. Some (pid, comm))))"

definition UnmarshalEffectJSON :: "json \<Rightarrow> (string \<times> nat) option" where
  "UnmarshalEffectJSON j =
     Option.bind (json_fields j) (\<lambda>fs.
     Option.bind (get_field as_string [] fs ''label'') (\<lambda>label.
     Option.bind (get_field (as_nat 64) 0 fs ''count'') (\<lambda>n.
     Option.bind (get_field as_int 0 fs ''unique_targets'') (\<lambda>_.
     Option.bind (get_field as_string [] fs ''category'') (\<lambda>_.
     Option.bind (get_field as_string [] fs ''subtype'') (\<lambda>_. Some (label, n)))))))"

record inspect_data =
  idComm :: string
  idBinary :: string
  idState :: string
  idCPU :: float64
  idMemKB :: nat
  idParent :: string
  idChildren :: "(int \<times> string) list"
  idNet :: "(string \<times> nat) list"
  idFiles :: "(string \<times> nat) list"

definition inspect_shape :: "json \<Rightarrow> inspect_data option" where
  "inspect_shape j =
     Option.bind (json_fields j) (\<lambda>fs.
     Option.bind (get_field as_string [] fs ''comm'') (\<lambda>comm.
     Option.bind (get_field as_string [] fs ''binary_path'') (\<lambda>bin.
     Option.bind (get_field as_string [] fs ''state'') (\<lambda>state.
     Option.bind (get_field as_float 0 fs ''cpu_usage_percent'') (\<lambda>cpu.
     Option.bind (get_field (as_nat 64) 0 fs ''memory_usage_kb'') (\<lambda>mem.
     Option.bind (get_field as_string [] fs ''parent'') (\<lambda>parent.
     Option.bind (get_field as_string [] fs ''uptime'') (\<lambda>_.
     Option.bind (get_field (as_list child_row (0, [])) [] fs ''children'') (\<lambda>kids.
     Option.bind (get_field (as_list UnmarshalEffectJSON ([], 0)) [] fs ''network_effects'') (\<lambda>net.
     Option.bind (get_field (as_list UnmarshalEffectJSON ([], 0)) [] fs ''file_effects'') (\<lambda>files.
     Some \<lparr>idComm = comm, idBinary = bin, idState = state, idCPU = cpu, idMemKB = mem, idParent = parent,
           idChildren = kids, idNet = net, idFiles = files\<rparr>)))))))))))"

definition effect_row :: "ui \<Rightarrow> string \<times> nat \<Rightarrow> string" where
  "effect_row u e = hintStyle u (''  '' @ [CHR 0xE2, CHR 0x80, CHR 0xA2] @ '' '' @ fst e @ '' '' @ [CHR 0xC3, CHR 0x97] @ dec (snd e) @ nl)"

definition renderBeautifulInspect :: "ui \<Rightarrow> string \<Rightarrow> string \<Rightarrow> string" where
  "renderBeautifulInspect u result pid =
     (case decoded u inspect_shape result of
        None \<Rightarrow> errorStyle u ''Failed to parse inspect output''
      | Some d \<Rightarrow>
          boxed u grey
            (toolCardNameStyle u ('' '' @ [CHR 0xE2, CHR 0x97, CHR 0x8E] @ '' Inspect PID '' @ pid @ '' '') @ '' ''
             @ shellStyle u (if idComm d = [] then idBinary d else idComm d) @ nl @ rule40 u
             @ toolCardHighStyle u ''State: '' @ '' '' @ idState d @ nl
             @ toolCardHighStyle u ''CPU:   '' @ '' '' @ fmt_fixed 1 (idCPU d) @ ''%'' @ nl
             @ toolCardHighStyle u ''Mem:   '' @ '' '' @ dec (idMemKB d) @ '' KB'' @ nl
             @ (if idParent d \<noteq> [] then toolCardHighStyle u ''Parent:'' @ '' '' @ idParent d @ nl else [])
             @ (if idChildren d = [] then []
                else toolCardHighStyle u ''Children:'' @ '' ('' @ dec (length (idChildren d)) @ '')'' @ nl
                  @ concat (map (\<lambda>(p, c). dimStyle u (''  '' @ [CHR 0xE2, CHR 0x94, CHR 0x9C, CHR 0xE2, CHR 0x94, CHR 0x80] @ '' '' @ dec_int p @ '': '' @ c @ nl)) (take 5 (idChildren d)))
                  @ (if 5 < length (idChildren d)
                     then dimStyle u (''  '' @ [CHR 0xE2, CHR 0x94, CHR 0x94, CHR 0xE2, CHR 0x94, CHR 0x80] @ '' ... '' @ dec (length (idChildren d) - 5) @ '' more'' @ nl) else []))
             @ (if idNet d = [] then []
                else toolCardHighStyle u ''Network:'' @ '' ('' @ dec (length (idNet d)) @ '' groups)'' @ nl
                  @ concat (map (effect_row u) (idNet d)))
             @ (if idFiles d = [] then []
                else toolCardHighStyle u ''Files:'' @ '' ('' @ dec (length (idFiles d)) @ '' groups)'' @ nl
                  @ concat (map (effect_row u) (take 5 (idFiles d)))
                  @ (if 5 < length (idFiles d)
                     then dimStyle u (''  '' @ [CHR 0xE2, CHR 0x94, CHR 0x94, CHR 0xE2, CHR 0x94, CHR 0x80] @ '' ... '' @ dec (length (idFiles d) - 5) @ '' more groups'' @ nl) else []))))"

text \<open>What the chat shows for a call: a report, or the card.\<close>

definition tool_card :: "ui \<Rightarrow> string \<Rightarrow> tool_args \<Rightarrow> string \<Rightarrow> string" where
  "tool_card u name args result =
     (if name = ''report_text'' then renderReportText u args
      else if name = ''report_behaviour'' then renderReportBehaviour u args
      else if name = ''report_family'' then renderReportFamily u args
      else if name = ''report_network'' then renderReportNetwork u args
      else if name = ''report_threat'' then renderReportThreat u args
      else if name = ''report_system_state'' then renderReportSystemState u args
      else buildToolCard u name args result)"

section \<open>The summary's card counts the snapshot\<close>

lemma as_list_encoded:
  "\<forall>x \<in> set xs. f x \<noteq> JNull \<and> conv (f x) = Some (g x) \<Longrightarrow> as_list conv z (JArr (map f xs)) = Some (map g xs)"
  by (induction xs) auto

lemma get_list_encoded:
  "map_of fs nm = Some (JArr (map f xs)) \<Longrightarrow> \<forall>x \<in> set xs. f x \<noteq> JNull \<and> conv (f x) = Some (g x) \<Longrightarrow>
   get_field (as_list conv z) [] fs nm = Some (map g xs)"
  using as_list_encoded [of xs f conv g z] by (simp del: as_list.simps)

lemma get_field_text: "map_of fs nm = Some (jstr t) \<Longrightarrow> get_field as_string z fs nm = Some (to_valid t)"
  by (simp add: jstr_def)

lemma sint_bounds: "- (2 ^ 63) \<le> sint (w :: u64)" "sint (w :: u64) < 2 ^ 63"
  using sint_ge [of w] sint_lt [of w] by simp_all

lemma summary_proc_json:
  "summary_proc (ProcessJSON_json (process_entry ord p)) =
     Some (to_valid (pjName (process_entry ord p)), CpuUsage p)"
proof -
  have "summary_proc (ProcessJSON_json r) = Some (to_valid (pjName r), pjCpuUsage r)"
    if "- (2 ^ 63) \<le> pjTotalOpens r" "pjTotalOpens r < 2 ^ 63" "- (2 ^ 63) \<le> pjTotalConns r" "pjTotalConns r < 2 ^ 63"
    for r :: ProcessJSON
    using that by (simp add: summary_proc_def ProcessJSON_json_def get_field_text json_get)
  from this [of "process_entry ord p"] show ?thesis
    using sint_bounds by (simp add: process_entry_def Let_def)
qed

lemma top_cpu_max: "\<forall>p \<in> set ps. snd p \<le> snd (top_cpu ps)"
proof -
  have "snd b \<le> snd (foldl (\<lambda>best p. if snd best < snd p then p else best) b ps)
      \<and> (\<forall>p \<in> set ps. snd p \<le> snd (foldl (\<lambda>best p. if snd best < snd p then p else best) b ps))" for b
  proof (induction ps arbitrary: b)
    case (Cons p ps)
    show ?case using Cons.IH [of "if snd b < snd p then p else b"] by (auto split: if_splits)
  qed simp
  then show ?thesis by (simp add: top_cpu_def)
qed

text \<open>
  the card of a summary tells the numbers of its snapshot: the groups, the active processes and the
  exited ones, and as its top process one that no process exceeds.
\<close>

theorem summary_card_counts_processes:
  assumes "SummaryJSON ord snap = Some j" and "is_order (ord None)" and "uiParse u result = Some j"
  shows "\<exists>groups topName topCPU. app_groups (ord None) snap = Some groups
    \<and> metaSummary u result = dots ([dec (length groups) @ '' groups'', dec (length (FByPID snap)) @ '' processes'']
        @ part_if (FGhosts snap \<noteq> []) (dec (length (FGhosts snap)) @ '' exited'')
        @ part_if (topName \<noteq> [] \<and> 1 / 2 < topCPU)
            (toolCardHighStyle u (''top: '' @ trunc topName 20 @ '' '' @ fmt_fixed 1 topCPU @ CHR ''%'' # [])))
    \<and> (\<forall>p \<in> set (go_vals (FByPID snap)). CpuUsage p \<le> topCPU)"
proof -
  obtain doc where doc: "summary_doc ord snap = Some doc" using assms(1) by (auto simp: SummaryJSON_def)
  then obtain groups where g: "app_groups (ord None) snap = Some groups"
    and gd: "ssActiveGroups doc = map (group_entry ord) groups" "ssRecentlyExited doc = map ghost_entry (recent_ghosts snap)"
    by (auto simp: summary_doc_def)
  define row where "row p = (to_valid (pjName (process_entry ord p)), CpuUsage p)" for p
  define rows where "rows = (\<lambda>(nm :: string, ps). map row (sort_slice (more_by totalEffects) ps))"
  let ?group = "\<lambda>x. JObj [(''group_name'', jstr (agName x)), (''pids'', JArr (map (\<lambda>p. jnat (unat p)) (agPIDs x))),
      (''processes'', JArr (map ProcessJSON_json (agProcesses x)))]"
  have group: "summary_group (?group (group_entry ord x)) = Some (rows x)" for x
  proof (cases x)
    case (Pair nm ps)
    have "as_list summary_proc ([], 0) (JArr (map (\<lambda>p. ProcessJSON_json (process_entry ord p)) qs)) = Some (map row qs)" for qs
      by (rule as_list_encoded) (simp add: summary_proc_json row_def ProcessJSON_json_def [THEN arg_cong, of "\<lambda>j. j \<noteq> JNull"])
    then show ?thesis
      by (simp add: Pair summary_group_def group_entry_def get_field_text rows_def comp_def del: as_list.simps)
  qed
  let ?ghost = "\<lambda>g. JObj [(''name'', jstr (gjName g)), (''pid'', jnat (unat (gjPID g))),
      (''lifespan_duration'', jstr (gjDuration g)), (''total_opens'', jnat (unat (gjOpens g))),
      (''total_connections'', jnat (unat (gjConnects g)))]"
  have groups: "as_list summary_group [] (JArr (map ?group (ssActiveGroups doc))) = Some (map rows groups)"
    using as_list_encoded [of groups "\<lambda>x. ?group (group_entry ord x)" summary_group rows] group
    by (simp add: gd comp_def del: as_list.simps)
  have ghosts: "as_list summary_ghost [] (JArr (map ?ghost gs)) = Some (map (\<lambda>g. to_valid (gjName g)) gs)" for gs
    by (rule as_list_encoded) (simp add: summary_ghost_def get_field_text)
  let ?names = "map (\<lambda>g. to_valid (gjName g)) (ssRecentlyExited doc)"
  have "j = JObj ([(''timestamp'', JTime (ssTimestamp doc)), (''active_groups'', JArr (map ?group (ssActiveGroups doc)))]
      @ omit_if (ssRecentlyExited doc = []) ''recently_exited'' (JArr (map ?ghost (ssRecentlyExited doc))))"
    using assms(1) doc by (simp add: SummaryJSON_def)
  then have shape: "summary_shape j = Some (map rows groups, ?names)"
    using groups ghosts [of "ssRecentlyExited doc"]
    by (cases "ssRecentlyExited doc = []")
      (simp_all add: summary_shape_def omit_if_def get_field_def [of _ "[]" "[(_, _), (_, _)]"] del: as_list.simps)
  note m = app_groups_members [OF g assms(2)]
  have "mset (map row (sort_slice (more_by totalEffects) ps)) = mset (map row ps)" for ps
    by (simp only: mset_map ss.srt_mset)
  then have "mset (concat (map rows gs)) = image_mset row (members gs)" for gs
    by (induction gs) (auto simp: members_def rows_def)
  then have rows: "mset (concat (map rows groups)) = mset (map row (go_vals (FByPID snap)))"
    using m by (metis mset_map)
  then have count: "length (concat (map rows groups)) = length (FByPID snap)" by (metis length_map size_mset)
  have most: "CpuUsage p \<le> snd (top_cpu (concat (map rows groups)))" if "p \<in> set (go_vals (FByPID snap))" for p
  proof -
    have "row p \<in> set (concat (map rows groups))" using rows that by (metis image_eqI image_set mset_eq_setD)
    with top_cpu_max have "snd (row p) \<le> snd (top_cpu (concat (map rows groups)))" by blast
    then show ?thesis by (simp add: row_def)
  qed
  have "length (sort_slice (more_by EndTimestamp) gs) = length gs" for gs :: "ProcessNode list" by (metis size_mset ss.srt_mset)
  then have "length ?names = length (FGhosts snap)" by (simp add: gd recent_ghosts_def)
  then have ghosts: "(?names \<noteq> []) = (FGhosts snap \<noteq> [])" "length ?names = length (FGhosts snap)" by auto
  show ?thesis
  proof (intro exI conjI)
    show "app_groups (ord None) snap = Some groups" by (rule g)
    show "\<forall>p \<in> set (go_vals (FByPID snap)). CpuUsage p \<le> snd (top_cpu (concat (map rows groups)))" using most by blast
    show "metaSummary u result = dots ([dec (length groups) @ '' groups'', dec (length (FByPID snap)) @ '' processes'']
        @ part_if (FGhosts snap \<noteq> []) (dec (length (FGhosts snap)) @ '' exited'')
        @ part_if (fst (top_cpu (concat (map rows groups))) \<noteq> [] \<and> 1 / 2 < snd (top_cpu (concat (map rows groups))))
            (toolCardHighStyle u (''top: '' @ trunc (fst (top_cpu (concat (map rows groups)))) 20 @ '' ''
              @ fmt_fixed 1 (snd (top_cpu (concat (map rows groups)))) @ CHR ''%'' # [])))"
      unfolding metaSummary_def decoded_def assms(3) ghosts [symmetric] count [symmetric]
      by (simp only: Option.bind.simps shape option.case prod.case prod.case_eq_if fst_conv snd_conv length_map Let_def case_prod_beta)
  qed
qed

definition plain_ui :: ui where
  "plain_ui = \<lparr>promptStyle = id, shellStyle = id, errorStyle = id, hintStyle = id, statusStyle = id, okStyle = id,
     dimStyle = id, bodyStyle = id, toolCardNameStyle = id, toolCardMetaStyle = id, toolCardHighStyle = id, selStyle = id,
     boxed = (\<lambda>_ s. s), uiParse = (\<lambda>_. None), fmtV = (\<lambda>_. []), upperRune = id, uiInt = floor, uiOrder = id\<rparr>"

lemma summary_card_counts_processes_witness:
  "\<exists>j n top. SummaryJSON (\<lambda>_. id) sample_snap = Some j
    \<and> metaSummary (plain_ui\<lparr>uiParse := \<lambda>_. Some j\<rparr>) ''document'' =
        dots ([dec n @ '' groups'', dec 1 @ '' processes''] @ top)"
proof -
  have "root_of (FByPID sample_snap) (newNode 42 ''/bin/sh'' ''sh'' 0) = Some (newNode 42 ''/bin/sh'' ''sh'' 0)"
    by (subst root_of.simps) (simp add: newNode_def)
  then obtain j where j: "SummaryJSON (\<lambda>_. id) sample_snap = Some j"
    by (auto simp: SummaryJSON_def summary_doc_def app_groups_def groupKeyFrozen_def sample_snap_def)
  have sz: "length (FByPID sample_snap) = 1" "is_order ((\<lambda>_. id) (None :: u32 option) :: string list \<Rightarrow> string list)"
    by (simp_all add: sample_snap_def)
  have "uiParse (plain_ui\<lparr>uiParse := \<lambda>_. Some j\<rparr>) ''document'' = Some j" by simp
  from summary_card_counts_processes [OF j sz(2) this] j show ?thesis unfolding sz(1) by blast
qed

section \<open>Escape sequences\<close>

text \<open>The sequences that styles put around text: they end in a letter.\<close>

definition style_seq :: "string \<Rightarrow> bool" where
  "style_seq q \<longleftrightarrow> (\<exists>ps c. q = esc_byte # ps @ [c] \<and> ends_escape c
     \<and> (\<forall>b \<in> set ps. is_ascii b \<and> \<not> ends_escape b \<and> b \<noteq> esc_byte) \<and> is_ascii c \<and> c \<noteq> esc_byte)"

lemma rune_width_ascii: "is_ascii c \<Longrightarrow> rune_width (c # s) = 1"
  by (simp add: rune_width_def is_ascii_def)

lemma strip_params:
  "\<forall>b \<in> set ps. is_ascii b \<and> \<not> ends_escape b \<and> b \<noteq> esc_byte \<Longrightarrow> strip_runes True (ps @ s) = strip_runes True s"
  by (induction ps) (auto simp: rune_width_ascii)

lemma strip_seq: "style_seq q \<Longrightarrow> strip_runes b (q @ s) = strip_runes False s"
proof -
  assume "style_seq q"
  then obtain ps c where q: "q = esc_byte # ps @ [c]" "ends_escape c" "is_ascii c" "c \<noteq> esc_byte"
    and ps: "\<forall>b \<in> set ps. is_ascii b \<and> \<not> ends_escape b \<and> b \<noteq> esc_byte" by (auto simp: style_seq_def)
  have "rune_width (esc_byte # s') = 1" for s' by (rule rune_width_ascii) (simp add: is_ascii_def)
  then show ?thesis using q by (simp add: strip_params [OF ps] rune_width_ascii)
qed

lemma rune_width_append: "rune_width s \<noteq> 0 \<Longrightarrow> rune_width (s @ t) = rune_width s \<and> rune_width s \<le> length s"
proof -
  assume w: "rune_width s \<noteq> 0"
  then obtain c r where s: "s = c # r" by (cases s) (simp_all add: rune_width_def)
  define w2 w3 w4 where "w2 = (\<lambda>r. case r of b # _ \<Rightarrow> cont_byte b | _ \<Rightarrow> False)"
    and "w3 = (\<lambda>r lo hi. case r of b # d # _ \<Rightarrow> byte_in lo hi b \<and> cont_byte d | _ \<Rightarrow> False)"
    and "w4 = (\<lambda>r lo hi. case r of b # d # f # _ \<Rightarrow> byte_in lo hi b \<and> cont_byte d \<and> cont_byte f | _ \<Rightarrow> False)"
  have m: "w2 r \<Longrightarrow> w2 (r @ t) \<and> 1 \<le> length r" "w3 r lo hi \<Longrightarrow> w3 (r @ t) lo hi \<and> 2 \<le> length r"
    "w4 r lo hi \<Longrightarrow> w4 (r @ t) lo hi \<and> 3 \<le> length r" for lo hi
    by (auto simp: w2_def w3_def w4_def split: list.splits)
  have d: "rune_width (c # x) = (if is_ascii c then 1
              else if byte_in 194 223 c then (if w2 x then 2 else 0)
              else if byte_in 224 224 c then (if w3 x 160 191 then 3 else 0)
              else if byte_in 237 237 c then (if w3 x 128 159 then 3 else 0)
              else if byte_in 225 239 c then (if w3 x 128 191 then 3 else 0)
              else if byte_in 240 240 c then (if w4 x 144 191 then 4 else 0)
              else if byte_in 241 243 c then (if w4 x 128 191 then 4 else 0)
              else if byte_in 244 244 c then (if w4 x 128 143 then 4 else 0)
              else 0)" for x
    by (simp only: rune_width_def Let_def list.case w2_def w3_def w4_def)
  define R where "R x y \<longleftrightarrow> (x \<noteq> 0 \<longrightarrow> y = x \<and> x \<le> Suc (length r))" for x y :: nat
  have R: "R a a' \<Longrightarrow> R b b' \<Longrightarrow> R (if P then a else b) (if P then a' else b')"
    "(P \<Longrightarrow> Q \<and> n \<le> length r) \<Longrightarrow> k = Suc n \<Longrightarrow> R (if P then k else 0) (if Q then k else 0)" "R 1 1" "R 0 0"
    for a a' b b' P Q k n by (simp_all add: R_def)
  have "R (rune_width (c # r)) (rune_width (c # r @ t))"
    unfolding d by (intro R(1,3,4)) (rule R(2), erule m, simp)+
  with w show ?thesis by (simp add: R_def s)
qed

lemma strip_text:
  "utf8_valid s \<Longrightarrow> esc_byte \<notin> set s \<Longrightarrow> strip_runes False (s @ t) = s @ strip_runes False t"
proof (induction s rule: utf8_valid.induct)
  case (2 c s)
  obtain n where w: "rune_width (c # s) = Suc n" using "2.prems" by (cases "rune_width (c # s)") auto
  with rune_width_append [of "c # s" t] have n: "rune_width (c # s @ t) = Suc n" "n \<le> length s" by auto
  have "esc_byte \<notin> set (drop n s)" using "2.prems"(2) by (auto dest: in_set_dropD)
  with 2 w have "strip_runes False (drop n s @ t) = drop n s @ strip_runes False t" by simp
  with n 2(3) show ?case by (auto simp: Let_def simp flip: append_assoc)
qed simp

text \<open>
  what is left of a styled text without its escape sequences is the text.
\<close>

theorem stripAnsi_removes_styles:
  assumes "\<forall>(q, t) \<in> set parts. (q = [] \<or> style_seq q) \<and> utf8_valid t \<and> esc_byte \<notin> set t"
  shows "stripAnsi (concat (map (\<lambda>(q, t). q @ t) parts)) = concat (map snd parts)"
  unfolding stripAnsi_def using assms
  by (induction parts) (auto simp: strip_text strip_seq)

lemma stripAnsi_removes_styles_witness:
  "stripAnsi (esc_byte # ''[1;31m'' @ ''sh'' @ esc_byte # ''[0m'') = ''sh''"
proof -
  have "utf8_valid ''sh''" by (rule utf8_valid_ascii) (simp add: is_ascii_def)
  moreover have "style_seq (esc_byte # ''[1;31m'')" "style_seq (esc_byte # ''[0m'')"
    unfolding style_seq_def
    by (intro exI [of _ "''[1;31''"] exI [of _ "''[0''"] exI [of _ "CHR ''m''"]; simp add: is_ascii_def ends_escape_def less_eq_char_def)+
  ultimately show ?thesis
    using stripAnsi_removes_styles [of "[(esc_byte # ''[1;31m'', ''sh''), (esc_byte # ''[0m'', [])]"] by simp
qed

end
