(* ===== verification/ProcPanel.thy ===== *)
theory ProcPanel
  imports Cards
begin

text \<open>
  The process list of the terminal's left panel (\<^verbatim>\<open>buildProcTree\<close> in \<^verbatim>\<open>main.go\<close>): the processes of a
  snapshot as a tree, flattened to the rows whose ancestors are expanded. The recursion is a partial
  function: that it always ends, also on a snapshot whose parents form a cycle, is proved. A lookup that
  would yield a nil pointer is the left value.
\<close>

record procEntry =
  pePID :: u32
  peComm :: string
  peMem :: string
  peCPU :: string
  peDepth :: nat
  peHasKids :: bool

section \<open>The rows\<close>

text \<open>One round of the insertion sort: the new element moves left past the greater ones.\<close>

definition sink :: "u32 list \<Rightarrow> u32 \<Rightarrow> u32 list" where
  "sink ys x = (let k = length ys - length (takeWhile (\<lambda>y. x < y) (rev ys)) in take k ys @ x # drop k ys)"

definition allPIDs :: "FrozenSnapshot \<Rightarrow> u32 list" where
  "allPIDs snap = foldl sink [] (go_keys (FByPID snap))"

definition is_root :: "FrozenSnapshot \<Rightarrow> ProcessNode \<Rightarrow> bool" where
  "is_root snap p \<longleftrightarrow> PPID p = 0 \<or> PPID p = 2 \<or> map_of (FByPID snap) (PPID p) = None"

text \<open>The roots and the children, in the order of the identifiers.\<close>

definition panel_step ::
  "FrozenSnapshot \<Rightarrow> u32 list \<times> (u32, u32 list) gomap \<Rightarrow> u32 \<Rightarrow> u32 list \<times> (u32, u32 list) gomap" where
  "panel_step snap st pid =
     (case map_of (FByPID snap) pid of
        None \<Rightarrow> st
      | Some p \<Rightarrow>
          if is_root snap p then (fst st @ [pid], snd st)
          else (fst st, go_put (PPID p) (or_zero [] (map_of (snd st) (PPID p)) @ [pid]) (snd st)))"

definition panel_tables :: "FrozenSnapshot \<Rightarrow> u32 list \<times> (u32, u32 list) gomap" where
  "panel_tables snap = foldl (panel_step snap) ([], []) (allPIDs snap)"

definition panel_entry :: "(u32, u32 list) gomap \<Rightarrow> u32 \<Rightarrow> ProcessNode \<Rightarrow> nat \<Rightarrow> procEntry" where
  "panel_entry kidsMap pid p depth =
     \<lparr>pePID = pid, peComm = Comm p,
      peMem = (if 1024 < MemoryUsage p then dec (unat (MemoryUsage p div 1024)) @ ''M''
               else if 0 < MemoryUsage p then dec (unat (MemoryUsage p)) @ ''K'' else []),
      peCPU = (if 1 / 10 < CpuUsage p then fmt_fixed 0 (CpuUsage p) @ ''%'' else []),
      peDepth = depth, peHasKids = (map_of kidsMap pid \<noteq> None)\<rparr>"

text \<open>\<^verbatim>\<open>walk\<close> over a list of siblings.\<close>

partial_function (option) panel_walk ::
  "FrozenSnapshot \<Rightarrow> (u32, u32 list) gomap \<Rightarrow> (u32, bool) gomap \<Rightarrow> nat \<Rightarrow> u32 list \<Rightarrow> (string + procEntry list) option" where
  "panel_walk snap kidsMap expanded depth pids =
     (case pids of
        [] \<Rightarrow> Some (Inr [])
      | pid # rest \<Rightarrow>
          (case map_of (FByPID snap) pid of
             None \<Rightarrow> Some (Inl ''nil pointer dereference'')
           | Some p \<Rightarrow>
               Option.bind
                 (if or_zero False (map_of expanded pid)
                  then panel_walk snap kidsMap expanded (Suc depth) (or_zero [] (map_of kidsMap pid))
                  else Some (Inr []))
                 (\<lambda>below. Option.bind (panel_walk snap kidsMap expanded depth rest)
                    (\<lambda>after. Some (case (below, after) of
                        (Inl e, _) \<Rightarrow> Inl e
                      | (_, Inl e) \<Rightarrow> Inl e
                      | (Inr es, Inr es') \<Rightarrow> Inr (panel_entry kidsMap pid p depth # es @ es'))))))"

definition buildProcTree :: "FrozenSnapshot option \<Rightarrow> (u32, bool) gomap \<Rightarrow> (string + procEntry list) option" where
  "buildProcTree snap expanded =
     (case snap of
        None \<Rightarrow> Some (Inr [])
      | Some s \<Rightarrow> (let (roots, kidsMap) = panel_tables s in panel_walk s kidsMap expanded 0 roots))"

section \<open>The tables\<close>

lemma mset_sink: "mset (sink ys x) = add_mset x (mset ys)"
  by (simp add: sink_def Let_def) (metis append_take_drop_id mset_append union_mset_add_mset_right)

lemma sorted_sink:
  assumes "sorted ys"
  shows "sorted (sink ys x)"
proof -
  let ?w = "takeWhile (\<lambda>y. x < y) (rev ys)" and ?d = "dropWhile (\<lambda>y. x < y) (rev ys)"
  have ys: "ys = rev ?d @ rev ?w" by (metis rev_append rev_rev_ident takeWhile_dropWhile_id)
  then have k: "length ys - length ?w = length (rev ?d)"
    by (metis add_diff_cancel_right' length_append length_rev)
  have s: "sink ys x = rev ?d @ x # rev ?w"
    unfolding sink_def Let_def k by (subst (1 2) ys) simp
  have w: "\<forall>y \<in> set ?w. x < y" by (auto dest: set_takeWhileD)
  have d: "\<forall>y \<in> set ?d. y \<le> x"
  proof (cases ?d)
    case (Cons z zs)
    then have "\<not> x < z" by (metis dropWhile_eq_Cons_conv)
    moreover have "sorted (rev (z # zs))" using assms ys Cons by (metis sorted_append)
    ultimately show ?thesis unfolding Cons by (auto simp: sorted_append)
  next
    case Nil
    show ?thesis unfolding Nil by simp
  qed
  have "sorted (rev ?d @ rev ?w)" using assms ys by simp
  then show ?thesis unfolding s using w d by (auto simp: sorted_append intro: less_imp_le)
qed

lemma allPIDs_sorted: "allPIDs snap = sort (go_keys (FByPID snap))"
proof -
  have "sorted (foldl sink acc ks) \<and> mset (foldl sink acc ks) = mset acc + mset ks" if "sorted acc" for acc ks
    using that by (induction ks arbitrary: acc) (auto simp: sorted_sink mset_sink)
  from this [of "[]" "go_keys (FByPID snap)"] show ?thesis
    unfolding allPIDs_def by (metis empty_neutral(1) mset.simps(1) properties_for_sort sorted_wrt.simps(1))
qed

definition root_pid :: "FrozenSnapshot \<Rightarrow> u32 \<Rightarrow> bool" where
  "root_pid snap pid \<longleftrightarrow>
     (\<exists>p. map_of (FByPID snap) pid = Some p \<and> (PPID p \<in> {0, 2} \<or> PPID p \<notin> fst ` set (FByPID snap)))"

definition parent_pid :: "FrozenSnapshot \<Rightarrow> u32 \<Rightarrow> u32 option" where
  "parent_pid snap pid =
     (case map_of (FByPID snap) pid of
        None \<Rightarrow> None
      | Some p \<Rightarrow> if PPID p \<in> {0, 2} \<or> PPID p \<notin> fst ` set (FByPID snap) then None else Some (PPID p))"

lemma is_root_iff: "is_root snap p \<longleftrightarrow> PPID p \<in> {0, 2} \<or> PPID p \<notin> fst ` set (FByPID snap)"
  by (simp add: is_root_def map_of_eq_None_iff)

lemma root_pid_eq: "root_pid snap pid \<longleftrightarrow> (\<exists>p. map_of (FByPID snap) pid = Some p \<and> is_root snap p)"
  by (simp only: root_pid_def is_root_iff)

lemma parent_pid_eq:
  "parent_pid snap pid =
     (case map_of (FByPID snap) pid of None \<Rightarrow> None | Some p \<Rightarrow> if is_root snap p then None else Some (PPID p))"
  by (simp only: parent_pid_def is_root_iff)

definition kids_of :: "FrozenSnapshot \<Rightarrow> u32 \<Rightarrow> u32 list" where
  "kids_of snap k = filter (\<lambda>c. parent_pid snap c = Some k) (allPIDs snap)"

lemma panel_tables_eq:
  "fst (panel_tables snap) = filter (root_pid snap) (allPIDs snap)
   \<and> (\<forall>k. map_of (snd (panel_tables snap)) k = (if kids_of snap k = [] then None else Some (kids_of snap k)))"
proof -
  have "fst (foldl (panel_step snap) ([], []) pids) = filter (root_pid snap) pids
      \<and> (\<forall>k. map_of (snd (foldl (panel_step snap) ([], []) pids)) k =
            (let cs = filter (\<lambda>c. parent_pid snap c = Some k) pids in if cs = [] then None else Some cs))" for pids
    by (induction pids rule: rev_induct)
      (auto simp: panel_step_def root_pid_eq parent_pid_eq Let_def or_zero_def split: option.splits)
  from this [of "allPIDs snap"] show ?thesis by (simp add: panel_tables_def kids_of_def)
qed

lemma set_allPIDs: "set (allPIDs snap) = fst ` set (FByPID snap)"
  by (simp add: allPIDs_sorted)

lemma distinct_allPIDs: "wf_map (FByPID snap) \<Longrightarrow> distinct (allPIDs snap)"
  by (simp add: allPIDs_sorted wf_map_def)

lemma parent_pid_known: "parent_pid snap c = Some p \<Longrightarrow> p \<in> set (allPIDs snap) \<and> c \<in> set (allPIDs snap)"
  by (auto simp: parent_pid_eq is_root_def set_allPIDs split: option.splits if_splits dest!: map_of_SomeD
      intro: rev_image_eqI)

lemma set_kids_of: "set (kids_of snap k) = {c. parent_pid snap c = Some k}"
  using parent_pid_known by (auto simp: kids_of_def)

section \<open>The walk ends\<close>

text \<open>The distance from a root along the parents: a process has one parent, so it has one distance.\<close>

inductive depth_of :: "FrozenSnapshot \<Rightarrow> u32 \<Rightarrow> nat \<Rightarrow> bool" for snap where
  root: "root_pid snap pid \<Longrightarrow> depth_of snap pid 0"
| child: "parent_pid snap c = Some p \<Longrightarrow> depth_of snap p d \<Longrightarrow> depth_of snap c (Suc d)"

inductive_cases depth_of_SucE: "depth_of snap c (Suc d)"
inductive_cases depth_of_ZeroE: "depth_of snap c 0"

lemma root_no_parent: "root_pid snap c \<Longrightarrow> parent_pid snap c = None"
  by (auto simp: root_pid_eq parent_pid_eq)

lemma depth_unique: "depth_of snap c d \<Longrightarrow> depth_of snap c d' \<Longrightarrow> d = d'"
proof (induction arbitrary: d' rule: depth_of.induct)
  case (root pid)
  from root.prems root.hyps show ?case by cases (simp_all add: root_no_parent)
next
  case (child c p d)
  from child.prems show ?case
  proof cases
    case root
    with child.hyps show ?thesis by (simp add: root_no_parent)
  next
    case (child p' d')
    with child.hyps child.IH show ?thesis by simp
  qed
qed

lemma depth_known: "depth_of snap c d \<Longrightarrow> c \<in> set (allPIDs snap)"
  by (induction rule: depth_of.induct)
    (auto simp: root_pid_eq set_allPIDs dest: parent_pid_known dest!: map_of_SomeD intro: rev_image_eqI)

lemma depth_node: "depth_of snap c d \<Longrightarrow> \<exists>p. map_of (FByPID snap) c = Some p"
  by (erule depth_of.cases) (auto simp: root_pid_eq parent_pid_eq split: option.splits)

text \<open>A process at distance \<open>d\<close> has processes at all smaller distances above it.\<close>

lemma depth_bound:
  assumes "depth_of snap c d"
  shows "d < card (set (allPIDs snap))"
proof -
  have "\<exists>f. \<forall>i \<le> d. depth_of snap (f i) i" using assms
  proof (induction rule: depth_of.induct)
    case (root pid)
    then show ?case by (intro exI [of _ "\<lambda>_. pid"]) (simp add: depth_of.root)
  next
    case (child c p d)
    then obtain f where "\<forall>i \<le> d. depth_of snap (f i) i" by blast
    with depth_of.child [OF child.hyps] show ?case
      by (intro exI [of _ "f(Suc d := c)"]) (auto simp: le_Suc_eq)
  qed
  then obtain f where f: "\<forall>i \<le> d. depth_of snap (f i) i" by blast
  then have "inj_on f {..d}" by (metis atMost_iff depth_unique inj_onI)
  moreover have "f ` {..d} \<subseteq> set (allPIDs snap)" using f depth_known by blast
  ultimately have "card {..d} \<le> card (set (allPIDs snap))" by (metis card_inj_on_le finite_set)
  then show ?thesis by simp
qed

text \<open>\<open>under\<close>: below a row, along expanded rows. \<open>row_shown\<close>: the rows of the panel.\<close>

abbreviation is_expanded :: "(u32, bool) gomap \<Rightarrow> u32 \<Rightarrow> bool" where
  "is_expanded expanded pid \<equiv> or_zero False (map_of expanded pid)"

inductive under :: "FrozenSnapshot \<Rightarrow> (u32, bool) gomap \<Rightarrow> u32 \<Rightarrow> u32 \<Rightarrow> bool" for snap expanded where
  self: "under snap expanded p p"
| step: "is_expanded expanded p \<Longrightarrow> parent_pid snap q = Some p \<Longrightarrow> under snap expanded q c \<Longrightarrow> under snap expanded p c"

inductive row_shown :: "FrozenSnapshot \<Rightarrow> (u32, bool) gomap \<Rightarrow> u32 \<Rightarrow> bool" for snap expanded where
  root_row: "root_pid snap pid \<Longrightarrow> row_shown snap expanded pid"
| child_row: "row_shown snap expanded p \<Longrightarrow> is_expanded expanded p \<Longrightarrow> parent_pid snap c = Some p \<Longrightarrow> row_shown snap expanded c"

lemma under_trans: "under snap expanded p q \<Longrightarrow> is_expanded expanded q \<Longrightarrow> parent_pid snap c = Some q \<Longrightarrow> under snap expanded p c"
  by (induction rule: under.induct) (auto intro: under.intros)

lemma row_shown_iff: "row_shown snap expanded c \<longleftrightarrow> (\<exists>p. root_pid snap p \<and> under snap expanded p c)"
proof
  show "row_shown snap expanded c \<Longrightarrow> \<exists>p. root_pid snap p \<and> under snap expanded p c"
    by (induction rule: row_shown.induct) (auto intro: under.self under_trans)
  have "under snap expanded p c \<Longrightarrow> row_shown snap expanded p \<Longrightarrow> row_shown snap expanded c" for p
    by (induction rule: under.induct) (auto intro: row_shown.child_row)
  then show "\<exists>p. root_pid snap p \<and> under snap expanded p c \<Longrightarrow> row_shown snap expanded c"
    by (auto intro: row_shown.root_row)
qed

fun ancestor :: "FrozenSnapshot \<Rightarrow> nat \<Rightarrow> u32 \<Rightarrow> u32 option" where
  "ancestor snap 0 c = Some c"
| "ancestor snap (Suc k) c = Option.bind (ancestor snap k c) (parent_pid snap)"

lemma under_ancestor:
  "under snap expanded p c \<Longrightarrow> depth_of snap p d \<Longrightarrow> \<exists>k. ancestor snap k c = Some p \<and> depth_of snap c (d + k)"
proof (induction arbitrary: d rule: under.induct)
  case (self p)
  then show ?case by (intro exI [of _ 0]) simp
next
  case (step p q c)
  from step.IH [OF depth_of.child [OF step.hyps(2) step.prems]] obtain k
    where "ancestor snap k c = Some q" "depth_of snap c (Suc d + k)" by blast
  with step.hyps(2) show ?case by (intro exI [of _ "Suc k"]) simp
qed

lemma under_unique:
  assumes "under snap expanded p c" "under snap expanded p' c" and "depth_of snap p d" "depth_of snap p' d"
  shows "p = p'"
proof -
  obtain k k' where "ancestor snap k c = Some p" "depth_of snap c (d + k)"
      "ancestor snap k' c = Some p'" "depth_of snap c (d + k')"
    using under_ancestor assms by blast
  with depth_unique [of snap c "d + k" "d + k'"] show ?thesis by simp
qed

lemma under_cases:
  "under snap expanded p c \<longleftrightarrow> c = p \<or> (is_expanded expanded p \<and> (\<exists>q. parent_pid snap q = Some p \<and> under snap expanded q c))"
  by (auto intro: under.intros elim: under.cases)

lemma under_depth_le: "under snap expanded p c \<Longrightarrow> depth_of snap p d \<Longrightarrow> depth_of snap c d' \<Longrightarrow> d \<le> d'"
  using under_ancestor depth_unique by (metis le_add1)

definition row_ok :: "FrozenSnapshot \<Rightarrow> procEntry \<Rightarrow> bool" where
  "row_ok snap e \<longleftrightarrow> depth_of snap (pePID e) (peDepth e)
     \<and> (\<exists>p. map_of (FByPID snap) (pePID e) = Some p \<and> peComm e = Comm p)
     \<and> (peHasKids e \<longleftrightarrow> (\<exists>c. parent_pid snap c = Some (pePID e)))"

lemma panel_entry_ok:
  assumes "map_of (FByPID snap) pid = Some p" and "depth_of snap pid d"
  shows "row_ok snap (panel_entry (snd (panel_tables snap)) pid p d)"
proof -
  have "kids_of snap pid = [] \<longleftrightarrow> (\<nexists>c. parent_pid snap c = Some pid)"
    using set_kids_of [of snap pid] by auto
  with assms panel_tables_eq [of snap] show ?thesis by (simp add: row_ok_def panel_entry_def)
qed

text \<open>The walk over siblings at one distance: it returns, and what.\<close>

definition walk_ok :: "FrozenSnapshot \<Rightarrow> (u32, bool) gomap \<Rightarrow> u32 list \<Rightarrow> (string + procEntry list) option \<Rightarrow> bool" where
  "walk_ok snap expanded pids r \<longleftrightarrow>
     (\<exists>es. r = Some (Inr es) \<and> distinct (map pePID es) \<and> (\<forall>e \<in> set es. row_ok snap e)
        \<and> set (map pePID es) = {c. \<exists>p \<in> set pids. under snap expanded p c})"

lemma panel_walk_ok:
  assumes "wf_map (FByPID snap)" and "distinct pids" and "\<forall>p \<in> set pids. depth_of snap p d"
  shows "walk_ok snap expanded pids (panel_walk snap (snd (panel_tables snap)) expanded d pids)"
  using assms(2,3)
proof (induction "card (set (allPIDs snap)) - d" arbitrary: d pids rule: less_induct)
  case less
  let ?walk = "panel_walk snap (snd (panel_tables snap)) expanded"
  have kids: "walk_ok snap expanded (kids_of snap pid) (?walk (Suc d) (kids_of snap pid))" if "depth_of snap pid d" for pid
  proof (rule less.hyps)
    show "card (set (allPIDs snap)) - Suc d < card (set (allPIDs snap)) - d" using depth_bound [OF that] by simp
    show "distinct (kids_of snap pid)" using distinct_allPIDs [OF assms(1)] by (simp add: kids_of_def)
    show "\<forall>p \<in> set (kids_of snap pid). depth_of snap p (Suc d)"
      using that by (auto simp: set_kids_of intro: depth_of.child)
  qed
  show ?case using less.prems
  proof (induction pids)
    case Nil
    show ?case by (subst panel_walk.simps) (simp add: walk_ok_def)
  next
    case (Cons pid rest)
    have d: "depth_of snap pid d" using Cons.prems(2) by simp
    obtain p where p: "map_of (FByPID snap) pid = Some p" using depth_node [OF d] by blast
    define ex where "ex = is_expanded expanded pid"
    define below where "below = (if ex then kids_of snap pid else [])"
    have tab: "or_zero [] (map_of (snd (panel_tables snap)) pid) = kids_of snap pid"
      using panel_tables_eq [of snap] by (simp add: or_zero_def)
    have "walk_ok snap expanded below (if ex then ?walk (Suc d) (kids_of snap pid) else Some (Inr []))"
      using kids [OF d] by (cases ex) (simp add: below_def, simp add: below_def walk_ok_def)
    then obtain es where es: "(if ex then ?walk (Suc d) (kids_of snap pid) else Some (Inr [])) = Some (Inr es)"
        "distinct (map pePID es)" "\<forall>e \<in> set es. row_ok snap e"
        "set (map pePID es) = {c. \<exists>q \<in> set below. under snap expanded q c}" by (auto simp: walk_ok_def)
    from Cons obtain es' where es': "?walk d rest = Some (Inr es')" "distinct (map pePID es')" "\<forall>e \<in> set es'. row_ok snap e"
        "set (map pePID es') = {c. \<exists>q \<in> set rest. under snap expanded q c}" by (auto simp: walk_ok_def)
    have below: "{c. \<exists>q \<in> set below. under snap expanded q c} \<union> {pid} = {c. under snap expanded pid c}"
      by (auto simp: below_def ex_def set_kids_of under_cases [of _ _ pid])
    have own: "pid \<notin> set (map pePID es)"
    proof
      assume "pid \<in> set (map pePID es)"
      then obtain q where "parent_pid snap q = Some pid" "under snap expanded q pid"
        unfolding es(4) by (auto simp: below_def set_kids_of split: if_splits)
      with under_depth_le [OF this(2) depth_of.child [OF this(1) d] d] show False by simp
    qed
    have other: "set (map pePID es') \<inter> {c. under snap expanded pid c} = {}"
      unfolding es'(4) using Cons.prems d under_unique [of snap expanded _ _ pid] by auto
    have "?walk d (pid # rest) = Some (Inr (panel_entry (snd (panel_tables snap)) pid p d # es @ es'))"
      using es(1) es'(1) by (subst panel_walk.simps) (auto simp: p tab ex_def split: if_splits)
    moreover have "pePID (panel_entry (snd (panel_tables snap)) pid p d) = pid" by (simp add: panel_entry_def)
    moreover have "distinct (pid # map pePID (es @ es'))"
      using es(2) es'(2) own other below unfolding es(4) [symmetric] by auto
    moreover have "set (pid # map pePID (es @ es')) = {c. \<exists>q \<in> set (pid # rest). under snap expanded q c}"
      using below es(4) es'(4) by auto
    ultimately show ?case
      using es(3) es'(3) panel_entry_ok [OF p d] by (auto simp: walk_ok_def)
  qed
qed

lemma panel_rows_exact_lemma:
  assumes "wf_map (FByPID snap)"
  shows "\<exists>es. buildProcTree (Some snap) expanded = Some (Inr es)
    \<and> distinct (map pePID es)
    \<and> (\<forall>c. c \<in> set (map pePID es) \<longleftrightarrow> row_shown snap expanded c)
    \<and> (\<forall>e \<in> set es. row_ok snap e)"
proof -
  let ?roots = "filter (root_pid snap) (allPIDs snap)"
  have "walk_ok snap expanded ?roots (panel_walk snap (snd (panel_tables snap)) expanded 0 ?roots)"
    using distinct_allPIDs [OF assms] by (intro panel_walk_ok [OF assms]) (auto intro: depth_of.root)
  moreover have "buildProcTree (Some snap) expanded = panel_walk snap (snd (panel_tables snap)) expanded 0 ?roots"
    using panel_tables_eq [of snap] by (simp add: buildProcTree_def case_prod_beta)
  moreover have "p \<in> set (allPIDs snap)" if "root_pid snap p" for p using depth_known depth_of.root that by blast
  ultimately show ?thesis by (fastforce simp: walk_ok_def row_shown_iff)
qed

text \<open>
  C26: the list of the panel is always produced, even for a snapshot whose parents form a cycle, and it
  is exact: a process has a row if and only if it is a root or its parent has a row and is expanded;
  it has one row; and the row is indented by its distance from its root.
\<close>

theorem panel_rows_exact:
  assumes "wf_map (FByPID snap)"
  shows "\<exists>es. buildProcTree (Some snap) expanded = Some (Inr es)
    \<and> distinct (map pePID es)
    \<and> (\<forall>c. c \<in> set (map pePID es) \<longleftrightarrow> row_shown snap expanded c)
    \<and> (\<forall>e \<in> set es. row_ok snap e)"
  by (rule panel_rows_exact_lemma [OF assms])

text \<open>Two processes that are each other's parent: neither has a row.\<close>

definition cyclic_snap :: FrozenSnapshot where
  "cyclic_snap = \<lparr>Timestamp = 9, FByPID = [(1, newNode 1 [] ''init'' 0), (7, newNode 7 [] ''a'' 8), (8, newNode 8 [] ''b'' 7)],
     FGhosts = [], FStracePath = []\<rparr>"

lemma panel_rows_exact_witness:
  "\<exists>es. buildProcTree (Some cyclic_snap) [] = Some (Inr es) \<and> (1 \<in> set (map pePID es) \<longleftrightarrow> row_shown cyclic_snap [] 1)"
proof -
  have "wf_map (FByPID cyclic_snap)" by (simp add: cyclic_snap_def wf_map_def)
  from panel_rows_exact [OF this] show ?thesis by blast
qed

text \<open>With nothing expanded the rows are the roots.\<close>

lemma row_shown_collapsed: "row_shown snap [] c \<longleftrightarrow> root_pid snap c"
  by (auto elim: row_shown.cases simp: or_zero_def intro: row_shown.root_row)

lemma row_depth_root: "row_ok snap e \<Longrightarrow> root_pid snap (pePID e) \<Longrightarrow> peDepth e = 0"
  using depth_unique depth_of.root by (auto simp: row_ok_def)

end
