(* ===== verification/ChatLoop.thy ===== *)
theory ChatLoop
  imports Cards
begin

text \<open>
  The chat loop (\<^verbatim>\<open>streamingChatLoop\<close> in \<^verbatim>\<open>main.go\<close>): the history is pruned, the model is asked, its tool
  calls are run and answered, until it answers without calls or fails. The loop is a partial function:
  a model that always calls tools keeps it running. What it sends to the terminal is the list of
  messages. The model is any client: \<open>chat\<close> answers a history in a state of the world.
\<close>

datatype ui_msg = ToolCallMsg string | ToolDoneMsg string | AiDoneMsg "string + string"

type_synonym 's asked = "Message list \<Rightarrow> 's \<Rightarrow> (string + Message) \<times> 's"

type_synonym 's chat_state = "Conversation \<times> ui_msg list \<times> 's"

definition call_args :: "ui \<Rightarrow> ToolCall \<Rightarrow> tool_args" where
  "call_args u tc = or_zero [] (Option.bind (uiParse u (tcArguments tc)) (\<lambda>j. decode_args (Some j)))"

definition answer_msg :: "ToolCall \<Rightarrow> string \<Rightarrow> Message" where
  "answer_msg tc result =
     \<lparr>msgRole = RoleTool, msgContent = result, msgToolCallID = tcID tc, msgName = tcName tc, msgToolCalls = []\<rparr>"

text \<open>The text of a result; \<open>None\<close> is a panic.\<close>

fun result_text :: "string go_result \<Rightarrow> string option" where
  "result_text (Ok out) = Some out"
| "result_text (Failed e) = Some (''Error: '' @ e)"
| "result_text (Panic e) = None"

definition run_call ::
  "ui \<Rightarrow> toolenv \<Rightarrow> 's tool_proxy \<Rightarrow> ToolCall \<Rightarrow> 's chat_state \<Rightarrow> 's chat_state go_result option" where
  "run_call u env proxy tc st =
     (let (c, msgs, s) = st; args = call_args u tc in
      map_option
        (\<lambda>(res, s'). case result_text res of
             None \<Rightarrow> Panic ''tool''
           | Some result \<Rightarrow>
               Ok (append_msg (answer_msg tc result) c,
                   msgs @ [ToolCallMsg (tcName tc), ToolDoneMsg (tool_card u (tcName tc) args result)], s'))
        (ExecuteTool env proxy c (tcName tc) args s))"

fun run_calls ::
  "ui \<Rightarrow> toolenv \<Rightarrow> 's tool_proxy \<Rightarrow> ToolCall list \<Rightarrow> 's chat_state \<Rightarrow> 's chat_state go_result option" where
  "run_calls u env proxy [] st = Some (Ok st)"
| "run_calls u env proxy (tc # tcs) st =
     Option.bind (run_call u env proxy tc st)
       (\<lambda>r. case r of Ok st' \<Rightarrow> run_calls u env proxy tcs st' | _ \<Rightarrow> Some r)"

partial_function (option) streamingChatLoop ::
  "ui \<Rightarrow> toolenv \<Rightarrow> 's tool_proxy \<Rightarrow> 's asked \<Rightarrow> 's chat_state \<Rightarrow> 's chat_state go_result option" where
  "streamingChatLoop u env proxy chat st =
     (let (c, msgs, s) = st; c1 = ManageHistory c in
      case chat (History c1) s of
        (Inl e, s1) \<Rightarrow> Some (Ok (c1, msgs @ [AiDoneMsg (Inl e)], s1))
      | (Inr resp, s1) \<Rightarrow>
          (let c2 = append_msg resp c1 in
           if msgToolCalls resp = [] then Some (Ok (c2, msgs @ [AiDoneMsg (Inr (msgContent resp))], s1))
           else Option.bind (run_calls u env proxy (msgToolCalls resp) (c2, msgs, s1))
             (\<lambda>r. case r of Ok st' \<Rightarrow> streamingChatLoop u env proxy chat st' | _ \<Rightarrow> Some r)))"

section \<open>Every call is answered and reported\<close>

text \<open>
  The specification of a chat without its messages. \<open>answered\<close>: the calls of one answer of the model are
  run in order; each result is appended to the history as the answer to its call. \<open>talked\<close>: rounds of an
  answer with calls and the results of these, until the model answers without calls or fails.
\<close>

inductive answered ::
  "ui \<Rightarrow> toolenv \<Rightarrow> 's tool_proxy \<Rightarrow> ToolCall list \<Rightarrow> Conversation \<times> 's \<Rightarrow> string list \<Rightarrow> Conversation \<times> 's \<Rightarrow> bool"
  for u env proxy where
  none: "answered u env proxy [] st [] st"
| call: "ExecuteTool env proxy c (tcName tc) (call_args u tc) s = Some (res, s1) \<Longrightarrow> result_text res = Some result \<Longrightarrow>
    answered u env proxy tcs (append_msg (answer_msg tc result) c, s1) results st \<Longrightarrow>
    answered u env proxy (tc # tcs) (c, s) (result # results) st"

inductive talked ::
  "ui \<Rightarrow> toolenv \<Rightarrow> 's tool_proxy \<Rightarrow> 's asked \<Rightarrow> Conversation \<times> 's \<Rightarrow> (ToolCall list \<times> string list) list \<Rightarrow>
   string + string \<Rightarrow> Conversation \<times> 's \<Rightarrow> bool" for u env proxy chat where
  failed: "chat (History (ManageHistory c)) s = (Inl e, s1) \<Longrightarrow>
    talked u env proxy chat (c, s) [] (Inl e) (ManageHistory c, s1)"
| finished: "chat (History (ManageHistory c)) s = (Inr resp, s1) \<Longrightarrow> msgToolCalls resp = [] \<Longrightarrow>
    talked u env proxy chat (c, s) [] (Inr (msgContent resp)) (append_msg resp (ManageHistory c), s1)"
| round: "chat (History (ManageHistory c)) s = (Inr resp, s1) \<Longrightarrow> msgToolCalls resp \<noteq> [] \<Longrightarrow>
    answered u env proxy (msgToolCalls resp) (append_msg resp (ManageHistory c), s1) results st1 \<Longrightarrow>
    talked u env proxy chat st1 rounds outcome st2 \<Longrightarrow>
    talked u env proxy chat (c, s) ((msgToolCalls resp, results) # rounds) outcome st2"

text \<open>What the terminal is to see of it: for every call its name and its card, and one final message.\<close>

definition call_report :: "ui \<Rightarrow> ToolCall \<Rightarrow> string \<Rightarrow> ui_msg list" where
  "call_report u tc result = [ToolCallMsg (tcName tc), ToolDoneMsg (tool_card u (tcName tc) (call_args u tc) result)]"

fun dialogue :: "ui \<Rightarrow> (ToolCall list \<times> string list) list \<Rightarrow> string + string \<Rightarrow> ui_msg list" where
  "dialogue u [] outcome = [AiDoneMsg outcome]"
| "dialogue u ((tcs, results) # rounds) outcome = concat (map2 (call_report u) tcs results) @ dialogue u rounds outcome"

text \<open>A tool call depends on the conversation's snapshot, daemon and limit only.\<close>

definition same_setting :: "Conversation \<Rightarrow> Conversation \<Rightarrow> bool" where
  "same_setting c d \<longleftrightarrow> CurrentSnapshot c = CurrentSnapshot d \<and> HasDaemon c = HasDaemon d \<and> MaxResultChars c = MaxResultChars d"

lemma ExecuteTool_setting: "same_setting c d \<Longrightarrow> ExecuteTool env proxy c = ExecuteTool env proxy d"
proof (intro ext)
  fix name args s
  assume "same_setting c d"
  then have eq: "CurrentSnapshot c = CurrentSnapshot d" "HasDaemon c = HasDaemon d" "MaxResultChars c = MaxResultChars d"
    by (simp_all add: same_setting_def)
  show "ExecuteTool env proxy c name args s = ExecuteTool env proxy d name args s"
    by (simp only: ExecuteTool_def eq)
qed

lemma same_setting_simps [simp]:
  "same_setting c c" "same_setting (append_msg m c) d \<longleftrightarrow> same_setting c d" "same_setting (ManageHistory c) d \<longleftrightarrow> same_setting c d"
  by (simp_all add: same_setting_def append_msg_def ManageHistory_def Let_def)

definition tool_panics :: "toolenv \<Rightarrow> 's tool_proxy \<Rightarrow> Conversation \<Rightarrow> bool" where
  "tool_panics env proxy c \<longleftrightarrow> (\<exists>name args s e s'. ExecuteTool env proxy c name args s = Some (Panic e, s'))"

lemma run_calls_return:
  assumes "\<And>name args s. \<exists>res s'. ExecuteTool env proxy d name args s = Some (res, s') \<and> \<mu> s' \<le> (\<mu> s :: nat)"
    and "same_setting c d"
  shows "\<exists>r. run_calls u env proxy tcs (c, msgs, s) = Some r \<and>
    ((\<exists>e. r = Panic e) \<and> tool_panics env proxy d \<or>
     (\<exists>results c' s'. r = Ok (c', msgs @ concat (map2 (call_report u) tcs results), s')
        \<and> answered u env proxy tcs (c, s) results (c', s') \<and> same_setting c' d \<and> \<mu> s' \<le> \<mu> s))"
  using assms(2)
proof (induction tcs arbitrary: c msgs s)
  case Nil
  then show ?case by (auto intro: answered.none exI [of _ "[]"])
next
  case (Cons tc tcs)
  note same = ExecuteTool_setting [OF Cons.prems]
  obtain res s1 where run: "ExecuteTool env proxy c (tcName tc) (call_args u tc) s = Some (res, s1)" "\<mu> s1 \<le> \<mu> s"
    using assms(1) same by metis
  show ?case
  proof (cases "result_text res")
    case None
    then obtain e where "res = Panic e" by (cases res) auto
    with run same have "tool_panics env proxy d" unfolding tool_panics_def by metis
    with run None show ?thesis by (simp add: run_call_def)
  next
    case (Some result)
    let ?c = "append_msg (answer_msg tc result) c" and ?msgs = "msgs @ call_report u tc result"
    have step: "run_call u env proxy tc (c, msgs, s) = Some (Ok (?c, ?msgs, s1))"
      using run Some by (simp add: run_call_def call_report_def)
    have "same_setting ?c d" using Cons.prems by simp
    from Cons.IH [OF this, of ?msgs s1] obtain r where r: "run_calls u env proxy tcs (?c, ?msgs, s1) = Some r"
      "(\<exists>e. r = Panic e) \<and> tool_panics env proxy d \<or>
       (\<exists>results c' s'. r = Ok (c', ?msgs @ concat (map2 (call_report u) tcs results), s')
          \<and> answered u env proxy tcs (?c, s1) results (c', s') \<and> same_setting c' d \<and> \<mu> s' \<le> \<mu> s1)" by blast
    from r(2) show ?thesis
    proof
      assume "\<exists>results c' s'. r = Ok (c', ?msgs @ concat (map2 (call_report u) tcs results), s')
          \<and> answered u env proxy tcs (?c, s1) results (c', s') \<and> same_setting c' d \<and> \<mu> s' \<le> \<mu> s1"
      then obtain results c' s' where ok: "r = Ok (c', ?msgs @ concat (map2 (call_report u) tcs results), s')"
        "answered u env proxy tcs (?c, s1) results (c', s')" "same_setting c' d" "\<mu> s' \<le> \<mu> s1" by blast
      have "answered u env proxy (tc # tcs) (c, s) (result # results) (c', s')"
        by (rule answered.call [OF run(1) Some ok(2)])
      with step r(1) ok run(2) show ?thesis
        by (intro exI [of _ r] conjI disjI2 exI [of _ "result # results"] exI [of _ c'] exI [of _ s']) simp_all
    qed (use step r(1) in simp)
  qed
qed

lemma chat_loop_ends:
  assumes stops: "\<And>h s resp s'. chat h s = (Inr resp, s') \<Longrightarrow> msgToolCalls resp \<noteq> [] \<Longrightarrow> \<mu> s' < (\<mu> s :: nat)"
    and tools: "\<And>name args s. \<exists>res s'. ExecuteTool env proxy d name args s = Some (res, s') \<and> \<mu> s' \<le> \<mu> s"
    and "same_setting c d"
  shows "\<exists>r. streamingChatLoop u env proxy chat (c, msgs, s) = Some r \<and>
    ((\<exists>e. r = Panic e) \<and> tool_panics env proxy d \<or>
     (\<exists>rounds outcome c' s'. r = Ok (c', msgs @ dialogue u rounds outcome, s')
        \<and> talked u env proxy chat (c, s) rounds outcome (c', s')))"
  using assms(3)
proof (induction "\<mu> s" arbitrary: c msgs s rule: less_induct)
  case less
  let ?c = "ManageHistory c"
  obtain r s1 where ask: "chat (History ?c) s = (r, s1)" by fastforce
  show ?case
  proof (cases r)
    case (Inl e)
    with ask have "streamingChatLoop u env proxy chat (c, msgs, s) = Some (Ok (?c, msgs @ dialogue u [] (Inl e), s1))"
      by (subst streamingChatLoop.simps) simp
    with talked.failed [of chat c s e s1 u env proxy] ask Inl show ?thesis by blast
  next
    case (Inr resp)
    show ?thesis
    proof (cases "msgToolCalls resp = []")
      case True
      with ask Inr have "streamingChatLoop u env proxy chat (c, msgs, s) =
          Some (Ok (append_msg resp ?c, msgs @ dialogue u [] (Inr (msgContent resp)), s1))"
        by (subst streamingChatLoop.simps) simp
      with talked.finished [of chat c s resp s1 u env proxy] ask Inr True show ?thesis by blast
    next
      case False
      have dec: "\<mu> s1 < \<mu> s" using stops ask Inr False by blast
      let ?c2 = "append_msg resp ?c"
      have loop: "streamingChatLoop u env proxy chat (c, msgs, s) =
          Option.bind (run_calls u env proxy (msgToolCalls resp) (?c2, msgs, s1))
            (\<lambda>r. case r of Ok st' \<Rightarrow> streamingChatLoop u env proxy chat st' | _ \<Rightarrow> Some r)"
        using ask Inr False by (subst streamingChatLoop.simps) simp
      have "same_setting ?c2 d" using less.prems by simp
      from run_calls_return [OF tools this, of u "msgToolCalls resp" msgs s1] obtain q
        where q: "run_calls u env proxy (msgToolCalls resp) (?c2, msgs, s1) = Some q"
          "(\<exists>e. q = Panic e) \<and> tool_panics env proxy d \<or>
           (\<exists>results c' s'. q = Ok (c', msgs @ concat (map2 (call_report u) (msgToolCalls resp) results), s')
              \<and> answered u env proxy (msgToolCalls resp) (?c2, s1) results (c', s') \<and> same_setting c' d \<and> \<mu> s' \<le> \<mu> s1)" by blast
      from q(2) show ?thesis
      proof
        assume "\<exists>results c' s'. q = Ok (c', msgs @ concat (map2 (call_report u) (msgToolCalls resp) results), s')
              \<and> answered u env proxy (msgToolCalls resp) (?c2, s1) results (c', s') \<and> same_setting c' d \<and> \<mu> s' \<le> \<mu> s1"
        then obtain results c' s' where ok: "q = Ok (c', msgs @ concat (map2 (call_report u) (msgToolCalls resp) results), s')"
          "answered u env proxy (msgToolCalls resp) (?c2, s1) results (c', s')" "same_setting c' d" "\<mu> s' \<le> \<mu> s1" by blast
        have dec': "\<mu> s' < \<mu> s" using dec ok(4) by simp
        let ?msgs = "msgs @ concat (map2 (call_report u) (msgToolCalls resp) results)"
        have next_round: "streamingChatLoop u env proxy chat (c, msgs, s) = streamingChatLoop u env proxy chat (c', ?msgs, s')"
          using loop q(1) ok(1) by simp
        from less.hyps [OF dec' ok(3), of ?msgs, folded next_round] obtain r'
          where r': "streamingChatLoop u env proxy chat (c, msgs, s) = Some r'"
            "(\<exists>e. r' = Panic e) \<and> tool_panics env proxy d \<or>
             (\<exists>rounds outcome c'' s''. r' = Ok (c'', ?msgs @ dialogue u rounds outcome, s'')
                \<and> talked u env proxy chat (c', s') rounds outcome (c'', s''))" by blast
        from r'(2) show ?thesis
        proof
          assume "\<exists>rounds outcome c'' s''. r' = Ok (c'', ?msgs @ dialogue u rounds outcome, s'')
                \<and> talked u env proxy chat (c', s') rounds outcome (c'', s'')"
          then obtain rounds outcome c'' s'' where fin: "r' = Ok (c'', msgs
                 @ dialogue u ((msgToolCalls resp, results) # rounds) outcome, s'')"
              "talked u env proxy chat (c', s') rounds outcome (c'', s'')" by auto
          from talked.round [OF ask [unfolded Inr] False ok(2) fin(2)] fin(1) r'(1) show ?thesis by blast
        qed (use r'(1) in blast)
      qed (use loop q(1) in auto)
    qed
  qed
qed

text \<open>
  C11: when the model makes only finitely many requests for tools and each tool returns, the chat loop
  returns. It fails only if a tool panics. Otherwise the terminal is sent, for every call of every answer of the
  model, in order, the name of the tool and the card made of the call and of the result that the model is
  given, and then exactly one final message: the last answer or the error.
\<close>

theorem chat_loop_returns:
  assumes "\<And>h s resp s'. chat h s = (Inr resp, s') \<Longrightarrow> msgToolCalls resp \<noteq> [] \<Longrightarrow> \<mu> s' < (\<mu> s :: nat)"
    and "\<And>name args s. \<exists>res s'. ExecuteTool env proxy c name args s = Some (res, s') \<and> \<mu> s' \<le> \<mu> s"
  shows "\<exists>r. streamingChatLoop u env proxy chat (c, [], s) = Some r \<and>
    ((\<exists>e. r = Panic e) \<and> tool_panics env proxy c \<or>
     (\<exists>rounds outcome c' s'. r = Ok (c', dialogue u rounds outcome, s')
        \<and> talked u env proxy chat (c, s) rounds outcome (c', s')))"
  using chat_loop_ends [where chat = chat and \<mu> = \<mu> and d = c and c = c and msgs = "[]", OF assms] by simp

text \<open>A model that asks for a tool as long as its counter runs.\<close>

definition counting_chat :: "nat asked" where
  "counting_chat h n =
     (case n of
        0 \<Rightarrow> (Inr (plain_msg RoleAssistant ''done''), 0)
      | Suc k \<Rightarrow> (Inr ((plain_msg RoleAssistant [])\<lparr>msgToolCalls :=
           [\<lparr>tcID = ''c1'', tcType = ''function'', tcName = ''summary'', tcArguments = ''{}''\<rparr>]\<rparr>), k))"

lemma silent_answered:
  "answered u env (\<lambda>_ _ s. Some (Inl [], s)) tcs st results st1 \<Longrightarrow> same_setting (fst st) (NewConversation None False) \<Longrightarrow>
   same_setting (fst st1) (NewConversation None False) \<and> snd st1 = snd st"
proof (induction rule: answered.induct)
  case (call c tc s res s1 result tcs results st)
  have "s1 = s"
    using call.hyps(1) call.prems
    by (auto simp: ExecuteTool_def same_setting_def NewConversation_def split: if_splits)
  with call show ?case by simp
qed simp

lemma counting_rounds:
  "talked u env (\<lambda>_ _ s. Some (Inl [], s)) counting_chat st rounds outcome st2 \<Longrightarrow>
   same_setting (fst st) (NewConversation None False) \<Longrightarrow> length rounds = snd st"
proof (induction rule: talked.induct)
  case (round c s resp s1 results st1 rounds outcome st2)
  then have "s = Suc s1" by (auto simp: counting_chat_def plain_msg_def split: nat.splits)
  with round silent_answered [OF round.hyps(3)] show ?case by simp
qed (auto simp: counting_chat_def plain_msg_def split: nat.splits)

lemma chat_loop_returns_witness:
  "\<exists>rounds outcome c' s'. streamingChatLoop plain_ui (sample_env (\<lambda>_. Inl [])) (\<lambda>_ _ s. Some (Inl [], s)) counting_chat
       (NewConversation None False, [], 3) = Some (Ok (c', dialogue plain_ui rounds outcome, s')) \<and> length rounds = 3"
proof -
  let ?env = "sample_env (\<lambda>_. Inl [])" and ?proxy = "(\<lambda>_ _ s. Some (Inl [], s)) :: nat tool_proxy" and ?c = "NewConversation None False"
  have no: "\<not> tool_panics ?env ?proxy ?c"
    by (auto simp: tool_panics_def ExecuteTool_def NewConversation_def split: if_splits)
  have tools: "\<exists>res s'. ExecuteTool ?env ?proxy ?c name args s = Some (res, s') \<and> id s' \<le> id s" for name args and s :: nat
    by (simp add: ExecuteTool_def NewConversation_def)
  have stops: "id s' < id s" if "counting_chat h s = (Inr resp, s')" "msgToolCalls resp \<noteq> []" for h s resp s'
    using that by (auto simp: counting_chat_def plain_msg_def split: nat.splits)
  have "\<exists>r. streamingChatLoop plain_ui ?env ?proxy counting_chat (?c, [], 3) = Some r \<and>
    ((\<exists>e. r = Panic e) \<and> tool_panics ?env ?proxy ?c \<or>
     (\<exists>rounds outcome c' s'. r = Ok (c', dialogue plain_ui rounds outcome, s')
        \<and> talked plain_ui ?env ?proxy counting_chat (?c, 3) rounds outcome (c', s')))"
    by (rule chat_loop_returns [where \<mu> = id and chat = counting_chat and env = ?env and proxy = ?proxy and c = ?c, OF stops tools])
  with no obtain rounds outcome c' s' where r: "streamingChatLoop plain_ui ?env ?proxy counting_chat (?c, [], 3)
      = Some (Ok (c', dialogue plain_ui rounds outcome, s'))"
    "talked plain_ui ?env ?proxy counting_chat (?c, 3) rounds outcome (c', s')" by blast
  from counting_rounds [OF r(2)] have "length rounds = 3" by simp
  with r(1) show ?thesis by blast
qed

end
