(* ===== verification/Tui.thy ===== *)
theory Tui
  imports ProcPanel ChatLoop
begin

text \<open>
  The terminal program (\<^verbatim>\<open>main.go\<close>): its model, \<^verbatim>\<open>Update\<close> with the key handlers, and the views. Bubble
  Tea and its widgets are libraries: the text input, the spinner, the viewport and the table are states
  of the types \<open>'i\<close>, \<open>'p\<close>, \<open>'v\<close> and \<open>'t\<close> with the operations of the record \<open>widgets\<close>. The result of
  \<^verbatim>\<open>Update\<close> is the model and what the program is to do next; \<open>None\<close> is a handler that crashes or never
  returns. \<open>'s\<close> is the state of the world, which a refresh reads.
\<close>

section \<open>Messages and commands\<close>

datatype key_type =
  KeyCtrlC | KeyEsc | KeyCtrlR | KeyCtrlS | KeyCtrlL | KeyCtrlP | KeyCtrlJ | KeyCtrlK | KeyCtrlU | KeyPgUp
| KeyCtrlD | KeyPgDown | KeyEnter | KeyOther

record key =
  keyType :: key_type
  keyText :: string

datatype mouse = WheelUp | WheelDown | OtherButton

datatype tui_msg =
  WindowSizeMsg int int
| ChatMsg ui_msg
| SnapshotSavedMsg "string + int"
| SnapshotLoadedMsg "string + FrozenSnapshot"
| SnapshotsListedMsg "string + SnapshotMeta list"
| SnapshotDeletedMsg int "string option"
| KeyMsg key
| MouseMsg mouse
| OtherMsg

text \<open>\<open>StartChat\<close> stands for the \<^verbatim>\<open>go\<close> statement that starts the chat loop.\<close>

datatype tui_cmd =
  QuitCmd | ClearScreenCmd | SaveCmd "FrozenSnapshot option" | ListCmd | LoadCmd int | DeleteCmd int
| ListenCmd | WidgetCmd | StartChat

record ('i, 'p, 'v, 't) widgets =
  tiNew :: 'i
  tiFocus :: "'i \<Rightarrow> 'i"
  tiBlur :: "'i \<Rightarrow> 'i"
  tiFocused :: "'i \<Rightarrow> bool"
  tiValue :: "'i \<Rightarrow> string"
  tiSetValue :: "string \<Rightarrow> 'i \<Rightarrow> 'i"
  tiSetWidth :: "int \<Rightarrow> 'i \<Rightarrow> 'i"
  tiUpdate :: "tui_msg \<Rightarrow> 'i \<Rightarrow> 'i"
  tiView :: "'i \<Rightarrow> string"
  spNew :: 'p
  spUpdate :: "tui_msg \<Rightarrow> 'p \<Rightarrow> 'p"
  spView :: "'p \<Rightarrow> string"
  vpZero :: 'v
  vpNew :: "int \<Rightarrow> int \<Rightarrow> 'v"
  vpGetWidth :: "'v \<Rightarrow> int"
  vpGetHeight :: "'v \<Rightarrow> int"
  vpResize :: "int \<Rightarrow> int \<Rightarrow> 'v \<Rightarrow> 'v"
  vpSetContent :: "string \<Rightarrow> 'v \<Rightarrow> 'v"
  vpGotoBottom :: "'v \<Rightarrow> 'v"
  vpLineUp :: "int \<Rightarrow> 'v \<Rightarrow> 'v"
  vpLineDown :: "int \<Rightarrow> 'v \<Rightarrow> 'v"
  vpView :: "'v \<Rightarrow> string"
  vpTotalLines :: "'v \<Rightarrow> int"
  vpPercent :: "'v \<Rightarrow> int"
  tbZero :: 't
  tbBuild :: "string list list \<Rightarrow> 't"
  tbCursor :: "'t \<Rightarrow> int"
  tbUpdate :: "tui_msg \<Rightarrow> 't \<Rightarrow> 't"
  tbView :: "'t \<Rightarrow> string"
  wrapTo :: "int \<Rightarrow> string \<Rightarrow> string"

section \<open>The model\<close>

datatype viewMode = ModeChat | ModeLoader | ModeConfirmContext

datatype focusMode = FocusProcs | FocusChat

record ('i, 'p, 'v, 't) model =
  mdInput :: 'i
  mdSpinner :: 'p
  mdVp :: 'v
  mdHistory :: "string list"
  mdWaiting :: bool
  mdMode :: viewMode
  mdStatus :: string
  mdWidth :: int
  mdHeight :: int
  mdReady :: bool
  mdSide :: bool
  mdTool :: string
  mdTable :: 't
  mdMetas :: "SnapshotMeta list"
  mdConv :: Conversation
  mdSnap :: "FrozenSnapshot option"
  mdProcs :: "procEntry list"
  mdCursor :: int
  mdScroll :: int
  mdSelected :: u32
  mdExpanded :: "(u32, bool) gomap"
  mdFocus :: focusMode
  mdConfirm :: string

text \<open>
  What the program has around it: the widgets, the styles, the time zone, the daemon's snapshot and the
  local tree's.
\<close>

record ('i, 'p, 'v, 't, 's) tui_env =
  teW :: "('i, 'p, 'v, 't) widgets"
  teUi :: ui
  teZone :: "gotime \<Rightarrow> int"
  teFetch :: "'s \<Rightarrow> (string + FrozenSnapshot) \<times> 's"
  teTake :: "'s \<Rightarrow> FrozenSnapshot \<times> 's"

definition leftPanelWidth :: int where "leftPanelWidth = 36"

text \<open>The rows of a snapshot; a nil pointer is a crash.\<close>

definition proc_rows :: "FrozenSnapshot option \<Rightarrow> (u32, bool) gomap \<Rightarrow> procEntry list option" where
  "proc_rows snap expanded =
     Option.bind (buildProcTree snap expanded) (\<lambda>r. case r of Inl _ \<Rightarrow> None | Inr es \<Rightarrow> Some es)"

definition with_intel :: "string \<Rightarrow> string \<Rightarrow> Conversation \<Rightarrow> Conversation" where
  "with_intel vtKey abuseKey c =
     (if vtKey \<noteq> [] \<or> abuseKey \<noteq> [] then c\<lparr>ConvIntel := Some (newIntel vtKey abuseKey)\<rparr> else c)"

definition fresh_model ::
  "('i, 'p, 'v, 't) widgets \<Rightarrow> 'i \<Rightarrow> Conversation \<Rightarrow> FrozenSnapshot option \<Rightarrow> focusMode \<Rightarrow> ('i, 'p, 'v, 't) model" where
  "fresh_model w ti c snap fm =
     \<lparr>mdInput = ti, mdSpinner = spNew w, mdVp = vpZero w, mdHistory = [], mdWaiting = False, mdMode = ModeChat,
      mdStatus = [], mdWidth = 0, mdHeight = 0, mdReady = False, mdSide = False, mdTool = [], mdTable = tbZero w,
      mdMetas = [], mdConv = c, mdSnap = snap, mdProcs = [], mdCursor = 0, mdScroll = 0, mdSelected = 0,
      mdExpanded = [], mdFocus = fm, mdConfirm = []\<rparr>"

definition select_first :: "('i, 'p, 'v, 't) model \<Rightarrow> ('i, 'p, 'v, 't) model" where
  "select_first m = (case mdProcs m of [] \<Rightarrow> m | e # _ \<Rightarrow> m\<lparr>mdSelected := pePID e\<rparr>)"

definition initialModel ::
  "('i, 'p, 'v, 't) widgets \<Rightarrow> FrozenSnapshot option \<Rightarrow> string \<Rightarrow> string \<Rightarrow> ('i, 'p, 'v, 't) model option" where
  "initialModel w snap vtKey abuseKey =
     (let m = fresh_model w (tiNew w) (with_intel vtKey abuseKey (NewConversation snap False)) snap FocusChat in
      map_option (\<lambda>es. select_first (m\<lparr>mdProcs := es\<rparr>)) (proc_rows snap []))"

definition initialDaemonModel ::
  "('i, 'p, 'v, 't) widgets \<Rightarrow> FrozenSnapshot option \<Rightarrow> string \<Rightarrow> string \<Rightarrow> ('i, 'p, 'v, 't) model option" where
  "initialDaemonModel w snap vtKey abuseKey =
     (let m = fresh_model w (tiFocus w (tiNew w)) (with_intel vtKey abuseKey (NewConversation snap True)) snap FocusProcs in
      map_option (\<lambda>es. m\<lparr>mdProcs := es\<rparr>) (proc_rows snap []))"

definition chatWidth :: "('i, 'p, 'v, 't) model \<Rightarrow> int" where
  "chatWidth m = (if \<not> mdSide m then mdWidth m - 2 else max 20 (mdWidth m - leftPanelWidth - 1))"

definition vpHeight :: "('i, 'p, 'v, 't) model \<Rightarrow> int" where
  "vpHeight m = max 4 (mdHeight m - (5 + (if mdWaiting m then 1 else 0) + (if mdSide m then 4 else 0)))"

definition renderHistory :: "('i, 'p, 'v, 't) widgets \<Rightarrow> ('i, 'p, 'v, 't) model \<Rightarrow> string" where
  "renderHistory w m =
     (let width = (if vpGetWidth w (mdVp m) \<le> 0 then chatWidth m else vpGetWidth w (mdVp m)) in
      if width \<le> 2 then Join (mdHistory m) nl else Join (map (wrapTo w (width - 2)) (mdHistory m)) nl)"

definition syncVP :: "('i, 'p, 'v, 't) widgets \<Rightarrow> ('i, 'p, 'v, 't) model \<Rightarrow> ('i, 'p, 'v, 't) model" where
  "syncVP w m = m\<lparr>mdVp := vpGotoBottom w (vpSetContent w (renderHistory w m) (mdVp m))\<rparr>"

definition show_line :: "('i, 'p, 'v, 't) widgets \<Rightarrow> string \<Rightarrow> ('i, 'p, 'v, 't) model \<Rightarrow> ('i, 'p, 'v, 't) model" where
  "show_line w line m = syncVP w (m\<lparr>mdHistory := mdHistory m @ [line]\<rparr>)"

definition helpText :: "ui \<Rightarrow> string" where
  "helpText u = hintStyle u (Join
     [''hotkeys:'',
      ''  ctrl+esc   '' @ [CHR 0xE2, CHR 0x80, CHR 0x94] @ '' toggle focus betweeen processes and chat'',
      ''  ctrl+c   '' @ [CHR 0xE2, CHR 0x80, CHR 0x94] @ '' quit godshell'',
      ''  ctrl+r   '' @ [CHR 0xE2, CHR 0x80, CHR 0x94] @ '' refresh system snapshot'',
      ''  ctrl+s   '' @ [CHR 0xE2, CHR 0x80, CHR 0x94] @ '' save snapshot to SQLite'',
      ''  ctrl+l   '' @ [CHR 0xE2, CHR 0x80, CHR 0x94] @ '' load a saved snapshot'',
      [],
      ''  type clear to clear chat history'',
      [],
      ''process panel navigation:'',
      ''  ctrl+j   '' @ [CHR 0xE2, CHR 0x80, CHR 0x94] @ '' navigate down'',
      ''  ctrl+k   '' @ [CHR 0xE2, CHR 0x80, CHR 0x94] @ '' navigate up'',
      ''  enter    '' @ [CHR 0xE2, CHR 0x80, CHR 0x94] @ '' select process for LLM to focus on.'',
      [],
      ''chat panel controls (when focused):'',
      ''  pgup     '' @ [CHR 0xE2, CHR 0x80, CHR 0x94] @ '' scroll history up'',
      ''  pgdown   '' @ [CHR 0xE2, CHR 0x80, CHR 0x94] @ '' scroll history down'',
      ''  mouse up/down - scroll up/down''] nl)"

section \<open>Handlers\<close>

type_synonym ('i, 'p, 'v, 't, 's) handled_msg = "((('i, 'p, 'v, 't) model \<times> 's) \<times> tui_cmd list) option"

definition handleInput ::
  "('i, 'p, 'v, 't, 's) tui_env \<Rightarrow> string \<Rightarrow> ('i, 'p, 'v, 't) model \<Rightarrow> ('i, 'p, 'v, 't) model \<times> tui_cmd list" where
  "handleInput env input m =
     (let w = teW env; u = teUi env in
      if input = ''exit'' \<or> input = ''quit'' then (m, [QuitCmd])
      else if input = ''help'' then (show_line w (helpText u) m, [])
      else if input = ''clear'' then (syncVP w (m\<lparr>mdHistory := []\<rparr>), [])
      else
        let m1 = syncVP w (m\<lparr>mdHistory := mdHistory m @ [promptStyle u (''you'' @ [CHR 0xE2, CHR 0x9D, CHR 0xAF] @ '' '') @ input], mdWaiting := True, mdTool := []\<rparr>)
        in (m1\<lparr>mdConv := append_msg (plain_msg RoleUser input) (mdConv m1)\<rparr>, [StartChat, ListenCmd, WidgetCmd]))"

text \<open>The row under the cursor becomes the selected process.\<close>

definition select_row :: "('i, 'p, 'v, 't) model \<Rightarrow> ('i, 'p, 'v, 't) model option" where
  "select_row m =
     (if mdProcs m = [] then Some m
      else if 0 \<le> mdCursor m \<and> mdCursor m < int (length (mdProcs m))
      then Some (m\<lparr>mdSelected := pePID (mdProcs m ! nat (mdCursor m))\<rparr>)
      else None)"

definition move_down :: "('i, 'p, 'v, 't) model \<Rightarrow> ('i, 'p, 'v, 't) model option" where
  "move_down m =
     (if mdCursor m < int (length (mdProcs m)) - 1 then
        let c = mdCursor m + 1 in
        select_row (m\<lparr>mdCursor := c, mdScroll := (if mdScroll m + vpHeight m \<le> c then mdScroll m + 1 else mdScroll m)\<rparr>)
      else Some m)"

definition move_up :: "('i, 'p, 'v, 't) model \<Rightarrow> ('i, 'p, 'v, 't) model option" where
  "move_up m =
     (if 0 < mdCursor m then
        let c = mdCursor m - 1 in
        select_row (m\<lparr>mdCursor := c, mdScroll := (if c < mdScroll m then mdScroll m - 1 else mdScroll m)\<rparr>)
      else Some m)"

text \<open>The rows of a new snapshot, the cursor at the top.\<close>

definition show_snapshot ::
  "('i, 'p, 'v, 't, 's) tui_env \<Rightarrow> FrozenSnapshot \<Rightarrow> ('i, 'p, 'v, 't) model \<Rightarrow> ('i, 'p, 'v, 't) model option" where
  "show_snapshot env snap m =
     map_option (\<lambda>es. m\<lparr>mdSnap := Some snap, mdConv := UpdateSnapshot (teZone env) snap (mdConv m), mdProcs := es,
         mdCursor := 0, mdScroll := 0\<rparr>)
       (proc_rows (Some snap) (mdExpanded m))"

definition refresh ::
  "('i, 'p, 'v, 't, 's) tui_env \<Rightarrow> ('i, 'p, 'v, 't) model \<Rightarrow> 's \<Rightarrow> ('i, 'p, 'v, 't, 's) handled_msg" where
  "refresh env m s =
     (let (r, s1) = (if HasDaemon (mdConv m) then teFetch env s else (let (t, s') = teTake env s in (Inr t, s'))) in
      case r of
        Inl e \<Rightarrow> Some ((m\<lparr>mdStatus := errorStyle (teUi env) ([CHR 0xE2, CHR 0x86, CHR 0xBB] @ '' refresh failed: '' @ e)\<rparr>, s1), [])
      | Inr newSnap \<Rightarrow>
          map_option (\<lambda>m1. ((m1\<lparr>mdStatus := okStyle (teUi env) ([CHR 0xE2, CHR 0x86, CHR 0xBB] @ '' snapshot refreshed'')\<rparr>, s1), []))
            (show_snapshot env newSnap m))"

definition toggle_panel :: "('i, 'p, 'v, 't) widgets \<Rightarrow> ('i, 'p, 'v, 't) model \<Rightarrow> ('i, 'p, 'v, 't) model" where
  "toggle_panel w m =
     (let m1 = (if \<not> mdSide m
          then m\<lparr>mdSide := True, mdFocus := FocusProcs, mdInput := tiBlur w (mdInput m)\<rparr>
          else m\<lparr>mdSide := False, mdFocus := FocusChat, mdInput := tiFocus w (mdInput m)\<rparr>)
      in syncVP w (m1\<lparr>mdVp := vpResize w (chatWidth m1) (vpHeight m1) (mdVp m1),
           mdInput := tiSetWidth w (chatWidth m1 - 6) (mdInput m1)\<rparr>))"

definition selected_comm :: "('i, 'p, 'v, 't) model \<Rightarrow> string" where
  "selected_comm m = (case filter (\<lambda>e. pePID e = mdSelected m) (mdProcs m) of [] \<Rightarrow> [] | e # _ \<Rightarrow> peComm e)"

definition context_msg :: "u32 \<Rightarrow> string \<Rightarrow> Message" where
  "context_msg pid comm = plain_msg RoleSystem (''ACTIVE CONTEXT: User has selected process PID='' @ pid_str pid
     @ '' ('' @ comm @ '').'' @ '' Treat this as the subject of investigation unless overridden by the user'' @ [CHR 0x27] @ ''s message.'')"

definition press_enter ::
  "('i, 'p, 'v, 't, 's) tui_env \<Rightarrow> ('i, 'p, 'v, 't) model \<Rightarrow> ('i, 'p, 'v, 't) model \<times> tui_cmd list" where
  "press_enter env m =
     (let w = teW env;
          ti = (if tiFocused w (mdInput m) then mdInput m else tiFocus w (mdInput m));
          input = TrimSpace (tiValue w ti);
          m1 = m\<lparr>mdInput := tiSetValue w [] ti, mdStatus := []\<rparr>;
          m2 = (if mdSelected m \<noteq> 0 \<and> mdSnap m \<noteq> None \<and> selected_comm m \<noteq> []
                then m1\<lparr>mdConv := append_msg (context_msg (mdSelected m) (selected_comm m)) (mdConv m)\<rparr> else m1)
      in if input \<noteq> [] then handleInput env input m2 else (m1, []))"

definition scroll_view :: "('v \<Rightarrow> 'v) \<Rightarrow> ('i, 'p, 'v, 't) model \<Rightarrow> ('i, 'p, 'v, 't) model" where
  "scroll_view f m = m\<lparr>mdVp := f (mdVp m)\<rparr>"

definition updateChat ::
  "('i, 'p, 'v, 't, 's) tui_env \<Rightarrow> key \<Rightarrow> ('i, 'p, 'v, 't) model \<Rightarrow> 's \<Rightarrow> ('i, 'p, 'v, 't, 's) handled_msg" where
  "updateChat env k m s =
     (let w = teW env; u = teUi env; t = keyType k; txt1 = keyText k; unfocused = (\<not> tiFocused w (mdInput m));
          still = (\<lambda>r. map_option (\<lambda>m'. ((m', s), [])) r)
      in
      if t = KeyCtrlC then Some ((m, s), [QuitCmd])
      else if t = KeyEsc then
        Some ((m\<lparr>mdSelected := 0, mdInput := tiSetValue w [] (tiBlur w (mdInput m)),
                 mdStatus := statusStyle u ''press i/Enter to chat''\<rparr>, s), [])
      else if t = KeyCtrlR then refresh env m s
      else if t = KeyCtrlS then Some ((m, s), [SaveCmd (mdSnap m)])
      else if t = KeyCtrlL then Some ((m, s), [ListCmd])
      else if t = KeyCtrlP then Some ((toggle_panel w m, s), [ClearScreenCmd])
      else if unfocused \<and> (txt1 = ''j'' \<or> txt1 = ''down'') then still (move_down m)
      else if unfocused \<and> (txt1 = ''k'' \<or> txt1 = ''up'') then still (move_up m)
      else if unfocused \<and> (txt1 = ''i'' \<or> txt1 = ''/'') then
        Some ((m\<lparr>mdInput := tiFocus w (mdInput m), mdStatus := [], mdSelected := 0\<rparr>, s), [])
      else if t = KeyCtrlJ then still (move_down m)
      else if txt1 = ''up'' \<or> t = KeyCtrlK then still (move_up m)
      else if t = KeyCtrlU \<or> t = KeyPgUp then Some ((scroll_view (vpLineUp w 3) m, s), [])
      else if t = KeyCtrlD \<or> t = KeyPgDown then Some ((scroll_view (vpLineDown w 3) m, s), [])
      else if t = KeyEnter then (let (m', cmds) = press_enter env m in Some ((m', s), cmds))
      else Some ((m\<lparr>mdInput := tiUpdate w (KeyMsg k) (mdInput m)\<rparr>, s), [WidgetCmd]))"

text \<open>A key of the loader that no row answers goes to the table.\<close>

definition updateLoader ::
  "('i, 'p, 'v, 't, 's) tui_env \<Rightarrow> key \<Rightarrow> ('i, 'p, 'v, 't) model \<Rightarrow> 's \<Rightarrow> ('i, 'p, 'v, 't, 's) handled_msg" where
  "updateLoader env k m s =
     (let w = teW env; txt1 = keyText k; row = tbCursor w (mdTable m);
          on_row = (0 \<le> row \<and> row < int (length (mdMetas m)));
          back = m\<lparr>mdMode := ModeChat, mdInput := tiFocus w (mdInput m)\<rparr>
      in
      if txt1 = ''esc'' then Some ((back, s), [])
      else if txt1 = ''enter'' \<and> on_row then Some ((back, s), [LoadCmd (smID (mdMetas m ! nat row))])
      else if (txt1 = ''x'' \<or> txt1 = ''d'') \<and> on_row then Some ((m, s), [DeleteCmd (smID (mdMetas m ! nat row))])
      else if txt1 = ''ctrl+c'' then Some ((m, s), [QuitCmd])
      else Some ((m\<lparr>mdTable := tbUpdate w (KeyMsg k) (mdTable m)\<rparr>, s), [WidgetCmd]))"

definition table_row :: "(gotime \<Rightarrow> int) \<Rightarrow> SnapshotMeta \<Rightarrow> string list" where
  "table_row zone meta = [dec_int (smID meta), smLabel meta,
     fmt_date zone (smTimestamp meta) @ '' '' @ fmt_clock zone (smTimestamp meta)]"

definition buildSnapshotTable :: "('i, 'p, 'v, 't, 's) tui_env \<Rightarrow> SnapshotMeta list \<Rightarrow> 't" where
  "buildSnapshotTable env metas = tbBuild (teW env) (map (table_row (teZone env)) metas)"

text \<open>The end of \<^verbatim>\<open>Update\<close>, which the messages without a handler of their own reach.\<close>

definition update_widgets ::
  "('i, 'p, 'v, 't) widgets \<Rightarrow> tui_msg \<Rightarrow> ('i, 'p, 'v, 't) model \<Rightarrow> ('i, 'p, 'v, 't) model \<times> tui_cmd list" where
  "update_widgets w msg m =
     (let m1 = (if mdWaiting m then m\<lparr>mdSpinner := spUpdate w msg (mdSpinner m)\<rparr> else m);
          m2 = (if mdMode m1 = ModeChat then m1\<lparr>mdInput := tiUpdate w msg (mdInput m1)\<rparr> else m1)
      in (m2, [WidgetCmd]))"

definition window_size ::
  "('i, 'p, 'v, 't) widgets \<Rightarrow> int \<Rightarrow> int \<Rightarrow> ('i, 'p, 'v, 't) model \<Rightarrow> ('i, 'p, 'v, 't) model" where
  "window_size w width height m =
     (let m1 = m\<lparr>mdWidth := width, mdHeight := height\<rparr>; chatW = chatWidth m1; h = vpHeight m1;
          m2 = (if \<not> mdReady m1 then
                  let m' = m1\<lparr>mdVp := vpNew w chatW h\<rparr> in
                  m'\<lparr>mdVp := vpSetContent w (renderHistory w m') (mdVp m'), mdReady := True\<rparr>
                else m1\<lparr>mdVp := vpResize w chatW h (mdVp m1)\<rparr>)
      in syncVP w (m2\<lparr>mdInput := tiSetWidth w (chatW - 6) (mdInput m2)\<rparr>))"

fun chat_event ::
  "('i, 'p, 'v, 't, 's) tui_env \<Rightarrow> ui_msg \<Rightarrow> ('i, 'p, 'v, 't) model \<Rightarrow> ('i, 'p, 'v, 't) model \<times> tui_cmd list" where
  "chat_event env (ToolCallMsg name) m = (m\<lparr>mdTool := name\<rparr>, [ListenCmd])"
| "chat_event env (ToolDoneMsg shown) m = (show_line (teW env) shown m, [ListenCmd])"
| "chat_event env (AiDoneMsg r) m =
     (let u = teUi env; m1 = m\<lparr>mdWaiting := False, mdTool := []\<rparr>;
          lns = (case r of
             Inl e \<Rightarrow> [errorStyle u ([CHR 0xE2, CHR 0x9C, CHR 0x97] @ '' '' @ e)]
           | Inr text1 \<Rightarrow> if text1 \<noteq> [] then [shellStyle u (''godshell'' @ [CHR 0xE2, CHR 0x9D, CHR 0xAF] @ '' '') @ bodyStyle u text1] else [])
      in (syncVP (teW env) (m1\<lparr>mdHistory := mdHistory m1 @ lns\<rparr>), []))"

fun Update ::
  "('i, 'p, 'v, 't, 's) tui_env \<Rightarrow> tui_msg \<Rightarrow> ('i, 'p, 'v, 't) model \<Rightarrow> 's \<Rightarrow> ('i, 'p, 'v, 't, 's) handled_msg" where
  "Update env (WindowSizeMsg width height) m s = Some ((window_size (teW env) width height m, s), [])"
| "Update env (ChatMsg cm) m s = (let (m', cmds) = chat_event env cm m in Some ((m', s), cmds))"
| "Update env (SnapshotSavedMsg r) m s =
     Some ((m\<lparr>mdStatus := (case r of
         Inl e \<Rightarrow> errorStyle (teUi env) (''save failed: '' @ e)
       | Inr i \<Rightarrow> okStyle (teUi env) ([CHR 0xE2, CHR 0x9C, CHR 0x93] @ '' saved (id='' @ dec_int i @ '')''))\<rparr>, s), [])"
| "Update env (SnapshotLoadedMsg r) m s =
     (case r of
        Inl e \<Rightarrow> Some ((m\<lparr>mdStatus := errorStyle (teUi env) (''load failed: '' @ e)\<rparr>, s), [])
      | Inr snap \<Rightarrow>
          map_option (\<lambda>m1. (((select_first m1)\<lparr>mdStatus := okStyle (teUi env) ([CHR 0xE2, CHR 0x9C, CHR 0x93] @ '' snapshot loaded'')\<rparr>, s), []))
            (show_snapshot env snap m))"
| "Update env (SnapshotsListedMsg r) m s =
     (let m1 = (case r of
          Inl e \<Rightarrow> m\<lparr>mdStatus := errorStyle (teUi env) ([CHR 0xE2, CHR 0x9C, CHR 0x95] @ '' loader: '' @ e)\<rparr>
        | Inr metas \<Rightarrow> m\<lparr>mdMetas := metas, mdTable := buildSnapshotTable env metas\<rparr>);
          (m2, cmds) = update_widgets (teW env) (SnapshotsListedMsg r) m1
      in Some ((m2, s), cmds))"
| "Update env (SnapshotDeletedMsg i err) m s =
     (case err of
        Some e \<Rightarrow> Some ((m\<lparr>mdStatus := errorStyle (teUi env) ([CHR 0xE2, CHR 0x9C, CHR 0x95] @ '' delete: '' @ e), mdMode := ModeLoader,
                           mdInput := tiBlur (teW env) (mdInput m)\<rparr>, s), [])
      | None \<Rightarrow> Some ((m\<lparr>mdStatus := okStyle (teUi env) ([CHR 0xE2, CHR 0x9C, CHR 0x93] @ '' deleted snapshot '' @ dec_int i)\<rparr>, s), [ListCmd]))"
| "Update env (KeyMsg k) m s = (if mdMode m = ModeLoader then updateLoader env k m s else updateChat env k m s)"
| "Update env (MouseMsg b) m s =
     Some ((case b of
         WheelUp \<Rightarrow> scroll_view (vpLineUp (teW env) 3) m
       | WheelDown \<Rightarrow> scroll_view (vpLineDown (teW env) 3) m
       | OtherButton \<Rightarrow> m, s), [])"
| "Update env OtherMsg m s = (let (m', cmds) = update_widgets (teW env) OtherMsg m in Some ((m', s), cmds))"

section \<open>The program as a transition system\<close>

text \<open>
  A step handles a message: input from the terminal at any time, or the answer to a command that is
  pending. Between the messages the chat loop writes to the conversation, and the world changes. A
  snapshot that arrives has one entry per identifier, as a decoded map has.
\<close>

fun terminal_input :: "tui_msg \<Rightarrow> bool" where
  "terminal_input (WindowSizeMsg width height) \<longleftrightarrow> True"
| "terminal_input (KeyMsg k) \<longleftrightarrow> True"
| "terminal_input (MouseMsg b) \<longleftrightarrow> True"
| "terminal_input OtherMsg \<longleftrightarrow> True"
| "terminal_input _ \<longleftrightarrow> False"

fun answers :: "tui_cmd \<Rightarrow> tui_msg \<Rightarrow> bool" where
  "answers (SaveCmd x) (SnapshotSavedMsg r) \<longleftrightarrow> True"
| "answers ListCmd (SnapshotsListedMsg r) \<longleftrightarrow> True"
| "answers (LoadCmd i) (SnapshotLoadedMsg r) \<longleftrightarrow> (case r of Inl _ \<Rightarrow> True | Inr snap \<Rightarrow> wf_map (FByPID snap))"
| "answers (DeleteCmd i) (SnapshotDeletedMsg j err) \<longleftrightarrow> i = j"
| "answers ListenCmd (ChatMsg cm) \<longleftrightarrow> True"
| "answers _ _ \<longleftrightarrow> False"

type_synonym ('i, 'p, 'v, 't, 's) tui_state = "('i, 'p, 'v, 't) model \<times> 's \<times> tui_cmd list"

inductive tui_step ::
  "('i, 'p, 'v, 't, 's) tui_env \<Rightarrow> ('i, 'p, 'v, 't, 's) tui_state \<Rightarrow> ('i, 'p, 'v, 't, 's) tui_state \<Rightarrow> bool" for env where
  input: "terminal_input msg \<Longrightarrow> Update env msg m s = Some ((m', s'), cmds) \<Longrightarrow> tui_step env (m, s, p) (m', s', p @ cmds)"
| reply: "c \<in> set p \<Longrightarrow> answers c msg \<Longrightarrow> Update env msg m s = Some ((m', s'), cmds) \<Longrightarrow>
    tui_step env (m, s, p) (m', s', remove1 c p @ cmds)"
| talk: "same_setting c (mdConv m) \<Longrightarrow> tui_step env (m, s, p) (m\<lparr>mdConv := c\<rparr>, s', p)"

inductive tui_reach ::
  "('i, 'p, 'v, 't, 's) tui_env \<Rightarrow> ('i, 'p, 'v, 't, 's) tui_state \<Rightarrow> ('i, 'p, 'v, 't, 's) tui_state \<Rightarrow> bool" for env st0 where
  start: "tui_reach env st0 st0"
| more: "tui_reach env st0 st \<Longrightarrow> tui_step env st st' \<Longrightarrow> tui_reach env st0 st'"

definition env_ok :: "('i, 'p, 'v, 't, 's) tui_env \<Rightarrow> bool" where
  "env_ok env \<longleftrightarrow> (\<forall>s snap s'. teFetch env s = (Inr snap, s') \<longrightarrow> wf_map (FByPID snap))
     \<and> (\<forall>s. wf_map (FByPID (fst (teTake env s))))"

definition cursor_ok :: "('i, 'p, 'v, 't) model \<Rightarrow> bool" where
  "cursor_ok m \<longleftrightarrow> 0 \<le> mdScroll m \<and> mdScroll m \<le> mdCursor m
     \<and> (mdCursor m = 0 \<or> mdCursor m < int (length (mdProcs m)))"

definition rows_ok :: "('i, 'p, 'v, 't) model \<Rightarrow> bool" where
  "rows_ok m \<longleftrightarrow> mdExpanded m = [] \<and> (\<forall>snap. mdSnap m = Some snap \<longrightarrow> wf_map (FByPID snap))
     \<and> proc_rows (mdSnap m) [] = Some (mdProcs m)"

definition tui_ok :: "('i, 'p, 'v, 't) model \<Rightarrow> bool" where
  "tui_ok m \<longleftrightarrow> mdMode m = ModeChat \<and> cursor_ok m \<and> rows_ok m"

definition quiet :: "tui_cmd list \<Rightarrow> bool" where
  "quiet p \<longleftrightarrow> (\<forall>i. LoadCmd i \<notin> set p \<and> DeleteCmd i \<notin> set p)"

lemmas tui_ok_defs = tui_ok_def cursor_ok_def rows_ok_def

lemma proc_rows_Some: "wf_map (FByPID snap) \<Longrightarrow> \<exists>es. proc_rows (Some snap) expanded = Some es"
  using panel_rows_exact_lemma [of snap expanded] by (auto simp: proc_rows_def)

lemma show_snapshot_ok:
  assumes "wf_map (FByPID snap)" and "tui_ok m"
  shows "\<exists>m'. show_snapshot env snap m = Some m' \<and> tui_ok m'"
proof -
  obtain es where "proc_rows (Some snap) [] = Some es" using proc_rows_Some [OF assms(1)] by blast
  with assms show ?thesis by (auto simp: show_snapshot_def tui_ok_defs)
qed

lemma syncVP_ok [simp]: "tui_ok (syncVP w m) = tui_ok m"
  by (simp add: syncVP_def tui_ok_defs)

lemma fields_ok [simp]:
  "tui_ok (m\<lparr>mdHistory := h\<rparr>) = tui_ok m" "tui_ok (m\<lparr>mdStatus := t\<rparr>) = tui_ok m" "tui_ok (m\<lparr>mdInput := i\<rparr>) = tui_ok m"
  "tui_ok (m\<lparr>mdConv := c\<rparr>) = tui_ok m" "tui_ok (m\<lparr>mdVp := v\<rparr>) = tui_ok m" "tui_ok (m\<lparr>mdSelected := sel\<rparr>) = tui_ok m"
  "tui_ok (m\<lparr>mdWaiting := b\<rparr>) = tui_ok m" "tui_ok (m\<lparr>mdTool := t\<rparr>) = tui_ok m" "tui_ok (m\<lparr>mdTable := tb\<rparr>) = tui_ok m"
  "tui_ok (m\<lparr>mdMetas := ms\<rparr>) = tui_ok m" "tui_ok (m\<lparr>mdSpinner := sp\<rparr>) = tui_ok m" "tui_ok (m\<lparr>mdReady := b\<rparr>) = tui_ok m"
  "tui_ok (m\<lparr>mdWidth := x\<rparr>) = tui_ok m" "tui_ok (m\<lparr>mdHeight := x\<rparr>) = tui_ok m" "tui_ok (m\<lparr>mdSide := b\<rparr>) = tui_ok m"
  "tui_ok (m\<lparr>mdFocus := f\<rparr>) = tui_ok m"
  by (simp_all add: tui_ok_defs)

lemma move_ok:
  assumes "tui_ok m"
  shows "\<exists>m'. move_down m = Some m' \<and> tui_ok m'" "\<exists>m'. move_up m = Some m' \<and> tui_ok m'"
proof -
  show "\<exists>m'. move_down m = Some m' \<and> tui_ok m'"
  proof (cases "mdCursor m < int (length (mdProcs m)) - 1")
    case True
    with assms show ?thesis by (auto simp: move_down_def select_row_def tui_ok_defs Let_def)
  qed (use assms in \<open>simp add: move_down_def\<close>)
  show "\<exists>m'. move_up m = Some m' \<and> tui_ok m'"
  proof (cases "0 < mdCursor m")
    case True
    with assms show ?thesis by (auto simp: move_up_def select_row_def tui_ok_defs Let_def)
  qed (use assms in \<open>simp add: move_up_def\<close>)
qed

definition handled_ok :: "('i, 'p, 'v, 't, 's) handled_msg \<Rightarrow> bool" where
  "handled_ok r \<longleftrightarrow> (\<exists>m s cmds. r = Some ((m, s), cmds) \<and> tui_ok m \<and> quiet cmds)"

lemma handled_okI [intro]: "tui_ok m \<Longrightarrow> quiet cmds \<Longrightarrow> handled_ok (Some ((m, s), cmds))"
  by (simp add: handled_ok_def)

lemma quiet_simps [simp]:
  "quiet []" "quiet (p @ q) \<longleftrightarrow> quiet p \<and> quiet q"
  "quiet (c # p) \<longleftrightarrow> (\<forall>i. c \<noteq> LoadCmd i \<and> c \<noteq> DeleteCmd i) \<and> quiet p"
  by (auto simp: quiet_def)

lemma quiet_remove1: "quiet p \<Longrightarrow> quiet (remove1 c p)"
  using set_remove1_subset [of c p] by (auto simp: quiet_def)

lemma refresh_ok: "env_ok env \<Longrightarrow> tui_ok m \<Longrightarrow> handled_ok (refresh env m s)"
proof -
  assume env: "env_ok env" and m: "tui_ok m"
  obtain r s1 where r: "(if HasDaemon (mdConv m) then teFetch env s else (let (t, s') = teTake env s in (Inr t, s'))) = (r, s1)"
    by fastforce
  show ?thesis
  proof (cases r)
    case (Inl e)
    with r m show ?thesis by (simp add: refresh_def handled_okI)
  next
    case (Inr snap)
    have "wf_map (FByPID snap)"
      using env r Inr unfolding env_ok_def by (auto split: if_splits prod.splits) (metis fst_conv)
    from show_snapshot_ok [OF this m] obtain m' where "show_snapshot env snap m = Some m'" "tui_ok m'" by blast
    with r Inr show ?thesis by (simp add: refresh_def handled_okI)
  qed
qed

lemma toggle_ok [simp]: "tui_ok (toggle_panel w m) = tui_ok m"
  by (simp add: toggle_panel_def Let_def)

lemma show_line_ok [simp]: "tui_ok (show_line w l m) = tui_ok m"
  by (simp add: show_line_def)

lemma handleInput_ok: "tui_ok m \<Longrightarrow> tui_ok (fst (handleInput env input m)) \<and> quiet (snd (handleInput env input m))"
  by (simp add: handleInput_def Let_def)

lemma press_enter_ok: "tui_ok m \<Longrightarrow> tui_ok (fst (press_enter env m)) \<and> quiet (snd (press_enter env m))"
  by (simp add: press_enter_def Let_def handleInput_ok)

lemma updateChat_ok:
  assumes "env_ok env" and "tui_ok m"
  shows "handled_ok (updateChat env k m s)"
proof -
  obtain m1 m2 where mv: "move_down m = Some m1" "tui_ok m1" "move_up m = Some m2" "tui_ok m2"
    using move_ok [OF assms(2)] by blast
  have enter: "handled_ok (let (m', cmds) = press_enter env m in Some ((m', s), cmds))"
    using press_enter_ok [OF assms(2), of env] by (auto simp: case_prod_beta)
  show ?thesis
    unfolding updateChat_def Let_def using enter refresh_ok [OF assms] assms(2) mv
    by (auto simp: scroll_view_def Let_def)
qed

lemma Update_input_ok:
  assumes "env_ok env" and "tui_ok m" and "terminal_input msg"
  shows "handled_ok (Update env msg m s)"
proof (cases msg)
  case (KeyMsg k)
  then show ?thesis using updateChat_ok [OF assms(1,2)] assms(2) by (simp add: tui_ok_def)
next
  case (WindowSizeMsg width height)
  then show ?thesis using assms(2) by (auto simp: window_size_def Let_def)
next
  case (MouseMsg b)
  then show ?thesis using assms(2) by (cases b) (auto simp: scroll_view_def)
next
  case OtherMsg
  then show ?thesis using assms(2) by (auto simp: update_widgets_def Let_def)
qed (use assms(3) in simp_all)

lemma Update_reply_ok:
  assumes "tui_ok m" and "c \<in> set p" and "quiet p" and "answers c msg"
  shows "handled_ok (Update env msg m s)"
  using assms(4)
proof (cases rule: answers.elims(2))
  case (2 r)
  then show ?thesis using assms(1) by (cases r) (auto simp: update_widgets_def Let_def)
next
  case (5 cm)
  then show ?thesis using assms(1) by (cases cm) (auto simp: Let_def)
qed (use assms in \<open>auto simp: quiet_def split: sum.splits\<close>)

lemma tui_step_ok:
  assumes "tui_step env st st'" and "env_ok env" and "tui_ok (fst st) \<and> quiet (snd (snd st))"
  shows "tui_ok (fst st') \<and> quiet (snd (snd st'))"
  using assms(1)
proof cases
  case (input msg m s m' s' cmds p)
  with Update_input_ok [OF assms(2), of m msg s] assms(3) show ?thesis by (auto simp: handled_ok_def)
next
  case (reply c p msg m s m' s' cmds)
  with Update_reply_ok [of m c p msg env s] assms(3) show ?thesis by (auto simp: handled_ok_def quiet_remove1)
next
  case (talk c m s s' p)
  with assms(3) show ?thesis by simp
qed

lemma initialDaemonModel_ok:
  "initialDaemonModel w snap vtKey abuseKey = Some m \<Longrightarrow> \<forall>s. snap = Some s \<longrightarrow> wf_map (FByPID s) \<Longrightarrow> tui_ok m"
  by (auto simp: initialDaemonModel_def fresh_model_def tui_ok_defs Let_def)

interpretation terminal: transition_invariant "tui_step env"
    "\<lambda>st. env_ok env \<and> tui_ok (fst st) \<and> quiet (snd (snd st))" for env
  by unfold_locales (use tui_step_ok in blast)

lemma tui_reach_steps: "tui_reach env st0 st \<Longrightarrow> (tui_step env)\<^sup>*\<^sup>* st0 st"
  by (induction rule: tui_reach.induct) auto

lemma tui_reach_ok:
  assumes "tui_reach env st0 st" and "env_ok env" and "tui_ok (fst st0) \<and> quiet (snd (snd st0))"
  shows "tui_ok (fst st) \<and> quiet (snd (snd st))"
  using terminal.reach_keeps [OF tui_reach_steps [OF assms(1)]] assms(2,3) by blast

text \<open>
  C3: the terminal never crashes on a message: whatever has been typed and answered before, the handler
  returns, the cursor is on a row (or at the top of an empty list), and the visible part starts at or
  above the cursor.
\<close>

theorem tui_handles_every_message:
  assumes "initialDaemonModel (teW env) snap vtKey abuseKey = Some m0" and "\<forall>s. snap = Some s \<longrightarrow> wf_map (FByPID s)"
    and "env_ok env" and "tui_reach env (m0, s0, []) (m, s, p)" and "terminal_input msg \<or> (\<exists>c \<in> set p. answers c msg)"
  shows "Update env msg m s \<noteq> None
    \<and> (mdCursor m = 0 \<or> mdCursor m < int (length (mdProcs m))) \<and> 0 \<le> mdScroll m \<and> mdScroll m \<le> mdCursor m"
proof -
  have "tui_ok (fst (m0, s0, [])) \<and> quiet (snd (snd (m0, s0, [])))"
    using initialDaemonModel_ok [OF assms(1,2)] by simp
  from tui_reach_ok [OF assms(4,3) this] have ok: "tui_ok m" "quiet p" by simp_all
  have "handled_ok (Update env msg m s)"
    using assms(5) Update_input_ok [OF assms(3) ok(1), of msg s] Update_reply_ok [OF ok(1) _ ok(2), of _ msg env s] by blast
  with ok(1) show ?thesis by (auto simp: handled_ok_def tui_ok_defs)
qed

text \<open>
  C37: the snapshot loader never opens: no sequence of messages puts the terminal into its mode, so no
  saved snapshot is ever loaded or deleted, although a list of them arrives on request. The process
  panel shows roots only: no message expands a row.
\<close>

theorem loader_never_opens:
  assumes "initialDaemonModel (teW env) snap vtKey abuseKey = Some m0" and "\<forall>s. snap = Some s \<longrightarrow> wf_map (FByPID s)"
    and "env_ok env" and "tui_reach env (m0, s0, []) (m, s, p)"
  shows "mdMode m = ModeChat \<and> (\<forall>i. LoadCmd i \<notin> set p \<and> DeleteCmd i \<notin> set p)
    \<and> (\<forall>sn. mdSnap m = Some sn \<longrightarrow> (\<forall>e \<in> set (mdProcs m). root_pid sn (pePID e) \<and> peDepth e = 0))"
proof -
  have "tui_ok (fst (m0, s0, [])) \<and> quiet (snd (snd (m0, s0, [])))"
    using initialDaemonModel_ok [OF assms(1,2)] by simp
  from tui_reach_ok [OF assms(4,3) this] have ok: "tui_ok m" "quiet p" by simp_all
  have "root_pid sn (pePID e) \<and> peDepth e = 0" if sn: "mdSnap m = Some sn" and e: "e \<in> set (mdProcs m)" for sn e
  proof -
    from ok(1) sn have "wf_map (FByPID sn)" "proc_rows (Some sn) [] = Some (mdProcs m)"
      by (auto simp: tui_ok_def rows_ok_def)
    with panel_rows_exact_lemma [of sn "[]"] have "row_shown sn [] (pePID e)" "row_ok sn e"
      using e by (auto simp: proc_rows_def)
    then show ?thesis using row_depth_root by (simp add: row_shown_collapsed)
  qed
  with ok show ?thesis by (simp add: tui_ok_def quiet_def)
qed

text \<open>
  pressing Enter on a message starts a chat loop also while one is running: nothing in the handler
  looks at the flag that one is, so two loops then write to one conversation.
\<close>

theorem enter_starts_second_chat_loop:
  assumes "mdMode m \<noteq> ModeLoader" and "tiFocused (teW env) (mdInput m)" and "mdWaiting m"
    and "keyType k = KeyEnter" and "keyText k \<noteq> ''up''"
    and "TrimSpace (tiValue (teW env) (mdInput m)) \<notin> {[], ''exit'', ''quit'', ''help'', ''clear''}"
  shows "\<exists>m'. Update env (KeyMsg k) m s = Some ((m', s), [StartChat, ListenCmd, WidgetCmd]) \<and> mdWaiting m'
    \<and> last (History (mdConv m')) = plain_msg RoleUser (TrimSpace (tiValue (teW env) (mdInput m)))"
  using assms
  by (simp add: updateChat_def press_enter_def handleInput_def Let_def append_msg_def syncVP_def)

text \<open>Widgets as plain values: the text, the focus, the content, the rows.\<close>

definition plain_widgets :: "(string \<times> bool, unit, string, string list list) widgets" where
  "plain_widgets = \<lparr>tiNew = ([], False), tiFocus = (\<lambda>(t, _). (t, True)), tiBlur = (\<lambda>(t, _). (t, False)), tiFocused = snd,
     tiValue = fst, tiSetValue = (\<lambda>t (_, f). (t, f)), tiSetWidth = (\<lambda>_ i. i),
     tiUpdate = (\<lambda>msg (t, f). case msg of KeyMsg k \<Rightarrow> (if f then (t @ keyText k, f) else (t, f)) | _ \<Rightarrow> (t, f)), tiView = fst,
     spNew = (), spUpdate = (\<lambda>_ sp. sp), spView = (\<lambda>_. []),
     vpZero = [], vpNew = (\<lambda>_ _. []), vpGetWidth = (\<lambda>_. 80), vpGetHeight = (\<lambda>_. 24), vpResize = (\<lambda>_ _ v. v),
     vpSetContent = (\<lambda>t _. t), vpGotoBottom = id, vpLineUp = (\<lambda>_ v. v), vpLineDown = (\<lambda>_ v. v), vpView = id,
     vpTotalLines = (\<lambda>_. 0), vpPercent = (\<lambda>_. 100), tbZero = [], tbBuild = id, tbCursor = (\<lambda>_. 0), tbUpdate = (\<lambda>_ t. t),
     tbView = (\<lambda>_. []), wrapTo = (\<lambda>_ t. t)\<rparr>"

definition plain_env :: "(string \<times> bool, unit, string, string list list, unit) tui_env" where
  "plain_env = \<lparr>teW = plain_widgets, teUi = plain_ui, teZone = \<lambda>_. 0, teFetch = \<lambda>s. (Inr sample_snap, s),
     teTake = \<lambda>s. (sample_snap, s)\<rparr>"

lemma plain_env_ok: "env_ok plain_env"
  by (auto simp: env_ok_def plain_env_def sample_snap_def wf_map_def)

definition key_enter :: key where "key_enter = \<lparr>keyType = KeyEnter, keyText = ''enter''\<rparr>"

lemma enter_starts_second_chat_loop_witness:
  "\<exists>m m'. mdWaiting m \<and> Update plain_env (KeyMsg key_enter) m () = Some ((m', ()), [StartChat, ListenCmd, WidgetCmd])"
proof -
  let ?m = "(fresh_model plain_widgets (''hi'', True) (NewConversation None True) None FocusChat)\<lparr>mdWaiting := True\<rparr>"
  have "TrimSpace ''hi'' = ''hi''" using TrimSpace_Join [of "[''hi'']"] by (simp add: plain_char_def is_ascii_def ascii_space_def)
  then have "\<exists>m'. Update plain_env (KeyMsg key_enter) ?m () = Some ((m', ()), [StartChat, ListenCmd, WidgetCmd]) \<and> mdWaiting m'
      \<and> last (History (mdConv m')) = plain_msg RoleUser (TrimSpace (tiValue (teW plain_env) (mdInput ?m)))"
    by (intro enter_starts_second_chat_loop) (simp_all add: fresh_model_def plain_env_def plain_widgets_def key_enter_def)
  moreover have "mdWaiting ?m" by simp
  ultimately show ?thesis by blast
qed

lemma plain_start: "initialDaemonModel (teW plain_env) None [] [] =
    Some (fresh_model plain_widgets ([], True) (NewConversation None True) None FocusProcs)"
  by (simp add: initialDaemonModel_def with_intel_def proc_rows_def buildProcTree_def plain_env_def fresh_model_def)
    (simp add: plain_widgets_def)

text \<open>From the start: a refresh.\<close>

definition key_refresh :: key where "key_refresh = \<lparr>keyType = KeyCtrlR, keyText = ''ctrl+r''\<rparr>"

lemma plain_run:
  "\<exists>m cmds. tui_reach plain_env (fresh_model plain_widgets ([], True) (NewConversation None True) None FocusProcs, (), [])
     (m, (), cmds) \<and> mdSnap m = Some sample_snap"
proof -
  let ?m0 = "fresh_model plain_widgets ([], True) (NewConversation None True) None FocusProcs"
  have "tui_ok ?m0" using initialDaemonModel_ok [OF plain_start] by simp
  from Update_input_ok [OF plain_env_ok this, of "KeyMsg key_refresh" "()"]
  obtain m cmds where m: "Update plain_env (KeyMsg key_refresh) ?m0 () = Some ((m, ()), cmds)"
    by (auto simp: handled_ok_def)
  then have "mdSnap m = Some sample_snap"
    by (auto simp: key_refresh_def updateChat_def refresh_def show_snapshot_def plain_env_def fresh_model_def NewConversation_def)
  with tui_reach.more [OF tui_reach.start tui_step.input [OF _ m]] show ?thesis by fastforce
qed

lemma tui_handles_every_message_witness:
  "\<exists>m. mdSnap m = Some sample_snap \<and> Update plain_env (KeyMsg key_refresh) m () \<noteq> None"
proof -
  obtain m cmds where m: "mdSnap m = Some sample_snap"
      "tui_reach plain_env (fresh_model plain_widgets ([], True) (NewConversation None True) None FocusProcs, (), [])
         (m, (), cmds)" using plain_run by blast
  from tui_handles_every_message [OF plain_start _ plain_env_ok m(2), of "KeyMsg key_refresh"]
  have "Update plain_env (KeyMsg key_refresh) m () \<noteq> None" by (simp del: Update.simps)
  with m(1) show ?thesis by blast
qed

lemma loader_never_opens_witness:
  "\<exists>m :: (string \<times> bool, unit, string, string list list) model. mdSnap m = Some sample_snap \<and> mdMode m = ModeChat"
proof -
  obtain m cmds where m: "mdSnap m = Some sample_snap"
      "tui_reach plain_env (fresh_model plain_widgets ([], True) (NewConversation None True) None FocusProcs, (), [])
         (m, (), cmds)" using plain_run by blast
  from loader_never_opens [OF plain_start _ plain_env_ok m(2)] m(1) show ?thesis by auto
qed

end
