(* ===== verification/TuiView.thy ===== *)
theory TuiView
  imports Tui
begin

text \<open>
  The views of the terminal program (\<^verbatim>\<open>View\<close>, \<^verbatim>\<open>viewChat\<close>, \<^verbatim>\<open>viewLoader\<close>, \<^verbatim>\<open>viewConfirmContext\<close> and
  \<^verbatim>\<open>renderProcPanel\<close> in \<^verbatim>\<open>main.go\<close>) and the direct call of a tool. Styles and the placement of blocks
  belong to a library and are the record \<open>view_looks\<close>. \<open>None\<close> is a panic: an index below zero, or a
  string repeated a negative number of times.
\<close>

section \<open>The process panel\<close>

record view_looks =
  vlHeader :: "string \<Rightarrow> string"
  vlScan :: "string \<Rightarrow> string"
  vlTitle :: "string \<Rightarrow> string"
  vlNormal :: "string \<Rightarrow> string"
  vlDimRow :: "string \<Rightarrow> string"
  vlMeta :: "string \<Rightarrow> string"
  vlDimTarget :: "string \<Rightarrow> string"
  vlRed :: "string \<Rightarrow> string"
  vlPanel :: "int \<Rightarrow> string \<Rightarrow> string"
  vlConfirmBox :: "string \<Rightarrow> string"
  vlPlace :: "int \<Rightarrow> int \<Rightarrow> string \<Rightarrow> string"
  vlJoin :: "string list \<Rightarrow> string"

definition replace_first :: "string \<Rightarrow> string \<Rightarrow> string \<Rightarrow> string" where
  "replace_first s old new =
     (case Index s old of None \<Rightarrow> s | Some i \<Rightarrow> take i s @ new @ drop (i + length old) s)"

definition panelH :: "('i, 'p, 'v, 't) model \<Rightarrow> int" where
  "panelH m = mdHeight m - 1"

definition visible_rows :: "('i, 'p, 'v, 't) model \<Rightarrow> int" where
  "visible_rows m = max 1 (panelH m - 2)"

definition tree_prefix :: "procEntry \<Rightarrow> string" where
  "tree_prefix e = (if 0 < peDepth e then concat (replicate (peDepth e - 1) ''  '') @ [CHR 0xE2, CHR 0x94, CHR 0x9C, CHR 0xE2, CHR 0x94, CHR 0x80] @ '' '' else [])"

definition tree_toggle :: "('i, 'p, 'v, 't) model \<Rightarrow> procEntry \<Rightarrow> string" where
  "tree_toggle m e =
     (if peHasKids e then (if or_zero False (map_of (mdExpanded m) (pePID e)) then [CHR 0xE2, CHR 0x96, CHR 0xBC] @ '' '' else [CHR 0xE2, CHR 0x96, CHR 0xB6] @ '' '') else ''  '')"

definition short_comm :: "string \<Rightarrow> string \<Rightarrow> string \<Rightarrow> string" where
  "short_comm prefix toggle comm =
     (let maxCommLen = max 4 (14 - int (length prefix) - int (length toggle)) in
      if maxCommLen < int (length comm) then take (nat (maxCommLen - 1)) comm @ ellipsis else comm)"

definition panel_row :: "view_looks \<Rightarrow> ui \<Rightarrow> ('i, 'p, 'v, 't) model \<Rightarrow> int \<Rightarrow> string" where
  "panel_row lk u m i =
     (let e = mdProcs m ! nat i; prefix = tree_prefix e; toggle = tree_toggle m e;
          comm = short_comm prefix toggle (peComm e);
          meta = (if peCPU e \<noteq> [] then peCPU e @ '' '' else []) @ peMem e;
          rowMain = '' '' @ pad_right 14 (prefix @ toggle @ comm) @ '' '' @ pad_left (CHR '' '') 5 (pid_str (pePID e));
          rowMain1 = replace_first rowMain [CHR 0xE2, CHR 0x94, CHR 0x9C, CHR 0xE2, CHR 0x94, CHR 0x80] (vlDimTarget lk [CHR 0xE2, CHR 0x94, CHR 0x9C, CHR 0xE2, CHR 0x94, CHR 0x80]);
          rowMeta = vlMeta lk (pad_right 6 meta)
      in (if i = mdCursor m then selStyle u (pad_right 29 (stripAnsi rowMain1)) else vlNormal lk (pad_right 29 rowMain1)) @ rowMeta)"

definition scroll_mark :: "view_looks \<Rightarrow> ('i, 'p, 'v, 't) model \<Rightarrow> string list" where
  "scroll_mark lk m =
     (let n = int (length (mdProcs m)) in
      if panelH m - 2 < n then
        [vlRed lk (''  '' @ [CHR 0xE2, CHR 0x94, CHR 0x80, CHR 0xE2, CHR 0x94, CHR 0x80] @ '' '' @ dec_int (if 1 < n then quot (mdCursor m * 100) (n - 1) else 0) @ ''% '' @ [CHR 0xE2, CHR 0x94, CHR 0x80, CHR 0xE2, CHR 0x94, CHR 0x80])]
      else [])"

definition panel_rows :: "view_looks \<Rightarrow> ui \<Rightarrow> ('i, 'p, 'v, 't) model \<Rightarrow> string list option" where
  "panel_rows lk u m =
     (if mdProcs m = [] then Some [vlDimRow lk ''  no snapshot'']
      else let stop = min (mdScroll m + visible_rows m) (int (length (mdProcs m))) in
        if mdScroll m < 0 \<and> mdScroll m < stop then None
        else Some (map (panel_row lk u m) [mdScroll m..stop - 1] @ scroll_mark lk m))"

definition panel_lines :: "view_looks \<Rightarrow> ui \<Rightarrow> ('i, 'p, 'v, 't) model \<Rightarrow> string list option" where
  "panel_lines lk u m =
     map_option
       (\<lambda>rows. let lns = vlTitle lk ''PROCESSES'' # vlRed lk (concat (replicate (nat leftPanelWidth) box_h)) # rows in
          lns @ replicate (nat (panelH m - int (length lns))) [])
       (panel_rows lk u m)"

definition renderProcPanel :: "view_looks \<Rightarrow> ui \<Rightarrow> ('i, 'p, 'v, 't) model \<Rightarrow> string option" where
  "renderProcPanel lk u m = map_option (\<lambda>lns. vlPanel lk leftPanelWidth (Join lns nl)) (panel_lines lk u m)"

section \<open>The views\<close>

definition repeat_rule :: "int \<Rightarrow> string option" where
  "repeat_rule n = (if n < 0 then None else Some (concat (replicate (nat n) box_h)))"

definition viewConfirmContext :: "view_looks \<Rightarrow> ui \<Rightarrow> ('i, 'p, 'v, 't) model \<Rightarrow> string option" where
  "viewConfirmContext lk u m =
     map_option
       (\<lambda>r. vlPlace lk (mdWidth m) (mdHeight m)
          (vlHeader lk [CHR 0xE2, CHR 0x9A, CHR 0xA1] @ '' godshell popup'' @ nl @ dimStyle u r @ nl @ nl @ vlConfirmBox lk (mdConfirm m) @ nl @ nl
           @ statusStyle u ''  [Y]es to add to context  |  [N]o to discard''))
       (repeat_rule (mdWidth m))"

definition viewLoader :: "('i, 'p, 'v, 't) widgets \<Rightarrow> view_looks \<Rightarrow> ui \<Rightarrow> ('i, 'p, 'v, 't) model \<Rightarrow> string option" where
  "viewLoader w lk u m =
     map_option
       (\<lambda>r. vlHeader lk ''Snapshot Loader'' @ nl @ dimStyle u r @ nl @ nl
          @ (if mdMetas m = [] then hintStyle u ''  no snapshots saved. press [s] in chat to save one.'' @ nl
             else tbView w (mdTable m) @ nl)
          @ nl @ statusStyle u [CHR 0xE2, CHR 0x86, CHR 0x91, CHR 0xE2, CHR 0x86, CHR 0x93] @ '' navigate  enter load  [x] delete  esc back'' @ nl)
       (repeat_rule (mdWidth m))"

definition spinner_line :: "('i, 'p, 'v, 't) widgets \<Rightarrow> view_looks \<Rightarrow> ('i, 'p, 'v, 't) model \<Rightarrow> string" where
  "spinner_line w lk m =
     (if mdWaiting m then ''  '' @ spView w (mdSpinner m) @ '' ''
        @ vlScan lk (if mdTool m \<noteq> [] then ''Running '' @ mdTool m @ ''...'' else ''Scanning system snapshot...'') @ nl
      else [])"

definition selection_info :: "ui \<Rightarrow> ('i, 'p, 'v, 't) model \<Rightarrow> string" where
  "selection_info u m =
     (if mdSelected m = 0 then []
      else case filter (\<lambda>e. pePID e = mdSelected m) (mdProcs m) of
             [] \<Rightarrow> []
           | e # _ \<Rightarrow> okStyle u (''[sel:'' @ peComm e @ ''/'' @ pid_str (pePID e) @ '']'') @ ''  '')"

definition status_bar :: "('i, 'p, 'v, 't) widgets \<Rightarrow> ui \<Rightarrow> ('i, 'p, 'v, 't) model \<Rightarrow> string" where
  "status_bar w u m =
     (let scroll = (if vpGetHeight w (mdVp m) < vpTotalLines w (mdVp m)
            then dimStyle u ('' '' @ dec_int (vpPercent w (mdVp m)) @ CHR ''%'' # []) else []);
          bar = statusStyle u (if mdSide m then ''Ctrl+([r]efresh [s]ave [l]oad [p]anel) Esc to toggle focus''
            else ''Ctrl+([r]efresh [s]ave [l]oad [p]anel) type help for more info, Esc to toggle focus'') @ scroll
      in (if mdStatus m \<noteq> [] then mdStatus m @ ''  '' @ [CHR 0xE2, CHR 0x94, CHR 0x82] @ ''  '' @ bar else bar))"

definition viewChat :: "('i, 'p, 'v, 't) widgets \<Rightarrow> view_looks \<Rightarrow> ui \<Rightarrow> ('i, 'p, 'v, 't) model \<Rightarrow> string option" where
  "viewChat w lk u m =
     (if \<not> mdReady m then Some ''initializing...''
      else map_option
        (\<lambda>leftPanel.
           let chat = vlHeader lk '' godshell'' @ nl @ vpView w (mdVp m) @ nl @ spinner_line w lk m
                 @ tiView w (mdInput m) @ nl @ status_bar w u m @ nl @ selection_info u m
                 @ (if mdSide m then nl @ ''Enter to select a process, Esc to deselect'' @ nl
                      @ ''Ctrl + j/k to move across processes or up/down keys'' @ nl
                      @ statusStyle u ''Tip: If select not working, move across the processes a bit''
                    else [])
           in vlJoin lk [leftPanel, dimStyle u box_v, chat])
        (if mdSide m then renderProcPanel lk u m else Some []))"

definition View :: "('i, 'p, 'v, 't) widgets \<Rightarrow> view_looks \<Rightarrow> ui \<Rightarrow> ('i, 'p, 'v, 't) model \<Rightarrow> string option" where
  "View w lk u m =
     (case mdMode m of
        ModeLoader \<Rightarrow> viewLoader w lk u m
      | ModeConfirmContext \<Rightarrow> viewConfirmContext lk u m
      | ModeChat \<Rightarrow> viewChat w lk u m)"

section \<open>Calling a tool directly\<close>

record directToolResultMsg =
  drTool :: string
  drOutput :: string
  drArgs :: tool_args

text \<open>What the returned command does: the daemon or the local snapshot runs the tool.\<close>

definition direct_tool ::
  "toolenv \<Rightarrow> 's tool_proxy \<Rightarrow> string \<Rightarrow> tool_args \<Rightarrow> FrozenSnapshot \<Rightarrow> Conversation \<Rightarrow> 's \<Rightarrow> (directToolResultMsg go_result \<times> 's) option" where
  "direct_tool env proxy toolName args snap c s =
     (let result = (\<lambda>output. \<lparr>drTool = toolName, drOutput = output, drArgs = args\<rparr>) in
      if HasDaemon c \<and> IsPrivilegedTool toolName then
        map_option (\<lambda>(r, s'). (Ok (result (case r of Inl e \<Rightarrow> ''Error executing tool on daemon: '' @ e | Inr out \<Rightarrow> out)), s'))
          (proxy toolName args s)
      else map_option
        (\<lambda>r. (case r of
             Ok out \<Rightarrow> Ok (result out)
           | Failed e \<Rightarrow> Ok (result (''Error executing tool locally: '' @ e))
           | Panic e \<Rightarrow> Panic e, s))
        (ExecuteToolOnSnapshot env toolName args snap))"

text \<open>\<open>None\<close> as the second component: there is nothing to run.\<close>

definition fireDirectTool ::
  "('i, 'p, 'v, 't, 's) tui_env \<Rightarrow> string \<Rightarrow> tool_args \<Rightarrow> ('i, 'p, 'v, 't) model \<Rightarrow> ('i, 'p, 'v, 't) model \<times> FrozenSnapshot option" where
  "fireDirectTool env toolName args m =
     (let w = teW env; u = teUi env in
      case mdSnap m of
        None \<Rightarrow> (show_line w (errorStyle u ''No snapshot available.'') m, None)
      | Some snap \<Rightarrow>
          (let pid = (case map_of args ''pid'' of None \<Rightarrow> ''<nil>'' | Some j \<Rightarrow> fmtV u j);
               m1 = m\<lparr>mdHistory := mdHistory m @ [promptStyle u ''you'' @ [CHR 0xE2, CHR 0x9D, CHR 0xAF] @ '' '' @ toolName @ ''(pid='' @ pid @ '')''],
                      mdWaiting := True, mdTool := toolName\<rparr>
           in (syncVP w m1, Some snap)))"

section \<open>The view never fails\<close>

lemma tui_ok_rows:
  assumes "tui_ok m"
  shows "\<exists>rows. panel_rows lk u m = Some rows"
  using assms by (auto simp: panel_rows_def Let_def tui_ok_defs)

lemma tui_ok_View: "tui_ok m \<Longrightarrow> View w lk u m \<noteq> None"
  using tui_ok_rows [of m lk u]
  by (auto simp: View_def viewChat_def renderProcPanel_def panel_lines_def tui_ok_def Let_def)

lemma reached_ok:
  assumes "initialDaemonModel (teW env) snap vtKey abuseKey = Some m0" and "\<forall>s. snap = Some s \<longrightarrow> wf_map (FByPID s)"
    and "env_ok env" and "tui_reach env (m0, s0, []) (m, s, p)"
  shows "tui_ok m"
proof -
  have "tui_ok (fst (m0, s0, [])) \<and> quiet (snd (snd (m0, s0, [])))"
    using initialDaemonModel_ok [OF assms(1,2)] by (simp add: quiet_def)
  from tui_reach_ok [OF assms(4,3) this] show ?thesis by simp
qed

text \<open>
  Whatever has happened to the terminal program, it can draw itself: \<^verbatim>\<open>View\<close> returns in every
  state it can reach, for every size of the window.
\<close>

theorem view_never_panics:
  assumes "initialDaemonModel (teW env) snap vtKey abuseKey = Some m0" and "\<forall>s. snap = Some s \<longrightarrow> wf_map (FByPID s)"
    and "env_ok env" and "tui_reach env (m0, s0, []) (m, s, p)"
  shows "View (teW env) lk u m \<noteq> None"
  using tui_ok_View [OF reached_ok [OF assms]] .

section \<open>The cursor stays on the screen\<close>

definition on_screen :: "('i, 'p, 'v, 't) model \<Rightarrow> bool" where
  "on_screen m \<longleftrightarrow> mdScroll m \<le> mdCursor m \<and> mdCursor m < mdScroll m + visible_rows m"

text \<open>All a message can do to the cursor.\<close>

definition cursor_moved :: "('i, 'p, 'v, 't) model \<Rightarrow> ('i, 'p, 'v, 't) model \<Rightarrow> bool" where
  "cursor_moved m m' \<longleftrightarrow> (mdCursor m', mdScroll m') \<in> {(mdCursor m, mdScroll m), (0, 0)}
     \<or> move_down m = Some m' \<or> move_up m = Some m'"

lemma cursor_syncVP [simp]: "mdCursor (syncVP w m) = mdCursor m" "mdScroll (syncVP w m) = mdScroll m"
  by (simp_all add: syncVP_def)

lemma cursor_moved_same: "mdCursor m' = mdCursor m \<Longrightarrow> mdScroll m' = mdScroll m \<Longrightarrow> cursor_moved m m'"
  by (simp add: cursor_moved_def)

lemma show_line_cursor [simp]: "mdCursor (show_line w l m) = mdCursor m" "mdScroll (show_line w l m) = mdScroll m"
  by (simp_all add: show_line_def)

lemma press_enter_cursor:
  "mdCursor (fst (press_enter env m)) = mdCursor m \<and> mdScroll (fst (press_enter env m)) = mdScroll m"
  by (simp add: press_enter_def handleInput_def Let_def)

lemma toggle_panel_cursor [simp]:
  "mdCursor (toggle_panel w m) = mdCursor m" "mdScroll (toggle_panel w m) = mdScroll m"
  by (simp_all add: toggle_panel_def Let_def)

lemma show_snapshot_cursor: "show_snapshot env sn m = Some m' \<Longrightarrow> mdCursor m' = 0 \<and> mdScroll m' = 0"
  by (auto simp: show_snapshot_def)

lemma refresh_cursor: "refresh env m s = Some ((m', s'), cmds) \<Longrightarrow> cursor_moved m m'"
  using show_snapshot_cursor [of env _ m]
  by (fastforce simp: refresh_def cursor_moved_def Let_def split: sum.splits prod.splits if_splits)

lemma updateChat_cursor:
  assumes "updateChat env k m s = Some ((m', s'), cmds)"
  shows "cursor_moved m m'"
proof -
  have pe: "cursor_moved m (fst (press_enter env m))" using press_enter_cursor [of env m] by (simp add: cursor_moved_same)
  show ?thesis
    using assms pe refresh_cursor [of env m s m' s' cmds]
    by (auto simp: updateChat_def Let_def scroll_view_def cursor_moved_same split: if_splits prod.splits)
      (auto simp: cursor_moved_def)
qed

lemma updateLoader_cursor:
  assumes "updateLoader env k m s = Some ((m', s'), cmds)"
  shows "cursor_moved m m'"
proof -
  let ?row = "tbCursor (teW env) (mdTable m)"
  let ?on = "0 \<le> ?row \<and> ?row < int (length (mdMetas m))"
  consider "keyText k = ''esc''" | "keyText k \<noteq> ''esc''" "keyText k = ''enter'' \<and> ?on"
    | "keyText k \<noteq> ''esc''" "\<not> (keyText k = ''enter'' \<and> ?on)" "(keyText k = ''x'' \<or> keyText k = ''d'') \<and> ?on"
    | "keyText k \<noteq> ''esc''" "\<not> (keyText k = ''enter'' \<and> ?on)" "\<not> ((keyText k = ''x'' \<or> keyText k = ''d'') \<and> ?on)"
    by blast
  then show ?thesis
    by cases (use assms in \<open>unfold updateLoader_def Let_def, auto split: if_split_asm intro: cursor_moved_same\<close>)
qed

lemma update_widgets_cursor:
  "mdCursor (fst (update_widgets w msg m)) = mdCursor m \<and> mdScroll (fst (update_widgets w msg m)) = mdScroll m"
  by (simp add: update_widgets_def Let_def)

lemma window_size_cursor [simp]:
  "mdCursor (window_size w x y m) = mdCursor m" "mdScroll (window_size w x y m) = mdScroll m"
  by (simp_all add: window_size_def Let_def)

lemma chat_event_cursor:
  "mdCursor (fst (chat_event env cm m)) = mdCursor m \<and> mdScroll (fst (chat_event env cm m)) = mdScroll m"
  by (cases cm) (simp_all add: Let_def)

lemma select_first_cursor [simp]: "mdCursor (select_first m) = mdCursor m" "mdScroll (select_first m) = mdScroll m"
  by (simp_all add: select_first_def split: list.split)

lemma Update_cursor:
  assumes "Update env msg m s = Some ((m', s'), cmds)"
  shows "cursor_moved m m'"
proof (cases msg)
  case (WindowSizeMsg x y)
  with assms show ?thesis by (auto intro: cursor_moved_same)
next
  case (ChatMsg cm)
  with assms chat_event_cursor [of env cm m] show ?thesis by (auto simp: split_beta intro: cursor_moved_same)
next
  case (SnapshotSavedMsg r)
  with assms show ?thesis by (auto intro: cursor_moved_same)
next
  case (SnapshotLoadedMsg r)
  with assms show_snapshot_cursor [of env _ m] show ?thesis
    by (fastforce simp: cursor_moved_def split: sum.splits)
next
  case (SnapshotsListedMsg r)
  with assms update_widgets_cursor [of "teW env" msg] show ?thesis
    by (cases r) (auto simp: split_beta Let_def intro: cursor_moved_same)
next
  case (SnapshotDeletedMsg i err)
  with assms show ?thesis by (cases err) (auto intro: cursor_moved_same)
next
  case (KeyMsg k)
  with assms updateLoader_cursor updateChat_cursor show ?thesis by (auto split: if_splits)
next
  case (MouseMsg b)
  with assms show ?thesis by (cases b) (auto simp: scroll_view_def intro: cursor_moved_same)
next
  case OtherMsg
  with assms update_widgets_cursor [of "teW env" OtherMsg m] show ?thesis
    by (auto simp: split_beta intro: cursor_moved_same)
qed

lemma select_row_kept: "select_row m = Some m' \<Longrightarrow> mdCursor m' = mdCursor m \<and> mdScroll m' = mdScroll m"
  by (auto simp: select_row_def split: if_splits)

lemma cursor_moved_on_screen:
  assumes "cursor_moved m m'" and "on_screen m" and "7 \<le> mdHeight m" and "mdHeight m' = mdHeight m"
  shows "on_screen m'"
proof -
  have fits: "vpHeight m \<le> visible_rows m" using assms(3) by (simp add: vpHeight_def visible_rows_def panelH_def)
  have same: "visible_rows m' = visible_rows m" using assms(4) by (simp add: visible_rows_def panelH_def)
  have pos: "1 \<le> visible_rows m" by (simp add: visible_rows_def)
  consider "(mdCursor m', mdScroll m') \<in> {(mdCursor m, mdScroll m), (0, 0)}" | "move_down m = Some m'" | "move_up m = Some m'"
    using assms(1) by (auto simp: cursor_moved_def)
  then show ?thesis
  proof cases
    case 1
    with assms(2) same pos show ?thesis by (auto simp: on_screen_def)
  next
    case 2
    then have "mdCursor m' = mdCursor m \<and> mdScroll m' = mdScroll m \<or> mdCursor m' = mdCursor m + 1 \<and> mdScroll m' =
        (if mdScroll m + vpHeight m \<le> mdCursor m + 1 then mdScroll m + 1 else mdScroll m)"
      using select_row_kept [of _ m'] by (fastforce simp: move_down_def Let_def split: if_split_asm)
    with assms(2) fits show ?thesis unfolding on_screen_def same by (auto split: if_split_asm)
  next
    case 3
    then have "mdCursor m' = mdCursor m \<and> mdScroll m' = mdScroll m \<or> mdCursor m' = mdCursor m - 1 \<and> mdScroll m' =
        (if mdCursor m - 1 < mdScroll m then mdScroll m - 1 else mdScroll m)"
      using select_row_kept [of _ m'] by (fastforce simp: move_up_def Let_def split: if_split_asm)
    with assms(2) pos show ?thesis unfolding on_screen_def same by (auto split: if_split_asm)
  qed
qed

lemma on_screen_row:
  assumes "tui_ok m" and "on_screen m" and "mdProcs m \<noteq> []"
  shows "\<exists>rows. panel_rows lk u m = Some rows \<and> panel_row lk u m (mdCursor m) \<in> set rows"
proof -
  let ?stop = "min (mdScroll m + visible_rows m) (int (length (mdProcs m)))"
  have "mdCursor m < int (length (mdProcs m))" using assms(1,3) by (auto simp: tui_ok_defs)
  with assms(2) have "mdCursor m \<in> set [mdScroll m..?stop - 1]" by (simp add: on_screen_def)
  moreover have "0 \<le> mdScroll m" using assms(1) by (simp add: tui_ok_defs)
  ultimately show ?thesis using assms(3) by (auto simp: panel_rows_def Let_def)
qed

text \<open>
  C17: As long as the height of the window (at least seven lines) stays the same, the selected row of the
  process panel stays on the screen: no message moves the cursor out of the part of the list that the
  panel draws.
\<close>

theorem selected_row_stays_on_screen:
  assumes "initialDaemonModel (teW env) snap vtKey abuseKey = Some m0" and "\<forall>s. snap = Some s \<longrightarrow> wf_map (FByPID s)"
    and "env_ok env" and "tui_reach env (m0, s0, []) (m, s, p)" and "on_screen m" and "7 \<le> mdHeight m"
    and "tui_step env (m, s, p) (m', s', p')" and "mdHeight m' = mdHeight m"
  shows "on_screen m'
    \<and> (mdProcs m' \<noteq> [] \<longrightarrow> (\<exists>rows. panel_rows lk u m' = Some rows \<and> panel_row lk u m' (mdCursor m') \<in> set rows))"
proof -
  from assms(7) have "cursor_moved m m'"
    by cases (auto simp del: Update.simps intro: cursor_moved_same dest: Update_cursor)
  from cursor_moved_on_screen [OF this assms(5,6,8)] have "on_screen m'" .
  moreover have "tui_ok m'"
    by (rule reached_ok [OF assms(1-3) tui_reach.more [OF assms(4,7)]])
  ultimately show ?thesis using on_screen_row by blast
qed

text \<open>With a list longer than the window the panel is one line higher than the room left for it.\<close>

lemma panel_one_line_too_high:
  assumes "tui_ok m" and "5 \<le> mdHeight m" and "mdHeight m \<le> int (length (mdProcs m)) - mdScroll m"
  shows "\<exists>lns. panel_lines lk u m = Some lns \<and> int (length lns) = panelH m + 1"
proof -
  have len: "length [mdScroll m..mdScroll m + (mdHeight m - 3) - 1] = nat (mdHeight m - 3)" by simp
  have pos: "0 \<le> mdScroll m" using assms(1) by (simp add: tui_ok_defs)
  with assms(2,3) have "scroll_mark lk m \<noteq> []" "length (scroll_mark lk m) = 1"
    by (simp_all add: scroll_mark_def panelH_def Let_def)
  moreover have "panel_rows lk u m = Some (map (panel_row lk u m) [mdScroll m..mdScroll m + (mdHeight m - 3) - 1] @ scroll_mark lk m)"
    using assms(2,3) pos by (auto simp: panel_rows_def visible_rows_def panelH_def Let_def min_def max_def)
  ultimately show ?thesis using assms(2) by (simp add: panel_lines_def panelH_def Let_def len)
qed

definition plain_looks :: view_looks where
  "plain_looks = \<lparr>vlHeader = id, vlScan = id, vlTitle = id, vlNormal = id, vlDimRow = id, vlMeta = id, vlDimTarget = id,
     vlRed = id, vlPanel = (\<lambda>_ t. t), vlConfirmBox = id, vlPlace = (\<lambda>_ _ t. t), vlJoin = concat\<rparr>"

lemma view_never_panics_witness:
  "\<exists>m. mdSnap m = Some sample_snap \<and> View plain_widgets plain_looks plain_ui m \<noteq> None"
proof -
  obtain m cmds where m: "mdSnap m = Some sample_snap"
      "tui_reach plain_env (fresh_model plain_widgets ([], True) (NewConversation None True) None FocusProcs, (), [])
         (m, (), cmds)" using plain_run by blast
  from view_never_panics [OF plain_start _ plain_env_ok m(2), of plain_looks plain_ui] m(1)
  show ?thesis by (auto simp: plain_env_def)
qed

text \<open>From the start: a window of 24 lines, then a refresh.\<close>

lemma selected_row_stays_on_screen_witness:
  "\<exists>m :: (string \<times> bool, unit, string, string list list) model. mdSnap m = Some sample_snap \<and> on_screen m"
proof -
  let ?m0 = "fresh_model plain_widgets ([], True) (NewConversation None True) None FocusProcs"
  let ?m1 = "window_size plain_widgets 80 24 ?m0"
  have ok0: "tui_ok ?m0" using initialDaemonModel_ok [OF plain_start] by simp
  have w: "teW plain_env = plain_widgets" by (simp add: plain_env_def)
  have s1: "tui_step plain_env (?m0, (), []) (?m1, (), [] @ [])"
    by (rule tui_step.input [of "WindowSizeMsg 80 24"]) (simp_all add: w)
  have r1: "tui_reach plain_env (?m0, (), []) (?m1, (), [])"
    using tui_reach.more [OF tui_reach.start s1] by simp
  have ok1: "tui_ok ?m1" by (rule reached_ok [OF plain_start _ plain_env_ok r1]) simp
  from Update_input_ok [OF plain_env_ok ok1, of "KeyMsg key_refresh" "()"]
  obtain m cmds where m: "Update plain_env (KeyMsg key_refresh) ?m1 () = Some ((m, ()), cmds)"
    by (auto simp: handled_ok_def)
  have s2: "tui_step plain_env (?m1, (), []) (m, (), [] @ cmds)"
    by (rule tui_step.input [OF _ m]) simp
  have h1: "mdHeight ?m1 = 24" "mdMode ?m1 = ModeChat" "mdConv ?m1 = NewConversation None True"
    by (simp_all add: window_size_def syncVP_def fresh_model_def Let_def)
  then have h2: "mdHeight m = 24" and snap: "mdSnap m = Some sample_snap"
    using m by (auto simp: key_refresh_def updateChat_def refresh_def show_snapshot_def plain_env_def NewConversation_def)
  have "on_screen ?m1" by (simp add: on_screen_def visible_rows_def panelH_def h1(1)) (simp add: fresh_model_def)
  from selected_row_stays_on_screen [OF plain_start _ plain_env_ok r1 this _ s2] h1(1) h2
  have "on_screen m" by simp
  with snap show ?thesis by blast
qed

end
