(* ===== verification/ConfigUi.thy ===== *)
theory ConfigUi
  imports Config Tui
begin

text \<open>
  The configuration editor (\<^verbatim>\<open>cmd/config.go\<close>): sixteen text inputs, one of them focused. The inputs are
  the library's, with the operations of \<open>widgets\<close>; \<open>ti_laws\<close> is what it documents of them: a text that
  is printable and within the limit of 256 characters is kept as it is.
\<close>

section \<open>The form\<close>

definition fieldNames :: "string list" where
  "fieldNames =
     [''API Key'', ''Model'', ''Endpoint'', ''Snapshot Interval (min, auto-save)'', ''Ghost Process Retention (sec)'',
      ''DB Snapshot Retention (hours)'', ''Snapshot Concurrency'', ''DB Path'', ''Socket Path'', ''Proc Path'', ''Sys Path'',
      ''Enrichment Workers'', ''Max Effects Per Process'', ''Capture Network (true/false)'',
      ''Capture File I/O (true/false)'', ''Ignored Processes (CSV)'']"

definition fieldCount :: int where "fieldCount = 16"

record 'i configModel =
  cuInputs :: "'i list"
  cuFocused :: int
  cuSaved :: bool
  cuErr :: string

text \<open>The values in the order of the fields.\<close>

definition config_values :: "Config \<Rightarrow> string list" where
  "config_values cfg =
     [cfAPIKey cfg, cfModel cfg, cfEndpoint cfg, dec_int (cfSnapshotIntervalMin cfg),
      dec_int (cfGhostProcessRetentionSec cfg), dec_int (cfDBSnapshotRetentionHours cfg),
      dec_int (cfSnapshotConcurrency cfg), cfDBPath cfg, cfSocketPath cfg, cfProcPath cfg, cfSysPath cfg,
      dec_int (cfEnrichmentWorkers cfg), dec_int (cfMaxEffectsPerProcess cfg), FormatBool (cfCaptureNetwork cfg),
      FormatBool (cfCaptureFileIO cfg), Join (cfIgnoredProcesses cfg) '','']"

definition newConfigModel :: "('i, 'p, 'v, 't) widgets \<Rightarrow> Config \<Rightarrow> 'i configModel" where
  "newConfigModel w cfg =
     (let inputs = map (\<lambda>v. tiSetValue w v (tiNew w)) (config_values cfg) in
      \<lparr>cuInputs = inputs[0 := tiFocus w (inputs ! 0)], cuFocused = 0, cuSaved = False, cuErr = []\<rparr>)"

definition field :: "('i, 'p, 'v, 't) widgets \<Rightarrow> 'i configModel \<Rightarrow> nat \<Rightarrow> string" where
  "field w m i = TrimSpace (tiValue w (cuInputs m ! i))"

definition csv :: "string \<Rightarrow> string list" where
  "csv s = (if s = [] then [] else map TrimSpace (split_byte (CHR '','') s))"

text \<open>The number before an error is taken as it is.\<close>

definition toConfig :: "('i, 'p, 'v, 't) widgets \<Rightarrow> 'i configModel \<Rightarrow> Config" where
  "toConfig w m = \<lparr>cfAPIKey = field w m 0, cfVTApiKey = [], cfAbuseIPKey = [], cfModel = field w m 1,
     cfEndpoint = field w m 2, cfSnapshotIntervalMin = fst (Atoi (field w m 3)),
     cfGhostProcessRetentionSec = fst (Atoi (field w m 4)), cfDBSnapshotRetentionHours = fst (Atoi (field w m 5)),
     cfSnapshotConcurrency = fst (Atoi (field w m 6)), cfDBPath = field w m 7, cfSocketPath = field w m 8,
     cfProcPath = field w m 9, cfSysPath = field w m 10, cfEnrichmentWorkers = fst (Atoi (field w m 11)),
     cfMaxEffectsPerProcess = fst (Atoi (field w m 12)), cfCaptureNetwork = fst (ParseBool (field w m 13)),
     cfCaptureFileIO = fst (ParseBool (field w m 14)), cfIgnoredProcesses = csv (field w m 15), cfStracePath = []\<rparr>"

section \<open>Keys\<close>

datatype config_key = CKQuit | CKSave | CKNext | CKPrev

text \<open>A key of the form, or a message that goes to the focused input.\<close>

datatype config_msg = FormKey config_key | InputMsg tui_msg

definition focus_field :: "('i, 'p, 'v, 't) widgets \<Rightarrow> int \<Rightarrow> 'i configModel \<Rightarrow> 'i configModel" where
  "focus_field w f m =
     (let ins = (cuInputs m)[nat (cuFocused m) := tiBlur w (cuInputs m ! nat (cuFocused m))] in
      m\<lparr>cuInputs := ins[nat f := tiFocus w (ins ! nat f)], cuFocused := f\<rparr>)"

text \<open>The result: the form, whether the editor quits, and the machine and keyring after a save.\<close>

fun config_Update ::
  "('i, 'p, 'v, 't) widgets \<Rightarrow> 'k keyring \<Rightarrow> config_msg \<Rightarrow> 'i configModel \<Rightarrow> machine \<times> 'k \<Rightarrow>
   ('i configModel \<times> bool) \<times> machine \<times> 'k" where
  "config_Update w kr (FormKey CKQuit) m st = ((m, True), st)"
| "config_Update w kr (FormKey CKSave) m st =
     (case Save kr (toConfig w m) (fst st) (snd st) of
        (Some e, st') \<Rightarrow> ((m\<lparr>cuErr := e\<rparr>, False), st')
      | (None, st') \<Rightarrow> ((m\<lparr>cuSaved := True, cuErr := []\<rparr>, True), st'))"
| "config_Update w kr (FormKey CKNext) m st = ((focus_field w ((cuFocused m + 1) mod fieldCount) m, False), st)"
| "config_Update w kr (FormKey CKPrev) m st = ((focus_field w ((cuFocused m - 1 + fieldCount) mod fieldCount) m, False), st)"
| "config_Update w kr (InputMsg msg) m st =
     ((m\<lparr>cuInputs := (cuInputs m)[nat (cuFocused m) := tiUpdate w msg (cuInputs m ! nat (cuFocused m))]\<rparr>, False), st)"

record config_looks =
  titleStyle :: "string \<Rightarrow> string"
  labelStyle :: "string \<Rightarrow> string"
  activeLabel :: "string \<Rightarrow> string"
  savedStyle :: "string \<Rightarrow> string"
  errStyle :: "string \<Rightarrow> string"
  hintStyle2 :: "string \<Rightarrow> string"

definition config_View :: "('i, 'p, 'v, 't) widgets \<Rightarrow> config_looks \<Rightarrow> machine \<Rightarrow> 'i configModel \<Rightarrow> string" where
  "config_View w lk mc m =
     (let rule = concat (replicate 56 box_h) in
      nl @ titleStyle lk ([CHR 0xE2, CHR 0x9A, CHR 0x99] @ ''  godshell config'') @ nl @ rule @ nl @ nl
      @ concat (map (\<lambda>i.
          ''  '' @ (if int i = cuFocused m then activeLabel lk ([CHR 0xE2, CHR 0x96, CHR 0xB8] @ '' '' @ fieldNames ! i @ '':'')
                    else labelStyle lk (fieldNames ! i @ '':''))
          @ '' '' @ tiView w (cuInputs m ! i) @ nl) [0..<16])
      @ nl @ rule @ nl
      @ (if cuErr m \<noteq> [] then errStyle lk (''  '' @ [CHR 0xE2, CHR 0x9C, CHR 0x97] @ '' '' @ cuErr m) @ nl else [])
      @ (if cuSaved m then savedStyle lk (''  '' @ [CHR 0xE2, CHR 0x9C, CHR 0x93] @ '' saved to '' @ ConfigPath mc) @ nl else [])
      @ hintStyle2 lk (''  tab/'' @ [CHR 0xE2, CHR 0x86, CHR 0x91, CHR 0xE2, CHR 0x86, CHR 0x93] @ '' navigate '' @ [CHR 0xE2, CHR 0x80, CHR 0xA2] @ '' enter/ctrl+s save '' @ [CHR 0xE2, CHR 0x80, CHR 0xA2] @ '' esc quit'') @ nl)"

definition RunConfigEditor ::
  "('i, 'p, 'v, 't) widgets \<Rightarrow> 'k keyring \<Rightarrow> machine \<times> 'k \<Rightarrow> 'i configModel \<times> machine \<times> 'k" where
  "RunConfigEditor w kr st =
     (let (cfg, mc) = Load kr (fst st) (snd st) in (newConfigModel w cfg, mc, snd st))"

section \<open>The focus\<close>

definition input_text :: "string \<Rightarrow> bool" where
  "input_text v \<longleftrightarrow> utf8_valid v \<and> rune_count v \<le> 256 \<and> (\<forall>c \<in> set v. 32 \<le> (of_char c :: nat) \<and> (of_char c :: nat) \<noteq> 127)"

definition ti_laws :: "('i, 'p, 'v, 't) widgets \<Rightarrow> bool" where
  "ti_laws w \<longleftrightarrow>
     (\<forall>v i. input_text v \<longrightarrow> tiValue w (tiSetValue w v i) = v)
     \<and> (\<forall>i. tiValue w (tiFocus w i) = tiValue w i)
     \<and> (\<forall>i. tiFocused w (tiFocus w i)) \<and> (\<forall>i. \<not> tiFocused w (tiBlur w i)) \<and> \<not> tiFocused w (tiNew w)
     \<and> (\<forall>v i. tiFocused w (tiSetValue w v i) = tiFocused w i) \<and> (\<forall>msg i. tiFocused w (tiUpdate w msg i) = tiFocused w i)"

definition focus_ok :: "('i, 'p, 'v, 't) widgets \<Rightarrow> 'i configModel \<Rightarrow> bool" where
  "focus_ok w m \<longleftrightarrow> length (cuInputs m) = 16 \<and> 0 \<le> cuFocused m \<and> cuFocused m < 16
     \<and> (\<forall>i < 16. tiFocused w (cuInputs m ! i) \<longleftrightarrow> int i = cuFocused m)"

definition config_run ::
  "('i, 'p, 'v, 't) widgets \<Rightarrow> 'k keyring \<Rightarrow> config_msg list \<Rightarrow> 'i configModel \<times> machine \<times> 'k \<Rightarrow> 'i configModel \<times> machine \<times> 'k" where
  "config_run w kr msgs st = foldl (\<lambda>(m, st) msg. let ((m', _), st') = config_Update w kr msg m st in (m', st')) st msgs"

lemma focus_field_ok:
  assumes "ti_laws w" and "focus_ok w m" and "0 \<le> f" and "f < 16"
  shows "focus_ok w (focus_field w f m)"
  using assms by (auto simp: focus_ok_def focus_field_def ti_laws_def Let_def nth_list_update split: if_splits)

lemma config_Update_focus:
  assumes "ti_laws w" and "focus_ok w m"
  shows "focus_ok w (fst (fst (config_Update w kr msg m st)))"
proof (cases msg)
  case (FormKey k)
  then show ?thesis
    using assms focus_field_ok [OF assms]
    by (cases k) (auto simp: fieldCount_def focus_ok_def split: prod.splits option.splits)
next
  case (InputMsg im)
  with assms show ?thesis by (auto simp: focus_ok_def ti_laws_def nth_list_update)
qed

lemma newConfigModel_focus: "ti_laws w \<Longrightarrow> focus_ok w (newConfigModel w cfg)"
  by (auto simp: focus_ok_def newConfigModel_def config_values_def ti_laws_def Let_def less_Suc_eq numeral_eq_Suc)

text \<open>
  whatever is typed into the configuration editor, exactly one of the sixteen inputs has the focus,
  the one at the index that the editor keeps, so that the moves forward and backward stay in range.
\<close>

theorem config_editor_focus:
  assumes "ti_laws w"
  shows "focus_ok w (fst (config_run w kr msgs (newConfigModel w cfg, st)))"
proof -
  have "focus_ok w (fst s) \<Longrightarrow> focus_ok w (fst (config_run w kr msgs s))" for s
    by (induction msgs arbitrary: s)
      (auto simp: config_run_def case_prod_beta Let_def config_Update_focus [OF assms])
  with newConfigModel_focus [OF assms] show ?thesis by simp
qed

section \<open>Saving what was loaded\<close>

lemma TrimSpace_word: "list_all plain_char s \<Longrightarrow> s \<noteq> [] \<Longrightarrow> TrimSpace s = s"
  using TrimSpace_Join [of "[s]"] by simp

lemma TrimSpace_dec_int: "TrimSpace (dec_int i) = dec_int i"
proof (rule TrimSpace_word)
  have digits: "list_all plain_char (dec n)" for n
    using dec_digits(1) [of n]
    by (rule list.pred_mono_strong)
      (auto simp: is_digit_def digit_val_def plain_char_def is_ascii_def ascii_space_def Let_def split: if_splits)
  then show "list_all plain_char (dec_int i)"
    by (simp add: dec_int_def plain_char_def is_ascii_def ascii_space_def)
  show "dec_int i \<noteq> []" using dec_digits(2) by (simp add: dec_int_def)
qed

lemma TrimSpace_FormatBool: "TrimSpace (FormatBool b) = FormatBool b"
  by (rule TrimSpace_word) (simp_all add: FormatBool_def plain_char_def is_ascii_def ascii_space_def)

text \<open>A configuration whose values the form can hold.\<close>

definition editable :: "Config \<Rightarrow> bool" where
  "editable cfg \<longleftrightarrow> (\<forall>v \<in> set (config_values cfg). input_text v)
     \<and> (\<forall>v \<in> set ([cfAPIKey cfg, cfModel cfg, cfEndpoint cfg, cfDBPath cfg, cfSocketPath cfg, cfProcPath cfg, cfSysPath cfg,
           Join (cfIgnoredProcesses cfg) '',''] @ cfIgnoredProcesses cfg). TrimSpace v = v)
     \<and> (\<forall>s \<in> set (cfIgnoredProcesses cfg). s \<noteq> [] \<and> CHR '','' \<notin> set s)"

lemma csv_Join:
  assumes "\<forall>s \<in> set ss. s \<noteq> [] \<and> CHR '','' \<notin> set s \<and> TrimSpace s = s"
  shows "csv (Join ss '','') = ss"
proof (cases ss)
  case (Cons x xs)
  then have "Join ss '','' \<noteq> []" using assms by (cases xs) auto
  moreover have "split_byte (CHR '','') (Join ss '','') = ss" using assms Cons by (intro split_byte_Join) auto
  ultimately show ?thesis using assms by (simp add: csv_def map_idI)
qed (simp add: csv_def)

lemma newConfigModel_values:
  assumes "ti_laws w" and "\<forall>v \<in> set (config_values cfg). input_text v" and "i < 16"
  shows "field w (newConfigModel w cfg) i = TrimSpace (config_values cfg ! i)"
proof -
  have len: "length (config_values cfg) = 16" by (simp add: config_values_def)
  then have "input_text (config_values cfg ! i)" using assms by (intro assms(2) [rule_format] nth_mem) simp
  moreover have "tiValue w (cuInputs (newConfigModel w cfg) ! i) = tiValue w (tiSetValue w (config_values cfg ! i) (tiNew w))"
    using assms(1,3) len by (simp add: newConfigModel_def Let_def nth_list_update ti_laws_def)
  ultimately show ?thesis using assms(1) by (simp add: field_def ti_laws_def)
qed

lemma toConfig_newConfigModel:
  assumes "ti_laws w" and "editable cfg" and "config_plain cfg"
  shows "toConfig w (newConfigModel w cfg) = cfg\<lparr>cfVTApiKey := [], cfAbuseIPKey := [], cfStracePath := []\<rparr>"
proof -
  have ed: "\<forall>v \<in> set (config_values cfg). input_text v" using assms(2) by (simp add: editable_def)
  note vals = newConfigModel_values [OF assms(1) ed]
  have "csv (Join (cfIgnoredProcesses cfg) '','') = cfIgnoredProcesses cfg"
    using assms(2) by (intro csv_Join) (auto simp: editable_def)
  then show ?thesis
    using assms(2,3)
    by (simp add: toConfig_def vals)
      (simp add: config_values_def editable_def TrimSpace_dec_int TrimSpace_FormatBool Atoi_dec_int ParseBool_FormatBool
        config_plain_def)
qed

text \<open>
  C39: opening the configuration editor and saving without a change keeps every setting but one: the path
  of strace, for which the form has no field, is gone from the configuration that is loaded next.
\<close>

theorem config_editor_drops_strace_path:
  assumes "ti_laws w" and "keyring_laws kr" and "Load kr mc k = (cfg, mc1)" and "editable cfg" and "config_plain cfg"
    and "config_Update w kr (FormKey CKSave) (newConfigModel w cfg) (mc1, k) = ((m, True), mc2, k2)"
    and "cfAPIKey cfg \<noteq> []" and "\<And>bus service user secret k. fst (krSet kr bus service user secret k) = None"
  shows "fst (Load kr mc2 k2) = cfg\<lparr>cfStracePath := []\<rparr>"
proof -
  let ?cfg = "cfg\<lparr>cfVTApiKey := [], cfAbuseIPKey := [], cfStracePath := []\<rparr>"
  have "Save kr ?cfg mc1 k = (None, mc2, k2)"
    using assms(6) by (auto simp: toConfig_newConfigModel [OF assms(1,4,5)] split: prod.splits option.splits)
  moreover have "config_plain ?cfg" using assms(5) by (simp add: config_plain_def)
  ultimately have loaded: "fst (Load kr mc2 k2) = ?cfg\<lparr>cfAPIKey := cfAPIKey cfg,
      cfVTApiKey := getenv mc1 ''VIRUSTOTAL_API_KEY'', cfAbuseIPKey := getenv mc1 ''ABUSEIPDB_API_KEY''\<rparr>"
    using Load_after_Save [of kr ?cfg mc1 k mc2 k2] assms(2,7,8) by simp
  have "cfVTApiKey cfg = getenv mc1 ''VIRUSTOTAL_API_KEY''" "cfAbuseIPKey cfg = getenv mc1 ''ABUSEIPDB_API_KEY''"
    using assms(3) by (auto simp: Load_def Let_def case_prod_beta)
  then show ?thesis unfolding loaded by simp
qed

lemma plain_widgets_laws: "ti_laws plain_widgets"
  by (auto simp: ti_laws_def plain_widgets_def split: tui_msg.splits)

lemma config_editor_focus_witness:
  "focus_ok plain_widgets (fst (config_run plain_widgets plain_keyring [FormKey CKPrev, FormKey CKNext]
     (newConfigModel plain_widgets (Default plain_machine), plain_machine, [])))"
  by (rule config_editor_focus [OF plain_widgets_laws])

definition visible :: "char \<Rightarrow> bool" where
  "visible c \<longleftrightarrow> 33 \<le> (of_char c :: nat) \<and> (of_char c :: nat) \<le> 126"

definition word_text :: "string \<Rightarrow> bool" where
  "word_text s \<longleftrightarrow> list_all visible s \<and> length s \<le> 256 \<and> s \<noteq> []"

lemma word_text_ok: "word_text s \<Longrightarrow> input_text s \<and> TrimSpace s = s \<and> utf8_valid s"
proof -
  assume s: "word_text s"
  have "list_all is_ascii s" "list_all plain_char s"
    using s unfolding word_text_def
    by (auto elim!: list.pred_mono_strong simp: visible_def plain_char_def is_ascii_def ascii_space_def)
  with s show ?thesis
    by (auto simp: word_text_def input_text_def rune_count_ascii utf8_valid_ascii TrimSpace_word list_all_iff visible_def)
qed

definition form_config :: Config where
  "form_config = (Default plain_machine)\<lparr>cfAPIKey := ''sk''\<rparr>"

lemma form_config_db: "cfDBPath form_config = ''/home/u/.config/godshell/godshell.db''"
  by (simp add: form_config_def Default_def configDir_def getenv_def plain_machine_def or_zero_def PathJoin_def PathClean_def
      clean_step_def HasPrefix_def)

lemma form_numbers: "dec_int 0 = ''0''" "dec_int 60 = ''60''" "dec_int 24 = ''24''" "dec_int 1 = ''1''" "dec_int 4 = ''4''"
  "dec_int 1000 = ''1000''"
  by (simp_all add: dec_int_def dec_def show_base.simps digit_char_def char_of_def bit_0)

lemma form_config_words:
  "\<forall>v \<in> set (config_values form_config @ cfIgnoredProcesses form_config @ [cfStracePath form_config]). word_text v"
  by (simp add: config_values_def form_config_db) (simp add: form_config_def Default_def word_text_def visible_def
      form_numbers FormatBool_def)

lemma form_config_ok: "editable form_config" "config_plain form_config"
proof -
  have "word_text (Join (cfIgnoredProcesses form_config) '','')" using form_config_words by (simp add: config_values_def)
  moreover have "\<forall>s \<in> set (cfIgnoredProcesses form_config). s \<noteq> [] \<and> CHR '','' \<notin> set s"
    by (simp add: form_config_def Default_def)
  ultimately show "editable form_config"
    using form_config_words word_text_ok unfolding editable_def by (auto simp: config_values_def)
  have "\<forall>s \<in> set [cfModel form_config, cfEndpoint form_config, cfDBPath form_config, cfSocketPath form_config,
      cfProcPath form_config, cfSysPath form_config, cfStracePath form_config]. utf8_valid s"
    using form_config_words word_text_ok by (auto simp: config_values_def)
  moreover have "\<forall>s \<in> set (cfIgnoredProcesses form_config). utf8_valid s" using form_config_words word_text_ok by auto
  ultimately show "config_plain form_config"
    by (simp add: config_plain_def) (simp add: form_config_def Default_def)
qed

lemma config_editor_drops_strace_path_witness:
  "\<exists>mc2. cfStracePath form_config = ''strace'' \<and> fst (Load plain_keyring mc2 ''sk'') = form_config\<lparr>cfStracePath := []\<rparr>"
proof -
  define mc1 where "mc1 = bridgeDBus (bridgeDBus plain_machine)"
  have ops: "mcMkdir (bridgeDBus mc) = mcMkdir mc" "mcWrite (bridgeDBus mc) = mcWrite mc" for mc
    by (simp_all add: bridgeDBus_def setenv_def Let_def)
  have l: "Load plain_keyring plain_machine ''sk'' = (form_config, mc1)"
    unfolding Load_def loadKeyring_def Let_def read_config_def mc1_def
    by (simp add: plain_keyring_def bridge_env vars_differ)
      (simp add: plain_machine_def getenv_def or_zero_def form_config_def Default_def configDir_def bridge_env [unfolded getenv_def])
  let ?saved = "form_config\<lparr>cfVTApiKey := [], cfAbuseIPKey := [], cfStracePath := []\<rparr>"
  have "toConfig plain_widgets (newConfigModel plain_widgets form_config) = ?saved"
    by (rule toConfig_newConfigModel [OF plain_widgets_laws form_config_ok])
  moreover have "cfAPIKey ?saved = ''sk''" by (simp add: form_config_def)
  then have "\<exists>mc2. Save plain_keyring ?saved mc1 ''sk'' = (None, mc2, ''sk'')"
    by (simp add: Save_def EnsureDir_def mc1_def ops Let_def plain_keyring_def) (simp add: plain_machine_def ops Let_def)
  ultimately obtain m mc2 where "config_Update plain_widgets plain_keyring (FormKey CKSave) (newConfigModel plain_widgets form_config)
      (mc1, ''sk'') = ((m, True), mc2, ''sk'')"
    by auto
  from config_editor_drops_strace_path [OF plain_widgets_laws _ l form_config_ok this] show ?thesis
    by (auto simp: keyring_laws_def plain_keyring_def form_config_def Default_def)
qed

end
