(* ===== verification/Startup.thy ===== *)
theory Startup
  imports Daemon TuiView ConfigUi
begin

text \<open>
  \<^verbatim>\<open>main\<close> (\<^verbatim>\<open>main.go\<close>) and \<^verbatim>\<open>cmd/diag\<close>: the dispatch of the arguments, the settings of a session, the first snapshot, and
  the terminal program on it; and what the parts give together: a session never crashes.
\<close>

section \<open>Messages\<close>

definition safePrefix :: "string \<Rightarrow> string" where
  "safePrefix s = (if length s \<le> 8 then ''***'' else take 8 s @ [CHR 0xE2, CHR 0x80, CHR 0xA6])"

definition usage :: string where
  "usage = concat (map (\<lambda>l. l @ nl)
     [''Usage: godshell [command]'',
      [],
      ''Commands:'',
      ''  (none)    Start the AI REPL (connects to daemon socket)'',
      ''  daemon    Run the eBPF observer background process (requires sudo)'',
      ''  config    Open interactive config editor'',
      [],
      ''Environment overrides:'',
      ''  OPENROUTER_API_KEY    API key (overrides config)'',
      ''  GODSHELL_MODEL        Model name (overrides config)''])"

definition missing_key :: "ui \<Rightarrow> string" where
  "missing_key u = errorStyle u ([CHR 0xE2, CHR 0x9C, CHR 0x97] @ '' API key not found'') @ nl
     @ hintStyle u ''  Please set your OpenRouter API key using: godshell config'' @ nl
     @ hintStyle u ''  Or set the environment variable: export OPENROUTER_API_KEY=sk-or-...'' @ nl"

definition no_daemon :: "ui \<Rightarrow> string \<Rightarrow> string" where
  "no_daemon u e = errorStyle u ([CHR 0xE2, CHR 0x9C, CHR 0x97] @ '' Failed to connect to godshell daemon'') @ nl
     @ hintStyle u (''  Ensure the daemon is running in another terminal:'' @ nl)
     @ hintStyle u (''    sudo godshell daemon'' @ nl)
     @ hintStyle u (''  Error details: '' @ e @ nl)"

definition banner :: "Config \<Rightarrow> string" where
  "banner cfg = [CHR 0xE2, CHR 0x9A, CHR 0xA1] @ '' godshell  model='' @ cfModel cfg @ ''  key_len='' @ dec (length (cfAPIKey cfg))
     @ ''  key_prefix='' @ safePrefix (cfAPIKey cfg) @ nl"

section \<open>\<^verbatim>\<open>main\<close>\<close>

text \<open>
  What the process becomes. The editor and the daemon are modelled in their own theories. A session has
  printed its banner and runs the terminal program on a model.
\<close>

datatype ('i, 'p, 'v, 't) outcome =
  BecomesDaemon | BecomesEditor | PrintsUsage string | Exits string
| Session string OpenAIClient "('i, 'p, 'v, 't) model"

definition command :: "string \<Rightarrow> ('i, 'p, 'v, 't) outcome" where
  "command arg =
     (if arg = ''daemon'' then BecomesDaemon
      else if arg = ''config'' then BecomesEditor
      else if arg = ''--help'' \<or> arg = ''-h'' then PrintsUsage usage
      else Exits (''unknown command: '' @ arg @ nl))"

definition session_config :: "'k keyring \<Rightarrow> machine \<Rightarrow> 'k \<Rightarrow> Config" where
  "session_config kr mc k =
     (let (cfg, mc1) = Load kr mc k;
          key = getenv mc1 ''OPENROUTER_API_KEY''; md = getenv mc1 ''GODSHELL_MODEL'';
          cfg1 = (if key \<noteq> [] then cfg\<lparr>cfAPIKey := key\<rparr> else cfg)
      in if md \<noteq> [] then cfg1\<lparr>cfModel := md\<rparr> else cfg1)"

text \<open>\<open>None\<close> is a crash, or a daemon that never answers.\<close>

definition main ::
  "('i, 'p, 'v, 't) widgets \<Rightarrow> ui \<Rightarrow> 'k keyring \<Rightarrow> (string \<Rightarrow> 's caller) \<Rightarrow> (json \<Rightarrow> string) \<Rightarrow> string list \<Rightarrow>
   machine \<Rightarrow> 'k \<Rightarrow> 's \<Rightarrow> (('i, 'p, 'v, 't) outcome \<times> 's) option" where
  "main w u kr call render args mc k s =
     (case args of
        arg # _ \<Rightarrow> Some (command arg, s)
      | [] \<Rightarrow>
          (let cfg = session_config kr mc k in
           if cfAPIKey cfg = [] then Some (Exits (missing_key u), s)
           else Option.bind (Client_GetSnapshot (call (cfSocketPath cfg)) render s) (\<lambda>(r, s1).
             case r of
               Inl e \<Rightarrow> Some (Exits (no_daemon u e), s1)
             | Inr snap \<Rightarrow>
                 map_option (\<lambda>m. (Session (banner cfg) (NewOpenAIClient (cfAPIKey cfg) (cfEndpoint cfg) (cfModel cfg)) m, s1))
                   (initialDaemonModel w (Some snap) (cfVTApiKey cfg) (cfAbuseIPKey cfg)))))"

text \<open>Of a key the banner shows its length and, if it is longer than eight bytes, its first eight.\<close>

lemma banner_hides_key:
  "length key = length key' \<Longrightarrow> 8 < length key \<longrightarrow> take 8 key = take 8 key' \<Longrightarrow>
   banner (cfg\<lparr>cfAPIKey := key\<rparr>) = banner (cfg\<lparr>cfAPIKey := key'\<rparr>)"
  by (simp add: banner_def safePrefix_def)

section \<open>Diagnostics\<close>

text \<open>The report of \<^verbatim>\<open>cmd/diag\<close>: the environment before and after the configuration is loaded.\<close>

definition diag :: "'k keyring \<Rightarrow> machine \<Rightarrow> 'k \<Rightarrow> int \<Rightarrow> int \<Rightarrow> string" where
  "diag kr mc k uid euid =
     (let (cfg, mc1) = Load kr mc k in
      ''UID: '' @ dec_int uid @ '', EUID: '' @ dec_int euid @ nl
      @ ''SUDO_USER: '' @ getenv mc ''SUDO_USER'' @ '', SUDO_UID: '' @ getenv mc ''SUDO_UID'' @ nl
      @ ''DBUS_SESSION_BUS_ADDRESS (before): '' @ getenv mc bus_var @ nl
      @ ''DBUS_SESSION_BUS_ADDRESS (after): '' @ getenv mc1 bus_var @ nl
      @ ''Config Path: '' @ ConfigPath mc1 @ nl
      @ (if cfAPIKey cfg = [] then ''API Key: NOT FOUND'' @ nl
         else ''API Key FOUND! Length: '' @ dec (length (cfAPIKey cfg)) @ nl))"

section \<open>A decoded snapshot is a map\<close>

lemma put_entries_None: "foldl (put_entry key conv) None fs = None"
  by (induction fs) (simp_all add: put_entry_def)

lemma put_entries_wf: "foldl (put_entry key conv) (Some m) fs = Some m' \<Longrightarrow> wf_map m \<Longrightarrow> wf_map m'"
proof (induction fs arbitrary: m)
  case (Cons kj fs)
  then obtain m1 where m1: "put_entry key conv (Some m) kj = Some m1"
    by (cases "put_entry key conv (Some m) kj") (auto simp: put_entries_None)
  with Cons.prems(2) have "wf_map m1" by (auto simp: put_entry_def split: bind_splits if_splits)
  with Cons m1 show ?case by simp
qed simp

lemma as_map_wf: "as_map key conv j = Some m \<Longrightarrow> wf_map m"
  by (cases j) (auto dest: put_entries_wf simp: wf_map_def)

lemma get_map_wf:
  assumes "get_field (as_map key conv) [] fs nm = Some m"
  shows "wf_map m"
proof -
  have "m = [] \<or> (\<exists>j. as_map key conv j = Some m)"
    using assms by (auto simp: get_field_def simp del: as_map.simps split: option.splits json.splits)
  then show ?thesis using as_map_wf [of key conv] by (auto simp: wf_map_def)
qed

lemma UnmarshalSnapshot_wf: "UnmarshalSnapshot j = Some snap \<Longrightarrow> wf_map (FByPID snap) \<and> wf_map (FGhosts snap)"
  by (auto simp: UnmarshalSnapshot_def dest: get_map_wf split: bind_splits)

lemma decode_or_Inr: "decode_or msg conv b = Inr x \<Longrightarrow> \<exists>j. conv j = Some x"
  by (auto simp: decode_or_def split: option.splits bind_splits)

lemma call_daemon_Inr:
  assumes "call_daemon call render neterr bad useBody meth url bdy s = Some (Inr x, s')"
  shows "\<exists>b. useBody b = Inr x"
proof -
  obtain r where r: "call meth url bdy s = Some (r, s')"
    using assms by (auto simp: call_daemon_def)
  show ?thesis
  proof (cases r)
    case (Inr resp)
    with r assms show ?thesis by (auto simp: call_daemon_def split: if_splits)
  qed (use r assms in \<open>simp add: call_daemon_def\<close>)
qed

lemma Client_GetSnapshot_wf:
  assumes "Client_GetSnapshot call render s = Some (Inr snap, s')"
  shows "wf_map (FByPID snap)"
proof -
  from call_daemon_Inr [OF assms [unfolded Client_GetSnapshot_def]] obtain b
    where "decode_or ''failed to decode snapshot json: '' UnmarshalSnapshot b = Inr snap" by blast
  from decode_or_Inr [OF this] obtain j where "UnmarshalSnapshot j = Some snap" by blast
  from UnmarshalSnapshot_wf [OF this] show ?thesis by simp
qed

section \<open>A session never crashes\<close>

text \<open>
  The surroundings of a session: refreshing asks the daemon. The tree of the process itself is not used
  then; what the record holds for it is any well-formed snapshot.
\<close>

definition session_env ::
  "('i, 'p, 'v, 't) widgets \<Rightarrow> 's caller \<Rightarrow> (json \<Rightarrow> string) \<Rightarrow> ('i, 'p, 'v, 't, 's) tui_env \<Rightarrow> bool" where
  "session_env w call render env \<longleftrightarrow> teW env = w
     \<and> (\<forall>s. Client_GetSnapshot call render s = Some (teFetch env s)) \<and> (\<forall>s. wf_map (FByPID (fst (teTake env s))))"

lemma session_env_ok: "session_env w call render env \<Longrightarrow> env_ok env"
  using Client_GetSnapshot_wf unfolding session_env_def env_ok_def by metis

lemma started_session:
  assumes "main w u kr call render [] mc k s = Some (Session b llm m0, s0)"
  shows "\<exists>snap vt ab. initialDaemonModel w (Some snap) vt ab = Some m0 \<and> wf_map (FByPID snap)"
proof -
  let ?cfg = "session_config kr mc k"
  from assms obtain snap s1 where "Client_GetSnapshot (call (cfSocketPath ?cfg)) render s = Some (Inr snap, s1)"
      "initialDaemonModel w (Some snap) (cfVTApiKey ?cfg) (cfAbuseIPKey ?cfg) = Some m0"
    by (auto simp: main_def Let_def split: bind_splits if_splits sum.splits)
  moreover from this(1) have "wf_map (FByPID snap)" by (rule Client_GetSnapshot_wf)
  ultimately show ?thesis by (intro exI conjI)
qed

text \<open>
  C4: a session never crashes: when the daemon answers every request, starting the program ends with an
  explanation or with a running session, and in every state that the session reaches, whatever was typed, clicked and
  answered and whatever documents the daemon sent, every message is handled and the screen is drawn.
\<close>

theorem session_never_crashes:
  assumes "session_env w (call (cfSocketPath (session_config kr mc k))) render env"
  shows "main w u kr call render [] mc k s \<noteq> None
    \<and> (\<forall>b llm m0 s0 m s1 p. main w u kr call render [] mc k s = Some (Session b llm m0, s0) \<longrightarrow>
         tui_reach env (m0, s0, []) (m, s1, p) \<longrightarrow>
         View w lk u m \<noteq> None \<and> (\<forall>msg. terminal_input msg \<or> (\<exists>c \<in> set p. answers c msg) \<longrightarrow> Update env msg m s1 \<noteq> None))"
proof (intro conjI allI impI)
  let ?get = "Client_GetSnapshot (call (cfSocketPath (session_config kr mc k))) render s"
  have get: "?get = Some (teFetch env s)" using assms by (simp add: session_env_def)
  show "main w u kr call render [] mc k s \<noteq> None"
  proof (cases "fst (teFetch env s)")
    case (Inr snap)
    with get have "wf_map (FByPID snap)" by (metis Client_GetSnapshot_wf prod.collapse)
    from proc_rows_Some [OF this] have "initialDaemonModel w (Some snap) vt ab \<noteq> None" for vt ab
      by (auto simp: initialDaemonModel_def Let_def)
    with get Inr show ?thesis by (auto simp: main_def Let_def case_prod_beta)
  qed (use get in \<open>auto simp: main_def Let_def case_prod_beta\<close>)
next
  fix b llm m0 s0 m s1 p
  assume started: "main w u kr call render [] mc k s = Some (Session b llm m0, s0)"
    and reach: "tui_reach env (m0, s0, []) (m, s1, p)"
  from started_session [OF started] obtain snap vt ab
    where "initialDaemonModel w (Some snap) vt ab = Some m0" "wf_map (FByPID snap)" by metis
  then have "tui_ok (fst (m0, s0, [])) \<and> quiet (snd (snd (m0, s0, [])))"
    using initialDaemonModel_ok [of w "Some snap" vt ab m0] by simp
  from tui_reach_ok [OF reach session_env_ok [OF assms] this] have ok: "tui_ok m" "quiet p" by simp_all
  show "View w lk u m \<noteq> None" by (rule tui_ok_View [OF ok(1)])
  show "Update env msg m s1 \<noteq> None" if "terminal_input msg \<or> (\<exists>c \<in> set p. answers c msg)" for msg
  proof -
    have "handled_ok (Update env msg m s1)"
      using that Update_input_ok [OF session_env_ok [OF assms] ok(1), of msg s1] Update_reply_ok [OF ok(1) _ ok(2), of _ msg env s1]
      by blast
    then show ?thesis by (auto simp: handled_ok_def)
  qed
qed

text \<open>A session with a daemon: it starts, and its first screen is drawn.\<close>

definition sample_call :: "string \<Rightarrow> (unit, rows) server caller" where
  "sample_call socket = daemon_call \<lparr>trDial = None, trEOF = ''EOF'', trBadURL = (\<lambda>_. [])\<rparr> (sample_env (\<lambda>_. Inl []))
     (\<lambda>t. Some (sample_snap, t)) list_sql"

lemma sample_call_snapshot: "Client_GetSnapshot (sample_call socket) render s = Some (Inr sample_snap, s\<lparr>svTree := ()\<rparr>)"
  unfolding sample_call_def by (rule Client_GetSnapshot_daemon) (simp_all add: sample_snap_plain)

definition sample_session :: "(string \<times> bool, unit, string, string list list, (unit, rows) server) tui_env" where
  "sample_session = \<lparr>teW = plain_widgets, teUi = plain_ui, teZone = \<lambda>_. 0, teFetch = \<lambda>s. (Inr sample_snap, s\<lparr>svTree := ()\<rparr>),
     teTake = \<lambda>s. (sample_snap, s)\<rparr>"

lemma session_never_crashes_witness:
  "\<exists>b llm m0 s0. main plain_widgets plain_ui plain_keyring sample_call (\<lambda>_. []) [] plain_machine ''sk''
      \<lparr>svTree = (), svDb = None\<rparr> = Some (Session b llm m0, s0)
    \<and> mdSnap m0 = Some sample_snap \<and> View plain_widgets plain_looks plain_ui m0 \<noteq> None"
proof -
  let ?s = "\<lparr>svTree = (), svDb = None\<rparr> :: (unit, rows) server"
  let ?main = "main plain_widgets plain_ui plain_keyring sample_call (\<lambda>_. []) [] plain_machine ''sk'' ?s"
  let ?call = "sample_call (cfSocketPath (session_config plain_keyring plain_machine ''sk''))"
  have wf: "wf_map (FByPID sample_snap)" using sample_snap_plain by (simp add: snapshot_plain_def)
  have env: "session_env plain_widgets ?call (\<lambda>_. []) sample_session"
    using wf by (simp add: session_env_def sample_session_def sample_call_snapshot)
  have key: "cfAPIKey (session_config plain_keyring plain_machine ''sk'') \<noteq> []"
    by (simp add: session_config_def Load_def loadKeyring_def plain_keyring_def Let_def case_prod_beta)
  from proc_rows_Some [OF wf] obtain es where "proc_rows (Some sample_snap) [] = Some es" by blast
  then have "\<exists>b llm m0 s0. ?main = Some (Session b llm m0, s0) \<and> mdSnap m0 = Some sample_snap"
    using key by (simp add: main_def sample_call_snapshot initialDaemonModel_def fresh_model_def Let_def)
  then obtain b llm m0 s0 where m0: "?main = Some (Session b llm m0, s0)" "mdSnap m0 = Some sample_snap" by blast
  from session_never_crashes [where call = sample_call and s = ?s and u = plain_ui and lk = plain_looks, OF env] m0(1)
  have "View plain_widgets plain_looks plain_ui m0 \<noteq> None"
    using tui_reach.start [of sample_session "(m0, s0, [])"] by metis
  with m0 show ?thesis by blast
qed

end
