(* ===== verification/Spec2Isabelle.thy ===== *)
theory Spec2Isabelle
  imports Intel Browser HttpRecon Startup
begin

text \<open>
  A verification development for godshell, a Go program that watches the processes of a Linux host
  through eBPF, keeps a graph of what they do, and answers queries about snapshots of that graph.

  \<^bold>\<open>The program.\<close> \<^verbatim>\<open>godshell daemon\<close> runs as root. \<^verbatim>\<open>observer/daemon.go\<close> decodes kernel events (exec,
  open, exit, connect) from a ring buffer; \<^verbatim>\<open>context/handlers.go\<close> folds them into the process tree of
  \<^verbatim>\<open>context/tree.go\<close>: active processes by PID, and ghosts, which have exited and are kept for a while.
  Other goroutines poll metrics (\<^verbatim>\<open>context/metrics.go\<close>), evict ghosts, save and prune snapshots, and
  answer requests on a socket (\<^verbatim>\<open>daemon/server.go\<close>). \<^verbatim>\<open>TakeSnapshot\<close> enriches processes and connections from
  \<^verbatim>\<open>/proc\<close> and copies the tree; all queries of \<^verbatim>\<open>context/query.go\<close> and the overviews of
  \<^verbatim>\<open>context/snapshot.go\<close> read such a copy. \<^verbatim>\<open>godshell\<close> is the session of a user: it fetches a snapshot
  (\<^verbatim>\<open>client/client.go\<close>), shows it in the terminal (\<^verbatim>\<open>main.go\<close>) and lets a language model
  (\<^verbatim>\<open>llm/bridge.go\<close>, \<^verbatim>\<open>llm/client.go\<close>) call the queries as tools, the privileged ones through the daemon.
  \<^verbatim>\<open>godshell config\<close> edits the configuration (\<^verbatim>\<open>cmd/config.go\<close>, \<^verbatim>\<open>config/config.go\<close>).

  \<^bold>\<open>The theories.\<close>
  \<^item> \<open>GoPrelude\<close>, \<open>GoStrings\<close>, \<open>GoNumbers\<close>, \<open>GoUtf8\<close>, \<open>GoFormat\<close>, \<open>Regexp\<close>: the parts of the Go
    language and library that the sources use. Integers keep their width as words; a map is an
    association list with distinct keys, in any order; strings are byte lists. The locales
    \<open>keyed_store\<close>, \<open>invariant_system\<close> with \<open>transition_invariant\<close>, \<open>slice_sort\<close> and \<open>codec\<close> (of \<open>SnapStore\<close>) state
    the contracts of maps, of systems with an invariant, of \<^verbatim>\<open>sort.Slice\<close>, and of a JSON encoder with its decoder;
    each is interpreted on the definitions used here: the tree, the lookups, the terminal and the
    daemon are systems with an invariant, and effects, nodes, snapshots, messages and rows of the store have codecs.
  \<^item> \<open>Observer\<close>: events, their wire format, and \<^verbatim>\<open>Run\<close>.
  \<^item> \<open>ProcTree\<close>, \<open>Enrichment\<close>, \<open>Handlers\<close>, \<open>Metrics\<close>: the data model, the readers of \<^verbatim>\<open>/proc\<close>, every
    handler, and the metrics tick. A critical section under the tree's mutex is one function on
    \<open>ProcessTree\<close>; where a function releases the mutex, what the other goroutines do in the gap is an
    argument (\<open>gap\<close>).
  \<^item> \<open>TreeInv\<close>: the steps as the datatype \<open>tree_op\<close>, the invariant \<open>tree_ok\<close>, its preservation by every
    step, and so for every interleaving. \<open>Lifecycle\<close>: the abstract machine of one PID that
    \<open>HandleEvent\<close> refines, counting, exit and eviction, and what enrichment keeps and loses.
  \<^item> \<open>Frozen\<close>: \<open>TakeSnapshot\<close>, with the orders of its ranges and the interference in its lock gaps as
    arguments; its inner range holds no lock, and meeting a writer there ends the process (\<open>None\<close>). \<open>Collapse\<close>, \<open>Grouping\<close>, \<open>Reports\<close>: the overviews. The walk to the naming ancestor has no
    bound in the code, so it is a partial function and \<open>None\<close> is a walk that never ends.
  \<^item> \<open>Query\<close>, \<open>ProcReports\<close>, \<open>Memory\<close>, \<open>HeapScan\<close>, \<open>Family\<close>: the queries. Calls on the operating system
    and on other programs are the fields of the records \<open>host\<close> and \<open>memhost\<close>. A panic is an outcome.
  \<^item> \<open>Tools\<close>, \<open>Conversation\<close>, \<open>ChatLoop\<close>: the dispatch of tools and their declarations, messages, the window of the
    history, the exchange with the model, and the loop that alternates between them.
  \<^item> \<open>Intel\<close>: the threat intelligence client with its cache and rate limiter.
  \<^item> \<open>SnapStore\<close>, \<open>DaemonApi\<close>, \<open>Daemon\<close>: snapshots as documents, the store over a record of SQL operations with
    laws (\<open>sql_laws\<close>), the handlers and the client over one exchange of HTTP, and the daemon as a
    transition system whose steps are those of its goroutines and its requests, until one of them ends the process.
  \<^item> \<open>Config\<close>, \<open>ConfigUi\<close>: the configuration, the keyring, and the form.
  \<^item> \<open>Cards\<close>, \<open>ProcPanel\<close>, \<open>Tui\<close>, \<open>TuiView\<close>, \<open>Startup\<close>: the terminal program. \<open>Update\<close> and \<open>View\<close> act on the
    record \<open>model\<close>, over widgets that are a record of operations; \<open>tui_step\<close> is the transition system of
    messages, and \<open>main\<close> composes session, client and daemon.
  \<^item> \<open>Browser\<close>, \<open>SslProbe\<close>, \<open>HttpRecon\<close>: the map of browser processes, the probes on TLS libraries, and the
    endpoints reconstructed from what the probes deliver.

  \<^bold>\<open>What the lemmas show.\<close> The tree stays well formed under every interleaving and its per-process bound
  on effects holds; it refines independent per-PID machines, so events of different processes never
  interfere; parsers of kernel formats invert the kernel's printers; snapshots that are taken are well formed
  and complete when nothing interferes; collapsing and the overviews lose nothing; overviews and
  lineages return when parents are older than children. A call through the socket gives what the
  operation gives in the daemon, and what is saved, in the store and in the configuration, loads back, for strings
  that are UTF-8. The
  chat loop returns when the model answers; lookups never panic and keep the rate; a session, from the
  start of \<^verbatim>\<open>main\<close> on, handles every message and draws every screen. Theorems of kind error state where the
  code falls short: cycles of parents after PID reuse, a process listed twice, a panic in the heap scan,
  probes that are never attached, parents misread, a setting that the form loses.

  \<^bold>\<open>Conventions and bounds.\<close> \<open>now i\<close> is the clock at the i-th reading in a function; \<open>rnd\<close> is the rounding
  of one floating-point operation (a \<^verbatim>\<open>float64\<close> is the rational it denotes); \<open>ord\<close> is the order of a
  range over a local map. Recursion is structural or has a measure; the star of a regular expression
  iterates at most as often as there are bytes left, which is enough because every iteration consumes
  one. Sorting is Go's insertion sort; the theorems use only its contract. An outcome \<open>None\<close> of a function
  that is partial in the code is a run that never ends or, where the theory says so, a crash.

  \<^bold>\<open>Not modelled.\<close> The eBPF programs (of \<^verbatim>\<open>ssl.bpf.c\<close>, only what it writes for one call) and the bindings
  that are generated from them; \<^verbatim>\<open>context/browsermapper.go\<close>, which is empty. Libraries are
  parameters: Bubble Tea and Lip Gloss (widgets, styles), SQLite, the keyring, HTTP transports and parsers, the
  readers of ELF files, SHA-256, the regular expressions that users type. JSON documents are values of
  the type \<open>json\<close>: their layout as text and the messages of its decoder are left out, as are the texts of
  errors of the operating system and the prose of tool descriptions.
\<close>

end
